theory Spec2Isabelle
  imports Complex_Main "HOL-Library.Extended_Nat" "HOL-Library.Multiset"
begin

section \<open>Dense arrays\<close>

text \<open>
  A one-dimensional float array is a list of reals, a two-dimensional one a list of rows.
  Floating point numbers are idealised as real numbers throughout the posterior
  arithmetic; the special values of the kernels' log scores are modelled further below.
  The elementwise operations pair the entries of two arrays of the same shape; every
  theorem about them fixes the shapes by a hypothesis.
\<close>

type_synonym vec = "real list"
type_synonym mat = "real list list"

definition zeros :: "nat \<Rightarrow> vec" where
  "zeros n = replicate n 0"

definition eye :: "nat \<Rightarrow> mat" where
  "eye n = map (\<lambda>i. map (\<lambda>j. if i = j then 1 else 0) [0..<n]) [0..<n]"

definition vadd :: "vec \<Rightarrow> vec \<Rightarrow> vec" where
  "vadd x y = map2 (+) x y"

definition vsub :: "vec \<Rightarrow> vec \<Rightarrow> vec" where
  "vsub x y = map2 (-) x y"

definition vscale :: "real \<Rightarrow> vec \<Rightarrow> vec" where
  "vscale c x = map ((*) c) x"

definition vdiv :: "vec \<Rightarrow> real \<Rightarrow> vec" where
  "vdiv x c = map (\<lambda>a. a / c) x"

definition madd :: "mat \<Rightarrow> mat \<Rightarrow> mat" where
  "madd A B = map2 vadd A B"

definition msub :: "mat \<Rightarrow> mat \<Rightarrow> mat" where
  "msub A B = map2 vsub A B"

definition mscale :: "real \<Rightarrow> mat \<Rightarrow> mat" where
  "mscale c A = map (vscale c) A"

definition transpose_m :: "mat \<Rightarrow> mat" where
  "transpose_m A =
     map (\<lambda>j. map (\<lambda>row. row ! j) A) [0..<(if A = [] then 0 else length (hd A))]"

definition dot :: "mat \<Rightarrow> mat \<Rightarrow> mat" where
  "dot A B = map (\<lambda>row. map (\<lambda>col. sum_list (map2 (*) row col)) (transpose_m B)) A"

definition diag :: "mat \<Rightarrow> vec" where
  "diag A = map (\<lambda>i. A ! i ! i) [0..<length A]"

text \<open>
  Modelled from the spec: \<open>outer_product\<close> of \<open>pgsm.math_utils\<close> is not among the
  sources. The sufficient statistics are described as holding the sum of the outer
  products \<open>x x\<^sup>T\<close> of the points, so \<open>outer_product x y\<close> is the matrix with entry
  \<open>x\<^sub>i y\<^sub>j\<close> at row \<open>i\<close>, column \<open>j\<close>.
\<close>

definition outer_product :: "vec \<Rightarrow> vec \<Rightarrow> mat" where
  "outer_product x y = map (\<lambda>a. map (\<lambda>b. a * b) y) x"

text \<open>The shape predicates: a vector of length \<open>d\<close>, a \<open>d \<times> d\<close> matrix.\<close>

definition is_vec :: "nat \<Rightarrow> vec \<Rightarrow> bool" where
  "is_vec d x \<longleftrightarrow> length x = d"

definition is_mat :: "nat \<Rightarrow> mat \<Rightarrow> bool" where
  "is_mat d A \<longleftrightarrow> length A = d \<and> list_all (\<lambda>row. length row = d) A"


section \<open>Multivariate normal model (pgsm/distributions/mvn.py)\<close>

subsection \<open>MultivariateNormalSufficientStatistics\<close>

record sufficient_statistics =
  ss_N :: int
  ss_X :: vec
  ss_S :: mat

definition ss_copy :: "sufficient_statistics \<Rightarrow> sufficient_statistics" where
  "ss_copy s = \<lparr>ss_N = ss_N s, ss_X = ss_X s, ss_S = ss_S s\<rparr>"

definition ss_decrement :: "vec \<Rightarrow> sufficient_statistics \<Rightarrow> sufficient_statistics" where
  "ss_decrement x s =
     s\<lparr>ss_N := ss_N s - 1, ss_X := vsub (ss_X s) x, ss_S := msub (ss_S s) (outer_product x x)\<rparr>"

definition ss_increment :: "vec \<Rightarrow> sufficient_statistics \<Rightarrow> sufficient_statistics" where
  "ss_increment x s =
     s\<lparr>ss_N := ss_N s + 1, ss_X := vadd (ss_X s) x, ss_S := madd (ss_S s) (outer_product x x)\<rparr>"

subsection \<open>MultivariateNormalPriors\<close>

record priors =
  dim :: nat
  prior_nu :: int
  prior_r :: int
  prior_S :: mat
  prior_u :: vec
  prior_log_det_S :: real

text \<open>
  The constructor. \<open>np.linalg.slogdet(np.eye(dim))[1]\<close> is the logarithm of the absolute
  determinant of the identity matrix, which is 0.
\<close>

definition MultivariateNormalPriors :: "nat \<Rightarrow> priors" where
  "MultivariateNormalPriors d =
     \<lparr>dim = d, prior_nu = int d + 2, prior_r = 1, prior_S = eye d, prior_u = zeros d,
      prior_log_det_S = 0\<rparr>"

subsection \<open>MultivariateNormalParameters\<close>

record parameters =
  priors :: priors
  ss :: sufficient_statistics
  nu :: int
  r :: int
  u :: vec
  S_chol :: mat

definition update_nu :: "parameters \<Rightarrow> parameters" where
  "update_nu p = p\<lparr>nu := prior_nu (priors p) + ss_N (ss p)\<rparr>"

definition update_r :: "parameters \<Rightarrow> parameters" where
  "update_r p = p\<lparr>r := prior_r (priors p) + ss_N (ss p)\<rparr>"

definition update_u :: "parameters \<Rightarrow> parameters" where
  "update_u p =
     p\<lparr>u := vdiv (vadd (vscale (real_of_int (prior_r (priors p))) (prior_u (priors p)))
                      (ss_X (ss p)))
                (real_of_int (r p))\<rparr>"

text \<open>
  The matrix that \<open>_update_S_chol\<close> assembles from the prior and the current statistics
  before factorising it: \<open>S\<^sub>0 + S + r\<^sub>0 u\<^sub>0 u\<^sub>0\<^sup>T - r u u\<^sup>T\<close>.
\<close>

definition direct_S :: "parameters \<Rightarrow> mat" where
  "direct_S p =
     msub (madd (madd (prior_S (priors p)) (ss_S (ss p)))
                (mscale (real_of_int (prior_r (priors p)))
                        (outer_product (prior_u (priors p)) (prior_u (priors p)))))
          (mscale (real_of_int (r p)) (outer_product (u p) (u p)))"

text \<open>
  \<open>np.linalg.cholesky\<close> and \<open>cholesky_update\<close> (of \<open>pgsm.math_utils\<close>, not among the
  sources) are parameters of the model: \<open>chol\<close> and \<open>cu\<close>.
\<close>

definition update_S_chol :: "(mat \<Rightarrow> mat) \<Rightarrow> parameters \<Rightarrow> parameters" where
  "update_S_chol chol p = p\<lparr>S_chol := chol (direct_S p)\<rparr>"

definition MultivariateNormalParameters ::
  "(mat \<Rightarrow> mat) \<Rightarrow> priors \<Rightarrow> sufficient_statistics \<Rightarrow> parameters" where
  "MultivariateNormalParameters chol pri s =
     update_S_chol chol (update_u (update_r (update_nu
       \<lparr>priors = pri, ss = s, nu = 0, r = 0, u = [], S_chol = []\<rparr>)))"

definition log_det_S :: "parameters \<Rightarrow> real" where
  "log_det_S p = 2 * sum_list (map ln (diag (S_chol p)))"

definition params_S :: "parameters \<Rightarrow> mat" where
  "params_S p = dot (S_chol p) (transpose_m (S_chol p))"

definition params_copy :: "parameters \<Rightarrow> parameters" where
  "params_copy p =
     \<lparr>priors = priors p, ss = ss_copy (ss p), nu = nu p, r = r p, u = u p, S_chol = S_chol p\<rparr>"

type_synonym cholesky_update = "mat \<Rightarrow> vec \<Rightarrow> int \<Rightarrow> mat"

definition decrement :: "cholesky_update \<Rightarrow> vec \<Rightarrow> parameters \<Rightarrow> parameters" where
  "decrement cu x p =
     (let p1 = p\<lparr>S_chol := cu (S_chol p) (vscale (sqrt (real_of_int (r p))) (u p)) 1\<rparr>;
          p2 = p1\<lparr>ss := ss_decrement x (ss p1)\<rparr>;
          p3 = update_nu p2;
          p4 = update_r p3;
          p5 = update_u p4;
          p6 = p5\<lparr>S_chol := cu (S_chol p5) x (- 1)\<rparr>
      in p6\<lparr>S_chol := cu (S_chol p6) (vscale (sqrt (real_of_int (r p6))) (u p6)) (- 1)\<rparr>)"

definition increment :: "cholesky_update \<Rightarrow> vec \<Rightarrow> parameters \<Rightarrow> parameters" where
  "increment cu x p =
     (let p1 = p\<lparr>S_chol := cu (S_chol p) (vscale (sqrt (real_of_int (r p))) (u p)) 1\<rparr>;
          p2 = p1\<lparr>ss := ss_increment x (ss p1)\<rparr>;
          p3 = update_nu p2;
          p4 = update_r p3;
          p5 = update_u p4;
          p6 = p5\<lparr>S_chol := cu (S_chol p5) x 1\<rparr>
      in p6\<lparr>S_chol := cu (S_chol p6) (vscale (sqrt (real_of_int (r p6))) (u p6)) (- 1)\<rparr>)"

subsection \<open>MultivariateNormal\<close>

text \<open>
  \<open>log_gamma\<close> of \<open>pgsm.math_utils\<close> is not among the sources; it is the parameter
  \<open>log_gamma\<close> of the model. \<open>d = np.arange(1, D + 1)\<close> is the list \<open>[1..<D + 1]\<close>, and the
  last summand of the source is \<open>np.sum\<close> of a difference of two arrays.
\<close>

definition log_marginal_likelihood :: "(real \<Rightarrow> real) \<Rightarrow> priors \<Rightarrow> parameters \<Rightarrow> real" where
  "log_marginal_likelihood log_gamma pri params =
     (let D = dim pri;
          N = ss_N (ss params);
          d = [1..<D + 1]
      in - 0.5 * real_of_int N * real D * ln pi
         + 0.5 * real D * (ln (real_of_int (prior_r pri)) - ln (real_of_int (r params)))
         + 0.5 * (real_of_int (prior_nu pri) * prior_log_det_S pri
                  - real_of_int (nu params) * log_det_S params)
         + sum_list (vsub
             (map log_gamma (map (\<lambda>k. 0.5 * real_of_int (nu params + 1 - int k)) d))
             (map log_gamma (map (\<lambda>k. 0.5 * real_of_int (prior_nu pri + 1 - int k)) d))))"

text \<open>The closed form as the specification writes it.\<close>

definition spec_log_marginal_likelihood ::
  "(real \<Rightarrow> real) \<Rightarrow> priors \<Rightarrow> parameters \<Rightarrow> real" where
  "spec_log_marginal_likelihood lgamma pri params =
     - (1 / 2) * real_of_int (ss_N (ss params)) * real (dim pri) * ln pi
     + (1 / 2) * real (dim pri) * (ln (real_of_int (prior_r pri)) - ln (real_of_int (r params)))
     + (1 / 2) * (real_of_int (prior_nu pri) * prior_log_det_S pri
                  - real_of_int (nu params) * (2 * (\<Sum>i<length (S_chol params). ln (S_chol params ! i ! i))))
     + (\<Sum>k = 1..dim pri. lgamma ((real_of_int (nu params) + 1 - real k) / 2)
                          - lgamma ((real_of_int (prior_nu pri) + 1 - real k) / 2))"



subsection \<open>The contract of the rank-one update and well-formed posteriors\<close>

text \<open>
  \<open>gram L\<close> is \<open>L L\<^sup>T\<close>, the product that the property \<open>S\<close> of the posterior returns.
  A Cholesky factor is a square lower-triangular matrix with a positive diagonal.
\<close>

definition gram :: "mat \<Rightarrow> mat" where
  "gram L = dot L (transpose_m L)"

definition is_chol :: "nat \<Rightarrow> mat \<Rightarrow> bool" where
  "is_chol d L \<longleftrightarrow>
     is_mat d L \<and> (\<forall>i<d. \<forall>j<d. i < j \<longrightarrow> L ! i ! j = 0) \<and> (\<forall>i<d. 0 < L ! i ! i)"

text \<open>
  The contract of \<open>cholesky_update\<close>, for one call: the result is the Cholesky factor of
  \<open>L L\<^sup>T + s v v\<^sup>T\<close>. A downdate (\<open>s = -1\<close>) can meet it only where that matrix is still
  positive definite, so the contract is assumed call by call, for the calls an update of
  the posterior makes, and never for all arguments at once.
\<close>

definition meets_contract :: "cholesky_update \<Rightarrow> mat \<Rightarrow> vec \<Rightarrow> int \<Rightarrow> bool" where
  "meets_contract cu L v s \<longleftrightarrow>
     is_chol (length v) (cu L v s) \<and>
     gram (cu L v s) = madd (gram L) (mscale (real_of_int s) (outer_product v v))"

definition increment_meets_contract :: "cholesky_update \<Rightarrow> vec \<Rightarrow> parameters \<Rightarrow> bool" where
  "increment_meets_contract cu x p \<longleftrightarrow>
     (let v1 = vscale (sqrt (real_of_int (r p))) (u p);
          L1 = cu (S_chol p) v1 1;
          q = update_u (update_r (update_nu (p\<lparr>ss := ss_increment x (ss p)\<rparr>)));
          L2 = cu L1 x 1;
          v3 = vscale (sqrt (real_of_int (r q))) (u q)
      in meets_contract cu (S_chol p) v1 1 \<and> meets_contract cu L1 x 1 \<and>
         meets_contract cu L2 v3 (- 1))"

definition decrement_meets_contract :: "cholesky_update \<Rightarrow> vec \<Rightarrow> parameters \<Rightarrow> bool" where
  "decrement_meets_contract cu x p \<longleftrightarrow>
     (let v1 = vscale (sqrt (real_of_int (r p))) (u p);
          L1 = cu (S_chol p) v1 1;
          q = update_u (update_r (update_nu (p\<lparr>ss := ss_decrement x (ss p)\<rparr>)));
          L2 = cu L1 x (- 1);
          v3 = vscale (sqrt (real_of_int (r q))) (u q)
      in meets_contract cu (S_chol p) v1 1 \<and> meets_contract cu L1 x (- 1) \<and>
         meets_contract cu L2 v3 (- 1))"

text \<open>
  The arrays of a posterior of dimension \<open>d\<close> have the shapes \<open>d\<close> and \<open>d \<times> d\<close>, and its
  derived fields \<open>nu\<close>, \<open>r\<close>, \<open>u\<close> are what \<open>_update_nu\<close>, \<open>_update_r\<close>, \<open>_update_u\<close>
  compute from its statistics; the constructor establishes both.
\<close>

definition shapes_ok :: "parameters \<Rightarrow> bool" where
  "shapes_ok p \<longleftrightarrow>
     (let d = dim (priors p)
      in is_mat d (prior_S (priors p)) \<and> is_vec d (prior_u (priors p)) \<and>
         is_vec d (ss_X (ss p)) \<and> is_mat d (ss_S (ss p)) \<and>
         is_vec d (u p) \<and> is_mat d (S_chol p))"

definition consistent :: "parameters \<Rightarrow> bool" where
  "consistent p \<longleftrightarrow> update_u (update_r (update_nu p)) = p"

subsection \<open>A posterior in dimension one\<close>

text \<open>
  In dimension one the rank-one update is a square root: the factor of \<open>l\<^sup>2 + s v\<^sup>2\<close>.
  \<open>example_posterior\<close> is the posterior of the single point \<open>2\<close> under the constructor's
  prior: \<open>N = 1\<close>, \<open>X = 2\<close>, \<open>S = 4\<close>, \<open>\<nu> = 4\<close>, \<open>r = 2\<close>, \<open>u = 1\<close> and
  \<open>L\<^sup>2 = 1 + 4 + 0 - 2 \<cdot> 1\<^sup>2 = 3\<close>.
\<close>

definition cholesky_update_1d :: cholesky_update where
  "cholesky_update_1d L v s = [[sqrt ((L ! 0 ! 0)\<^sup>2 + real_of_int s * (v ! 0)\<^sup>2)]]"

definition example_posterior :: parameters where
  "example_posterior =
     \<lparr>priors = MultivariateNormalPriors 1, ss = \<lparr>ss_N = 1, ss_X = [2], ss_S = [[4]]\<rparr>,
      nu = 4, r = 2, u = [1], S_chol = [[sqrt 3]]\<rparr>"


section \<open>Split-merge setup kernels (pgsm/mcmc/split_merge_setup.py)\<close>

subsection \<open>Exceptions\<close>

text \<open>
  \<open>Exception msg\<close> is the exception a kernel raises itself; the others are raised by the
  indexing and sampling operations the kernels call.
\<close>

datatype error = Exception string | IndexError | KeyError | ValueError | AttributeError

subsection \<open>Log scores: floats with special values\<close>

text \<open>
  The kernels compute with log probabilities, where \<open>-\<infinity>\<close> is an ordinary value and an
  undefined result is \<open>nan\<close>. A score is a real number or one of the three special values;
  rounding is not modelled. Comparisons with \<open>nan\<close> are false.
\<close>

datatype xreal = NInf | Fin real | PInf | NaN

fun xadd :: "xreal \<Rightarrow> xreal \<Rightarrow> xreal" where
  "xadd NaN _ = NaN"
| "xadd _ NaN = NaN"
| "xadd NInf PInf = NaN"
| "xadd PInf NInf = NaN"
| "xadd NInf _ = NInf"
| "xadd _ NInf = NInf"
| "xadd PInf _ = PInf"
| "xadd _ PInf = PInf"
| "xadd (Fin a) (Fin b) = Fin (a + b)"

fun xneg :: "xreal \<Rightarrow> xreal" where
  "xneg NInf = PInf"
| "xneg PInf = NInf"
| "xneg (Fin a) = Fin (- a)"
| "xneg NaN = NaN"

definition xsub :: "xreal \<Rightarrow> xreal \<Rightarrow> xreal" where
  "xsub a b = xadd a (xneg b)"

fun xexp :: "xreal \<Rightarrow> xreal" where
  "xexp NInf = Fin 0"
| "xexp (Fin a) = Fin (exp a)"
| "xexp PInf = PInf"
| "xexp NaN = NaN"

text \<open>\<open>np.log\<close> of a real number, and of a score.\<close>

definition np_log :: "real \<Rightarrow> xreal" where
  "np_log a = (if 0 < a then Fin (ln a) else if a = 0 then NInf else NaN)"

fun xlog :: "xreal \<Rightarrow> xreal" where
  "xlog (Fin a) = np_log a"
| "xlog PInf = PInf"
| "xlog NInf = NaN"
| "xlog NaN = NaN"

fun xle :: "xreal \<Rightarrow> xreal \<Rightarrow> bool" where
  "xle NaN _ = False"
| "xle _ NaN = False"
| "xle NInf _ = True"
| "xle _ PInf = True"
| "xle (Fin a) (Fin b) = (a \<le> b)"
| "xle (Fin a) NInf = False"
| "xle PInf _ = False"

definition xlt :: "xreal \<Rightarrow> xreal \<Rightarrow> bool" where
  "xlt a b \<longleftrightarrow> xle a b \<and> a \<noteq> b"

definition xsum :: "xreal list \<Rightarrow> xreal" where
  "xsum xs = foldr xadd xs (Fin 0)"

text \<open>
  Modelled from the spec: \<open>log_sum_exp\<close>, \<open>log_normalize\<close> and \<open>exp_normalize\<close> of
  \<open>pgsm.math_utils\<close> are not among the sources. The specification names them
  "logsumexp", "log-normalize" and "normalize via exponentiate-and-renormalize":
  \<open>log \<Sum> exp x\<^sub>i\<close>, the scores minus that value, and the exponentials of the normalised
  scores (returned with the normaliser).
\<close>

definition log_sum_exp :: "xreal list \<Rightarrow> xreal" where
  "log_sum_exp xs = xlog (xsum (map xexp xs))"

definition log_normalize :: "xreal list \<Rightarrow> xreal list" where
  "log_normalize xs = map (\<lambda>x. xsub x (log_sum_exp xs)) xs"

definition exp_normalize :: "xreal list \<Rightarrow> xreal list \<times> xreal" where
  "exp_normalize xs = (map (\<lambda>x. xexp (xsub x (log_sum_exp xs))) xs, log_sum_exp xs)"

subsection \<open>Array indexing\<close>

text \<open>
  Assignment to \<open>a[c]\<close> for an integer \<open>c\<close>: a negative index counts from the end, and an
  index outside \<open>[-n, n)\<close> raises IndexError (\<open>None\<close> here).
\<close>

definition np_index :: "nat \<Rightarrow> int \<Rightarrow> nat option" where
  "np_index n c =
     (if 0 \<le> c \<and> c < int n then Some (nat c)
      else if - int n \<le> c \<and> c < 0 then Some (nat (c + int n))
      else None)"

definition np_set :: "'a list \<Rightarrow> int \<Rightarrow> 'a \<Rightarrow> 'a list option" where
  "np_set xs c v = (case np_index (length xs) c of None \<Rightarrow> None | Some i \<Rightarrow> Some (xs[i := v]))"

definition np_get :: "'a list \<Rightarrow> int \<Rightarrow> 'a option" where
  "np_get xs c = (case np_index (length xs) c of None \<Rightarrow> None | Some i \<Rightarrow> Some (xs ! i))"

text \<open>\<open>np.unique\<close>: the distinct labels in ascending order.\<close>

definition np_unique :: "int list \<Rightarrow> int list" where
  "np_unique cs = sort (remdups cs)"

text \<open>\<open>np.where(clustering == c)[0]\<close>: the positions that carry the label \<open>c\<close>.\<close>

definition members :: "int list \<Rightarrow> int \<Rightarrow> nat list" where
  "members cs c = filter (\<lambda>i. cs ! i = c) [0..<length cs]"

text \<open>
  Modelled from the spec: \<open>relabel_clustering\<close> of \<open>pgsm.utils\<close> is not among the
  sources. The specification describes it as mapping an arbitrary clustering to a
  contiguous 0-based labelling that preserves group membership; here the labels are
  numbered in the order of their first appearance.
\<close>

fun first_index :: "'a list \<Rightarrow> 'a \<Rightarrow> nat" where
  "first_index [] x = 0"
| "first_index (y # ys) x = (if x = y then 0 else Suc (first_index ys x))"

fun relabel_from :: "int list \<Rightarrow> int list \<Rightarrow> int list" where
  "relabel_from seen [] = []"
| "relabel_from seen (c # cs) =
     (if c \<in> set seen then int (first_index seen c) # relabel_from seen cs
      else int (length seen) # relabel_from (seen @ [c]) cs)"

definition relabel_clustering :: "int list \<Rightarrow> int list" where
  "relabel_clustering cs = relabel_from [] cs"

subsection \<open>Random draws\<close>

text \<open>
  The process-wide generator is an explicit value threaded through every stochastic
  operation: a supply of natural numbers for the discrete draws and of reals for the
  continuous ones, consumed in the order of the calls (an exhausted supply yields 0).
  A draw from a finite pool picks the element at the drawn number modulo the size of the
  pool, so every outcome the generator can produce is the outcome for some supply, and a
  statement proved for all supplies holds for every run.
\<close>

record rng =
  nats :: "nat list"
  reals :: "real list"

definition draw :: "rng \<Rightarrow> nat \<times> rng" where
  "draw g = (case nats g of [] \<Rightarrow> (0, g) | n # ns \<Rightarrow> (n, g\<lparr>nats := ns\<rparr>))"

definition draw_real :: "rng \<Rightarrow> real \<times> rng" where
  "draw_real g = (case reals g of [] \<Rightarrow> (0, g) | x # xs \<Rightarrow> (x, g\<lparr>reals := xs\<rparr>))"

text \<open>\<open>np.random.randint(0, n)\<close> raises ValueError unless \<open>0 < n\<close>.\<close>

definition randint0 :: "nat \<Rightarrow> rng \<Rightarrow> error + (nat \<times> rng)" where
  "randint0 n g = (if n = 0 then Inl ValueError else (let (i, g') = draw g in Inr (i mod n, g')))"

text \<open>\<open>np.random.choice(xs)\<close> for a one-dimensional \<open>xs\<close> raises ValueError when it is empty.\<close>

definition choice :: "'a list \<Rightarrow> rng \<Rightarrow> error + ('a \<times> rng)" where
  "choice xs g =
     (if xs = [] then Inl ValueError else (let (i, g') = draw g in Inr (xs ! (i mod length xs), g')))"

text \<open>\<open>np.random.shuffle\<close>: repeatedly move a drawn element of the rest to the output.\<close>

fun shuffle_aux :: "nat \<Rightarrow> 'a list \<Rightarrow> rng \<Rightarrow> 'a list \<times> rng" where
  "shuffle_aux 0 xs g = ([], g)"
| "shuffle_aux (Suc n) xs g =
     (if xs = [] then ([], g)
      else (let (i, g1) = draw g;
                j = i mod length xs;
                (ys, g2) = shuffle_aux n (take j xs @ drop (Suc j) xs) g1
            in (xs ! j # ys, g2)))"

definition shuffle :: "'a list \<Rightarrow> rng \<Rightarrow> 'a list \<times> rng" where
  "shuffle xs g = shuffle_aux (length xs) xs g"

text \<open>
  \<open>np.random.choice(np.arange(n), replace=False, size=k)\<close>: the first \<open>k\<close> entries of a
  random permutation; ValueError for a negative size or a size above \<open>n\<close>.
\<close>

definition choice_without_replacement :: "nat \<Rightarrow> int \<Rightarrow> rng \<Rightarrow> error + (nat list \<times> rng)" where
  "choice_without_replacement n k g =
     (if k < 0 \<or> int n < k then Inl ValueError
      else (let (perm, g') = shuffle [0..<n] g in Inr (take (nat k) perm, g')))"

text \<open>
  Sampling a label with given probabilities (\<open>np.random.choice(a, p=p)\<close>, and
  \<open>discrete_rvs\<close> over positions): the probabilities must be numbers in \<open>[0, 1]\<close> that
  sum to one, else ValueError; the outcome is one of the labels of positive probability.

  Modelled from the spec: \<open>discrete_rvs\<close> of \<open>pgsm.math_utils\<close> is not among the sources;
  the specification describes it as sampling a destination cluster from a row's
  categorical distribution.
\<close>

fun is_prob :: "xreal \<Rightarrow> bool" where
  "is_prob (Fin a) = (0 \<le> a \<and> a \<le> 1)"
| "is_prob _ = False"

definition choice_p :: "'a list \<Rightarrow> xreal list \<Rightarrow> rng \<Rightarrow> error + ('a \<times> rng)" where
  "choice_p labels p g =
     (if length p = length labels \<and> list_all is_prob p \<and> xsum p = Fin 1
      then choice (map fst (filter (\<lambda>(l, q). xlt (Fin 0) q) (zip labels p))) g
      else Inl ValueError)"

definition discrete_rvs :: "xreal list \<Rightarrow> rng \<Rightarrow> error + (nat \<times> rng)" where
  "discrete_rvs p g = choice_p [0..<length p] p g"

subsection \<open>The collaborators\<close>

text \<open>
  The observation model \<open>dist\<close> and the partition prior are objects the kernel is
  constructed with. The kernels use the methods below of the model and of its
  posteriors (of an arbitrary type \<open>'p\<close>), and \<open>log_tau_2\<close> of the prior. A method call
  on a posterior mutates the object; here it returns the new posterior. The kernels read
  the number of points of a posterior as its attribute \<open>N\<close>: \<open>params_N\<close> is \<open>None\<close> for a
  posterior that has no such attribute, and the read then raises AttributeError.
\<close>

record 'p dist_obj =
  create_params :: "'p"
  create_params_from_data :: "vec list \<Rightarrow> 'p"
  params_N :: "'p \<Rightarrow> int option"
  params_increment :: "vec \<Rightarrow> 'p \<Rightarrow> 'p"
  params_decrement :: "vec \<Rightarrow> 'p \<Rightarrow> 'p"
  log_predictive_likelihood :: "vec \<Rightarrow> 'p \<Rightarrow> xreal"
  log_predictive_likelihood_bulk :: "vec list \<Rightarrow> 'p \<Rightarrow> xreal list"
  dist_log_marginal_likelihood :: "'p \<Rightarrow> xreal"

subsection \<open>SplitMergeSetupKernel\<close>

text \<open>
  The fields of the base class. \<open>num_adaptation_iters\<close> defaults to infinity. The
  subclasses add their fields by record extension.
\<close>

record 'p kernel =
  data :: "vec list"
  dist :: "'p dist_obj"
  log_tau_2 :: "int \<Rightarrow> xreal"
  num_adaptation_iters :: enat
  iter :: nat
  num_data_points :: nat

text \<open>
  The part of \<open>setup_split_merge\<close> after the anchors are proposed: the labels of the
  anchors (IndexError for an anchor that is no position of the clustering), the
  positions carrying one of these labels, each anchor removed once (\<open>list.remove\<close>
  raises ValueError for an element that is not there), the rest shuffled.
\<close>

fun anchor_labels :: "int list \<Rightarrow> nat list \<Rightarrow> error + int list" where
  "anchor_labels clustering [] = Inr []"
| "anchor_labels clustering (a # as) =
     (if a < length clustering
      then (case anchor_labels clustering as of
              Inl e \<Rightarrow> Inl e
            | Inr cs \<Rightarrow> Inr (clustering ! a # cs))
      else Inl IndexError)"

fun remove_each :: "nat list \<Rightarrow> nat list \<Rightarrow> error + nat list" where
  "remove_each [] sigma = Inr sigma"
| "remove_each (x # xs) sigma =
     (if x \<in> set sigma then remove_each xs (remove1 x sigma) else Inl ValueError)"

definition order_of :: "int list \<Rightarrow> nat list \<Rightarrow> rng \<Rightarrow> error + (nat list \<times> rng)" where
  "order_of clustering anchors g =
     (case anchor_labels clustering anchors of
        Inl e \<Rightarrow> Inl e
      | Inr anchor_clusters \<Rightarrow>
          (case remove_each anchors
                  (filter (\<lambda>i. clustering ! i \<in> set anchor_clusters) [0..<length clustering]) of
             Inl e \<Rightarrow> Inl e
           | Inr sigma \<Rightarrow> (let (sigma', g') = shuffle sigma g in Inr (anchors @ sigma', g'))))"

text \<open>
  \<open>setup_split_merge\<close>. The methods \<open>_can_update\<close>, \<open>update\<close> and \<open>_propose_anchors\<close>
  that a subclass supplies are the first three arguments. The result is the returned
  pair or the exception raised, with the kernel and the generator as the call leaves
  them in either case.
\<close>

definition setup_split_merge ::
  "(int list \<Rightarrow> ('p, 'a) kernel_scheme \<Rightarrow> bool \<times> ('p, 'a) kernel_scheme) \<Rightarrow>
   (int list \<Rightarrow> ('p, 'a) kernel_scheme \<Rightarrow> error option \<times> ('p, 'a) kernel_scheme) \<Rightarrow>
   (int \<Rightarrow> ('p, 'a) kernel_scheme \<Rightarrow> rng \<Rightarrow> (error + nat list) \<times> ('p, 'a) kernel_scheme \<times> rng) \<Rightarrow>
   int list \<Rightarrow> int \<Rightarrow> ('p, 'a) kernel_scheme \<Rightarrow> rng \<Rightarrow>
   (error + nat list \<times> nat list) \<times> ('p, 'a) kernel_scheme \<times> rng" where
  "setup_split_merge can_update update propose_anchors clustering num_anchors k g =
     (let k1 = k\<lparr>iter := iter k + 1\<rparr>;
          (b, k2) = can_update clustering k1;
          (e, k3) = (if b then update clustering k2 else (None, k2))
      in case e of
           Some err \<Rightarrow> (Inl err, k3, g)
         | None \<Rightarrow>
             (let num_data_points = int (length clustering);
                  num_anchors' = min num_anchors num_data_points
              in case propose_anchors num_anchors' k3 g of
                   (Inl err, k4, g1) \<Rightarrow> (Inl err, k4, g1)
                 | (Inr anchors, k4, g1) \<Rightarrow>
                     (case order_of clustering anchors g1 of
                        Inl err \<Rightarrow> (Inl err, k4, g1)
                      | Inr (order, g2) \<Rightarrow> (Inr (anchors, order), k4, g2))))"

text \<open>The constructor of the base class and its \<open>update\<close>, which does nothing.\<close>

definition SplitMergeSetupKernel ::
  "vec list \<Rightarrow> 'p dist_obj \<Rightarrow> (int \<Rightarrow> xreal) \<Rightarrow> enat \<Rightarrow> 'p kernel" where
  "SplitMergeSetupKernel dat dst prior iters =
     \<lparr>data = dat, dist = dst, log_tau_2 = prior, num_adaptation_iters = iters, iter = 0,
      num_data_points = length dat\<rparr>"

definition base_update ::
  "int list \<Rightarrow> ('p, 'a) kernel_scheme \<Rightarrow> error option \<times> ('p, 'a) kernel_scheme" where
  "base_update clustering k = (None, k)"

text \<open>
  A pair of distinct positions drawn uniformly: the fallback
  \<open>np.random.choice(np.arange(self.num_data_points), replace=False, size=2)\<close> of the
  informed kernels, and with any size the proposal of the uniform kernel.
\<close>

definition uniform_anchors ::
  "int \<Rightarrow> ('p, 'a) kernel_scheme \<Rightarrow> rng \<Rightarrow> (error + nat list) \<times> ('p, 'a) kernel_scheme \<times> rng" where
  "uniform_anchors sz k g =
     (case choice_without_replacement (num_data_points k) sz g of
        Inl e \<Rightarrow> (Inl e, k, g)
      | Inr (anchors, g') \<Rightarrow> (Inr anchors, k, g'))"

subsection \<open>UniformSplitMergeSetupKernel\<close>

definition uniform_can_update ::
  "int list \<Rightarrow> ('p, 'a) kernel_scheme \<Rightarrow> bool \<times> ('p, 'a) kernel_scheme" where
  "uniform_can_update clustering k = (False, k)"

definition uniform_propose_anchors ::
  "int \<Rightarrow> ('p, 'a) kernel_scheme \<Rightarrow> rng \<Rightarrow> (error + nat list) \<times> ('p, 'a) kernel_scheme \<times> rng" where
  "uniform_propose_anchors num_anchors k g = uniform_anchors num_anchors k g"

definition uniform_setup_split_merge ::
  "int list \<Rightarrow> int \<Rightarrow> 'p kernel \<Rightarrow> rng \<Rightarrow> (error + nat list \<times> nat list) \<times> 'p kernel \<times> rng" where
  "uniform_setup_split_merge =
     setup_split_merge uniform_can_update base_update uniform_propose_anchors"

subsection \<open>The adaptive kernels\<close>

text \<open>
  The threshold-informed, CRP-informed and cluster-informed kernels each keep
  \<open>max_clusters_seen\<close> and define the same \<open>_can_update\<close>, word for word; it is modelled
  once, on the fields they share.
\<close>

record 'p adaptive_kernel = "'p kernel" +
  max_clusters_seen :: nat

definition adaptive_can_update ::
  "int list \<Rightarrow> ('p, 'a) adaptive_kernel_scheme \<Rightarrow> bool \<times> ('p, 'a) adaptive_kernel_scheme" where
  "adaptive_can_update clustering k =
     (let num_clusters = length (np_unique clustering)
      in if num_clusters > max_clusters_seen k \<and> enat (iter k) \<le> num_adaptation_iters k
         then (True, k\<lparr>max_clusters_seen := num_clusters\<rparr>)
         else (False, k))"

text \<open>
  The cluster parameter store that \<open>update\<close> of the threshold-informed and of the
  CRP-informed kernel builds (the two methods are the same, word for word): the posterior
  and the member positions of every label, the per-anchor cache, and the relabelled
  clustering. The attributes do not exist before the first \<open>update\<close>. Dictionaries keep
  their keys in the order of insertion.
\<close>

record ('p, 'd) store =
  cluster_params :: "(int \<times> 'p) list"
  clusters_to_data :: "(int \<times> nat list) list"
  data_to_clusters :: "nat \<rightharpoonup> 'd"
  clustering :: "int list"

record ('p, 'd) store_kernel = "'p adaptive_kernel" +
  store :: "('p, 'd) store option"

definition informed_update ::
  "int list \<Rightarrow> ('p, 'd, 'a) store_kernel_scheme \<Rightarrow> error option \<times> ('p, 'd, 'a) store_kernel_scheme" where
  "informed_update cs k =
     (let st = \<lparr>cluster_params = [], clusters_to_data = [], data_to_clusters = Map.empty,
                clustering = relabel_clustering cs\<rparr>
      in if np_unique cs = [] \<or> length cs = length (data k)
         then (None, k\<lparr>store := Some (st
                \<lparr>cluster_params :=
                   map (\<lambda>c. (c, foldl (\<lambda>p x. params_increment (dist k) x p) (create_params (dist k))
                                  (map (\<lambda>i. data k ! i) (members cs c))))
                       (np_unique cs),
                 clusters_to_data := map (\<lambda>c. (c, members cs c)) (np_unique cs)\<rparr>)\<rparr>)
         else (Some IndexError, k\<lparr>store := Some st\<rparr>))"

subsection \<open>ThresholdInformedSplitMergeSetupKernel\<close>

record 'p threshold_kernel = "('p, nat list) store_kernel" +
  threshold :: real

definition ThresholdInformedSplitMergeSetupKernel ::
  "vec list \<Rightarrow> 'p dist_obj \<Rightarrow> (int \<Rightarrow> xreal) \<Rightarrow> enat \<Rightarrow> real \<Rightarrow> 'p threshold_kernel" where
  "ThresholdInformedSplitMergeSetupKernel dat dst prior iters thr =
     \<lparr>data = dat, dist = dst, log_tau_2 = prior, num_adaptation_iters = iters, iter = 0,
      num_data_points = length dat, max_clusters_seen = 0, store = None, threshold = thr\<rparr>"

text \<open>
  The loop of \<open>_set_data_to_clusters\<close> over the items of \<open>cluster_params\<close>. It returns the
  exception that stopped it, if any, the posteriors as it leaves them and the scores.
\<close>

fun threshold_scores ::
  "'p dist_obj \<Rightarrow> (int \<Rightarrow> xreal) \<Rightarrow> vec \<Rightarrow> int \<Rightarrow> (int \<times> 'p) list \<Rightarrow> xreal list \<Rightarrow>
   error option \<times> (int \<times> 'p) list \<times> xreal list" where
  "threshold_scores dst prior data_point cluster [] log_p = (None, [], log_p)"
| "threshold_scores dst prior data_point cluster ((c, block_params) # rest) log_p =
     (let bp1 = (if c = cluster then params_decrement dst data_point block_params
                 else block_params)
      in case params_N dst bp1 of
           None \<Rightarrow> (Some AttributeError, (c, bp1) # rest, log_p)
         | Some n \<Rightarrow>
             (let score = (if n = 0 then NInf
                           else xadd (prior n) (log_predictive_likelihood dst data_point bp1))
              in case np_set log_p c score of
                   None \<Rightarrow> (Some IndexError, (c, bp1) # rest, log_p)
                 | Some log_p1 \<Rightarrow>
                     (let bp2 = (if c = cluster then params_increment dst data_point bp1
                                 else bp1);
                          (e, rest', log_p2) =
                            threshold_scores dst prior data_point cluster rest log_p1
                      in (e, (c, bp2) # rest', log_p2))))"

definition threshold_set_data_to_clusters ::
  "nat \<Rightarrow> ('p, 'a) threshold_kernel_scheme \<Rightarrow> error option \<times> ('p, 'a) threshold_kernel_scheme" where
  "threshold_set_data_to_clusters data_idx k =
     (case store k of
        None \<Rightarrow> (Some AttributeError, k)
      | Some st \<Rightarrow>
          if data_idx < length (data k) \<and> data_idx < length (clustering st)
          then (let data_point = data k ! data_idx;
                    num_clusters = length (cluster_params st);
                    log_p = replicate num_clusters (Fin 0);
                    cluster = clustering st ! data_idx;
                    (e, params', log_p1) =
                      threshold_scores (dist k) (log_tau_2 k) data_point cluster
                        (cluster_params st) log_p;
                    st1 = st\<lparr>cluster_params := params'\<rparr>
                in case e of
                     Some err \<Rightarrow> (Some err, k\<lparr>store := Some st1\<rparr>)
                   | None \<Rightarrow>
                       (let log_p2 = log_normalize log_p1;
                            kept = filter (\<lambda>c. xle (np_log (threshold k)) (log_p2 ! c))
                                     [0..<length log_p2]
                        in (None, k\<lparr>store := Some (st1\<lparr>data_to_clusters :=
                                     (data_to_clusters st1)(data_idx \<mapsto> kept)\<rparr>)\<rparr>)))
          else (Some IndexError, k))"

text \<open>The part of \<open>_propose_anchors\<close> after the anchor has been scored.\<close>

definition threshold_pick ::
  "nat \<Rightarrow> ('p, 'a) threshold_kernel_scheme \<Rightarrow> rng \<Rightarrow>
   (error + nat list) \<times> ('p, 'a) threshold_kernel_scheme \<times> rng" where
  "threshold_pick anchor_1 k g =
     (case store k of
        None \<Rightarrow> (Inl AttributeError, k, g)
      | Some st \<Rightarrow>
          (case data_to_clusters st anchor_1 of
             None \<Rightarrow> (Inl KeyError, k, g)
           | Some kept \<Rightarrow>
               if kept = [] then uniform_anchors 2 k g
               else (case choice kept g of
                       Inl e \<Rightarrow> (Inl e, k, g)
                     | Inr (cluster, g1) \<Rightarrow>
                         (case map_of (clusters_to_data st) (int cluster) of
                            None \<Rightarrow> (Inl KeyError, k, g1)
                          | Some ms \<Rightarrow>
                              (let cluster_members = removeAll anchor_1 (remdups ms)
                               in if cluster_members = [] then uniform_anchors 2 k g1
                                  else (case choice cluster_members g1 of
                                          Inl e \<Rightarrow> (Inl e, k, g1)
                                        | Inr (anchor_2, g2) \<Rightarrow>
                                            (Inr [anchor_1, anchor_2], k, g2)))))))"

definition threshold_propose_anchors ::
  "int \<Rightarrow> ('p, 'a) threshold_kernel_scheme \<Rightarrow> rng \<Rightarrow>
   (error + nat list) \<times> ('p, 'a) threshold_kernel_scheme \<times> rng" where
  "threshold_propose_anchors num_anchors k g =
     (if num_anchors \<noteq> 2
      then (Inl (Exception ''ThresholdInformedSplitMergeSetupKernel only works for 2 anchors''),
            k, g)
      else (case randint0 (num_data_points k) g of
              Inl e \<Rightarrow> (Inl e, k, g)
            | Inr (anchor_1, g1) \<Rightarrow>
                (case store k of
                   None \<Rightarrow> (Inl AttributeError, k, g1)
                 | Some st \<Rightarrow>
                     (case data_to_clusters st anchor_1 of
                        Some kept \<Rightarrow> threshold_pick anchor_1 k g1
                      | None \<Rightarrow>
                          (case threshold_set_data_to_clusters anchor_1 k of
                             (Some err, k1) \<Rightarrow> (Inl err, k1, g1)
                           | (None, k1) \<Rightarrow> threshold_pick anchor_1 k1 g1)))))"

definition threshold_setup_split_merge ::
  "int list \<Rightarrow> int \<Rightarrow> 'p threshold_kernel \<Rightarrow> rng \<Rightarrow>
   (error + nat list \<times> nat list) \<times> 'p threshold_kernel \<times> rng" where
  "threshold_setup_split_merge =
     setup_split_merge adaptive_can_update informed_update threshold_propose_anchors"

subsection \<open>CRPInformedSplitMergeSetupKernel\<close>

text \<open>
  The kernel adds no field to the store it shares with the threshold-informed kernel;
  its cache maps an anchor to the dictionary from labels to probabilities.
\<close>

type_synonym 'p crp_kernel = "('p, (int \<times> xreal) list) store_kernel"

definition CRPInformedSplitMergeSetupKernel ::
  "vec list \<Rightarrow> 'p dist_obj \<Rightarrow> (int \<Rightarrow> xreal) \<Rightarrow> enat \<Rightarrow> 'p crp_kernel" where
  "CRPInformedSplitMergeSetupKernel dat dst prior iters =
     \<lparr>data = dat, dist = dst, log_tau_2 = prior, num_adaptation_iters = iters, iter = 0,
      num_data_points = length dat, max_clusters_seen = 0, store = None\<rparr>"

text \<open>The loop of \<open>_set_data_to_clusters\<close>: the scores of the clusters other than the anchor's.\<close>

fun crp_scores ::
  "'p dist_obj \<Rightarrow> (int \<Rightarrow> xreal) \<Rightarrow> vec \<Rightarrow> int \<Rightarrow> (int \<times> 'p) list \<Rightarrow> xreal list \<Rightarrow>
   error + xreal list" where
  "crp_scores dst prior data_point cluster [] log_p = Inr log_p"
| "crp_scores dst prior data_point cluster ((c, block_params) # rest) log_p =
     (if c = cluster then crp_scores dst prior data_point cluster rest log_p
      else (case params_N dst block_params of
              None \<Rightarrow> Inl AttributeError
            | Some n \<Rightarrow>
                (case np_set log_p c
                        (xadd (prior n) (log_predictive_likelihood dst data_point block_params)) of
                   None \<Rightarrow> Inl IndexError
                 | Some log_p1 \<Rightarrow> crp_scores dst prior data_point cluster rest log_p1)))"

text \<open>
  The scores of all clusters, the anchor's own included, before they are normalised:
  the array \<open>log_p\<close> at the call of \<open>exp_normalize\<close>.
\<close>

definition crp_log_p ::
  "'p dist_obj \<Rightarrow> (int \<Rightarrow> xreal) \<Rightarrow> vec \<Rightarrow> int \<Rightarrow> (int \<times> 'p) list \<Rightarrow> error + xreal list" where
  "crp_log_p dst prior data_point cluster params =
     (let num_clusters = length params;
          log_p = replicate num_clusters (Fin 0)
      in case crp_scores dst prior data_point cluster params log_p of
           Inl e \<Rightarrow> Inl e
         | Inr log_p1 \<Rightarrow>
             (case map_of params cluster of
                None \<Rightarrow> Inl KeyError
              | Some own \<Rightarrow>
                  (case params_N dst own of
                     None \<Rightarrow> Inl AttributeError
                   | Some n \<Rightarrow>
                       if n = 1
                       then (case np_set log_p1 cluster NInf of
                               None \<Rightarrow> Inl IndexError
                             | Some log_p2 \<Rightarrow> Inr log_p2)
                       else (case np_set log_p1 cluster (log_sum_exp log_p1) of
                               None \<Rightarrow> Inl IndexError
                             | Some log_p2 \<Rightarrow>
                                 if num_clusters > 1
                                 then (case np_get log_p2 cluster of
                                         None \<Rightarrow> Inl IndexError
                                       | Some v \<Rightarrow>
                                           (case np_set log_p2 cluster
                                                   (xsub v (np_log (real num_clusters - 1))) of
                                              None \<Rightarrow> Inl IndexError
                                            | Some log_p3 \<Rightarrow> Inr log_p3))
                                 else Inr log_p2))))"

definition crp_set_data_to_clusters ::
  "nat \<Rightarrow> ('p, (int \<times> xreal) list, 'a) store_kernel_scheme \<Rightarrow>
   error option \<times> ('p, (int \<times> xreal) list, 'a) store_kernel_scheme" where
  "crp_set_data_to_clusters data_idx k =
     (case store k of
        None \<Rightarrow> (Some AttributeError, k)
      | Some st \<Rightarrow>
          if data_idx < length (data k) \<and> data_idx < length (clustering st)
          then (case crp_log_p (dist k) (log_tau_2 k) (data k ! data_idx)
                       (clustering st ! data_idx) (cluster_params st) of
                  Inl e \<Rightarrow> (Some e, k)
                | Inr log_p \<Rightarrow>
                    (let (p, log_norm) = exp_normalize log_p
                     in (None, k\<lparr>store := Some (st\<lparr>data_to_clusters :=
                           (data_to_clusters st)(data_idx \<mapsto> zip (map fst (cluster_params st)) p)\<rparr>)\<rparr>)))
          else (Some IndexError, k))"

definition crp_pick ::
  "nat \<Rightarrow> ('p, (int \<times> xreal) list, 'a) store_kernel_scheme \<Rightarrow> rng \<Rightarrow>
   (error + nat list) \<times> ('p, (int \<times> xreal) list, 'a) store_kernel_scheme \<times> rng" where
  "crp_pick anchor_1 k g =
     (case store k of
        None \<Rightarrow> (Inl AttributeError, k, g)
      | Some st \<Rightarrow>
          (case data_to_clusters st anchor_1 of
             None \<Rightarrow> (Inl KeyError, k, g)
           | Some d \<Rightarrow>
               (case choice_p (map fst d) (map snd d) g of
                  Inl e \<Rightarrow> (Inl e, k, g)
                | Inr (cluster, g1) \<Rightarrow>
                    (case map_of (clusters_to_data st) cluster of
                       None \<Rightarrow> (Inl KeyError, k, g1)
                     | Some ms \<Rightarrow>
                         (case choice (removeAll anchor_1 (remdups ms)) g1 of
                            Inl e \<Rightarrow> (Inl e, k, g1)
                          | Inr (anchor_2, g2) \<Rightarrow> (Inr [anchor_1, anchor_2], k, g2))))))"

definition crp_propose_anchors ::
  "int \<Rightarrow> ('p, (int \<times> xreal) list, 'a) store_kernel_scheme \<Rightarrow> rng \<Rightarrow>
   (error + nat list) \<times> ('p, (int \<times> xreal) list, 'a) store_kernel_scheme \<times> rng" where
  "crp_propose_anchors num_anchors k g =
     (if num_anchors \<noteq> 2
      then (Inl (Exception ''CRPInformedSplitMergeSetupKernel only works for 2 anchors''), k, g)
      else (case randint0 (num_data_points k) g of
              Inl e \<Rightarrow> (Inl e, k, g)
            | Inr (anchor_1, g1) \<Rightarrow>
                (case store k of
                   None \<Rightarrow> (Inl AttributeError, k, g1)
                 | Some st \<Rightarrow>
                     (case data_to_clusters st anchor_1 of
                        Some d \<Rightarrow> crp_pick anchor_1 k g1
                      | None \<Rightarrow>
                          (case crp_set_data_to_clusters anchor_1 k of
                             (Some err, k1) \<Rightarrow> (Inl err, k1, g1)
                           | (None, k1) \<Rightarrow> crp_pick anchor_1 k1 g1)))))"

definition crp_setup_split_merge ::
  "int list \<Rightarrow> int \<Rightarrow> 'p crp_kernel \<Rightarrow> rng \<Rightarrow>
   (error + nat list \<times> nat list) \<times> 'p crp_kernel \<times> rng" where
  "crp_setup_split_merge =
     setup_split_merge adaptive_can_update informed_update crp_propose_anchors"

subsection \<open>ClusterInformedSplitMergeSetupKernel\<close>

record cluster_store =
  cluster_probs :: "xreal list list"
  ci_clusters_to_data :: "(int \<times> nat list) list"
  ci_data_to_clusters :: "nat \<rightharpoonup> int"

record 'p cluster_kernel = "'p adaptive_kernel" +
  use_prior_weight :: bool
  ci_store :: "cluster_store option"

definition ClusterInformedSplitMergeSetupKernel ::
  "vec list \<Rightarrow> 'p dist_obj \<Rightarrow> (int \<Rightarrow> xreal) \<Rightarrow> enat \<Rightarrow> bool \<Rightarrow> 'p cluster_kernel" where
  "ClusterInformedSplitMergeSetupKernel dat dst prior iters w =
     \<lparr>data = dat, dist = dst, log_tau_2 = prior, num_adaptation_iters = iters, iter = 0,
      num_data_points = length dat, max_clusters_seen = 0, use_prior_weight = w,
      ci_store = None\<rparr>"

text \<open>
  The log marginal likelihood of the points at the given positions taken as one cluster,
  with the prior weight of its size when \<open>use_prior_weight\<close> is set: \<open>margs[c]\<close> for the
  members of a cluster, \<open>merge_marg\<close> for the members of two.
\<close>

definition cluster_marg :: "('p, 'a) cluster_kernel_scheme \<Rightarrow> nat list \<Rightarrow> error + xreal" where
  "cluster_marg k positions =
     (let cluster_params = create_params_from_data (dist k) (map (\<lambda>i. data k ! i) positions);
          marg = dist_log_marginal_likelihood (dist k) cluster_params
      in if use_prior_weight k
         then (case params_N (dist k) cluster_params of
                 None \<Rightarrow> Inl AttributeError
               | Some n \<Rightarrow> Inr (xadd marg (log_tau_2 k n)))
         else Inr marg)"

text \<open>
  The first loop of \<open>update\<close>: the score of every cluster, its members, and the label of
  each of its members. It returns the dictionary \<open>margs\<close> and the store as the loop leaves
  them, also when it stops at an exception.
\<close>

fun cluster_margs ::
  "(nat list \<Rightarrow> error + xreal) \<Rightarrow> int list \<Rightarrow> int list \<Rightarrow> (int \<rightharpoonup> xreal) \<Rightarrow> cluster_store \<Rightarrow>
   error option \<times> (int \<rightharpoonup> xreal) \<times> cluster_store" where
  "cluster_margs marg cs [] margs st = (None, margs, st)"
| "cluster_margs marg cs (c # rest) margs st =
     (case marg (members cs c) of
        Inl e \<Rightarrow> (Some e, margs, st)
      | Inr m \<Rightarrow>
          cluster_margs marg cs rest (margs(c \<mapsto> m))
            (st\<lparr>ci_clusters_to_data := ci_clusters_to_data st @ [(c, members cs c)],
                ci_data_to_clusters :=
                  (\<lambda>i. if i \<in> set (members cs c) then Some c else ci_data_to_clusters st i)\<rparr>))"

text \<open>The inner loop of the second part: the merge scores of one source cluster \<open>c_i\<close>.\<close>

fun cluster_row ::
  "(nat list \<Rightarrow> error + xreal) \<Rightarrow> (int \<rightharpoonup> xreal) \<Rightarrow> int list \<Rightarrow> int \<Rightarrow> int list \<Rightarrow> xreal list \<Rightarrow>
   error + xreal list" where
  "cluster_row marg margs cs c_i [] log_p = Inr log_p"
| "cluster_row marg margs cs c_i (c_j # rest) log_p =
     (if c_i = c_j then cluster_row marg margs cs c_i rest log_p
      else (case marg (filter (\<lambda>i. cs ! i = c_i \<or> cs ! i = c_j) [0..<length cs]) of
              Inl e \<Rightarrow> Inl e
            | Inr merge_marg \<Rightarrow>
                (case margs c_i of
                   None \<Rightarrow> Inl KeyError
                 | Some m_i \<Rightarrow>
                     (case margs c_j of
                        None \<Rightarrow> Inl KeyError
                      | Some m_j \<Rightarrow>
                          (case np_set log_p c_j (xsub merge_marg (xadd m_i m_j)) of
                             None \<Rightarrow> Inl IndexError
                           | Some log_p1 \<Rightarrow> cluster_row marg margs cs c_i rest log_p1)))))"

text \<open>The outer loop: the rows of \<open>cluster_probs\<close>, one per source cluster.\<close>

fun cluster_rows ::
  "(nat list \<Rightarrow> error + xreal) \<Rightarrow> (int \<rightharpoonup> xreal) \<Rightarrow> int list \<Rightarrow> int list \<Rightarrow> int list \<Rightarrow>
   xreal list list \<Rightarrow> error option \<times> xreal list list" where
  "cluster_rows marg margs cs clusters [] probs = (None, probs)"
| "cluster_rows marg margs cs clusters (c_i # rest) probs =
     (let num_clusters = length clusters
      in case cluster_row marg margs cs c_i clusters (replicate num_clusters NInf) of
           Inl e \<Rightarrow> (Some e, probs)
         | Inr log_p \<Rightarrow>
             (case np_set log_p c_i
                     (if num_clusters = 1 then Fin 0
                      else xadd (xneg (np_log (real num_clusters - 1))) (log_sum_exp log_p)) of
                None \<Rightarrow> (Some IndexError, probs)
              | Some log_p1 \<Rightarrow>
                  (case np_set probs c_i (fst (exp_normalize log_p1)) of
                     None \<Rightarrow> (Some IndexError, probs)
                   | Some probs1 \<Rightarrow> cluster_rows marg margs cs clusters rest probs1)))"

text \<open>
  \<open>update\<close>. The three attributes are assigned anew before the loops, so a call that
  raises leaves the store as far as it has been filled. Indexing the data with a mask of
  another length raises IndexError in the first round of the first loop.
\<close>

definition cluster_update ::
  "int list \<Rightarrow> ('p, 'a) cluster_kernel_scheme \<Rightarrow> error option \<times> ('p, 'a) cluster_kernel_scheme" where
  "cluster_update cs0 k =
     (let cs = relabel_clustering cs0;
          clusters = np_unique cs;
          num_clusters = length clusters;
          st = \<lparr>cluster_probs = replicate num_clusters (replicate num_clusters (Fin 0)),
                ci_clusters_to_data = [], ci_data_to_clusters = Map.empty\<rparr>
      in if clusters = [] \<or> length cs = length (data k)
         then (case cluster_margs (cluster_marg k) cs clusters Map.empty st of
                 (Some e, margs, st1) \<Rightarrow> (Some e, k\<lparr>ci_store := Some st1\<rparr>)
               | (None, margs, st1) \<Rightarrow>
                   (let (e, probs) = cluster_rows (cluster_marg k) margs cs clusters clusters
                                       (cluster_probs st1)
                    in (e, k\<lparr>ci_store := Some (st1\<lparr>cluster_probs := probs\<rparr>)\<rparr>)))
         else (Some IndexError, k\<lparr>ci_store := Some st\<rparr>))"

definition cluster_propose_anchors ::
  "int \<Rightarrow> ('p, 'a) cluster_kernel_scheme \<Rightarrow> rng \<Rightarrow>
   (error + nat list) \<times> ('p, 'a) cluster_kernel_scheme \<times> rng" where
  "cluster_propose_anchors num_anchors k g =
     (if num_anchors \<noteq> 2
      then (Inl (Exception ''ClusterInformedSplitMergeSetupKernel only works for 2 anchors''),
            k, g)
      else (case randint0 (num_data_points k) g of
              Inl e \<Rightarrow> (Inl e, k, g)
            | Inr (anchor_1, g1) \<Rightarrow>
                (case ci_store k of
                   None \<Rightarrow> (Inl AttributeError, k, g1)
                 | Some st \<Rightarrow>
                     (case ci_data_to_clusters st anchor_1 of
                        None \<Rightarrow> (Inl KeyError, k, g1)
                      | Some cluster_1 \<Rightarrow>
                          (case np_get (cluster_probs st) cluster_1 of
                             None \<Rightarrow> (Inl IndexError, k, g1)
                           | Some row \<Rightarrow>
                               (case discrete_rvs row g1 of
                                  Inl e \<Rightarrow> (Inl e, k, g1)
                                | Inr (cluster_2, g2) \<Rightarrow>
                                    (case map_of (ci_clusters_to_data st) (int cluster_2) of
                                       None \<Rightarrow> (Inl KeyError, k, g2)
                                     | Some ms \<Rightarrow>
                                         (let cluster_members = removeAll anchor_1 (remdups ms)
                                          in if cluster_members = [] then uniform_anchors 2 k g2
                                             else (case choice cluster_members g2 of
                                                     Inl e \<Rightarrow> (Inl e, k, g2)
                                                   | Inr (anchor_2, g3) \<Rightarrow>
                                                       (Inr [anchor_1, anchor_2], k, g3))))))))))"

definition cluster_setup_split_merge ::
  "int list \<Rightarrow> int \<Rightarrow> 'p cluster_kernel \<Rightarrow> rng \<Rightarrow>
   (error + nat list \<times> nat list) \<times> 'p cluster_kernel \<times> rng" where
  "cluster_setup_split_merge =
     setup_split_merge adaptive_can_update cluster_update cluster_propose_anchors"

subsection \<open>PointInformedSplitMergeSetupKernel\<close>

record 'p point_kernel = "'p kernel" +
  pi_data_to_clusters :: "nat \<rightharpoonup> xreal list"
  log_seperate_margs :: "xreal list"

definition PointInformedSplitMergeSetupKernel ::
  "vec list \<Rightarrow> 'p dist_obj \<Rightarrow> (int \<Rightarrow> xreal) \<Rightarrow> enat \<Rightarrow> 'p point_kernel" where
  "PointInformedSplitMergeSetupKernel dat dst prior iters =
     \<lparr>data = dat, dist = dst, log_tau_2 = prior, num_adaptation_iters = iters, iter = 0,
      num_data_points = length dat, pi_data_to_clusters = Map.empty,
      log_seperate_margs = log_predictive_likelihood_bulk dst dat (create_params dst)\<rparr>"

definition point_can_update ::
  "int list \<Rightarrow> ('p, 'a) point_kernel_scheme \<Rightarrow> bool \<times> ('p, 'a) point_kernel_scheme" where
  "point_can_update cs k = (False, k)"

definition point_update ::
  "int list \<Rightarrow> ('p, 'a) point_kernel_scheme \<Rightarrow> error option \<times> ('p, 'a) point_kernel_scheme" where
  "point_update cs k = (None, k)"

text \<open>The loop of \<open>_set_data_to_clusters\<close> over \<open>j\<close>, filling the row of the anchor \<open>i\<close>.\<close>

fun point_fill ::
  "xreal list \<Rightarrow> xreal list \<Rightarrow> nat \<Rightarrow> nat list \<Rightarrow> xreal list \<Rightarrow> error option \<times> xreal list" where
  "point_fill log_pairwise_margs seperate i [] row = (None, row)"
| "point_fill log_pairwise_margs seperate i (j # js) row =
     (if j < length log_pairwise_margs \<and> i < length seperate \<and> j < length seperate
      then point_fill log_pairwise_margs seperate i js
             (row[j := xsub (log_pairwise_margs ! j) (xadd (seperate ! i) (seperate ! j))])
      else (Some IndexError, row))"

definition point_set_data_to_clusters ::
  "nat \<Rightarrow> ('p, 'a) point_kernel_scheme \<Rightarrow> error option \<times> ('p, 'a) point_kernel_scheme" where
  "point_set_data_to_clusters i k =
     (let row0 = replicate (num_data_points k) (Fin 0);
          k0 = k\<lparr>pi_data_to_clusters := (pi_data_to_clusters k)(i \<mapsto> row0)\<rparr>
      in if i < length (data k)
         then (let params = create_params_from_data (dist k) [data k ! i];
                   log_pairwise_margs = log_predictive_likelihood_bulk (dist k) (data k) params;
                   (e, row) = point_fill log_pairwise_margs (log_seperate_margs k) i
                                [0..<num_data_points k] row0
               in (e, k\<lparr>pi_data_to_clusters := (pi_data_to_clusters k)(i \<mapsto> row)\<rparr>))
         else (Some IndexError, k0))"

text \<open>
  The two masked assignments of \<open>_propose_anchors\<close>, in the order of the source. The
  second mask is evaluated on the array as the first assignment has left it.
  \<open>np.percentile\<close> is the parameter \<open>percentile\<close>.
\<close>

definition point_mask ::
  "(xreal list \<Rightarrow> real \<Rightarrow> xreal) \<Rightarrow> real \<Rightarrow> real \<Rightarrow> xreal list \<Rightarrow> xreal list" where
  "point_mask percentile u' alpha log_p_anchor =
     (if u' \<le> 0.5
      then (let x = percentile log_p_anchor alpha;
                a1 = map (\<lambda>e. if xlt x e then NInf else e) log_p_anchor
            in map (\<lambda>e. if xle e x then Fin 0 else e) a1)
      else (let x = percentile log_p_anchor (100 - alpha);
                a1 = map (\<lambda>e. if xlt x e then Fin 0 else e) log_p_anchor
            in map (\<lambda>e. if xle e x then NInf else e) a1))"

definition xmax :: "xreal \<Rightarrow> xreal \<Rightarrow> xreal" where
  "xmax a b = (if a = NaN \<or> b = NaN then NaN else if xle a b then b else a)"

definition np_max :: "xreal list \<Rightarrow> xreal" where
  "np_max xs = foldr xmax xs NInf"

text \<open>
  The candidate pool of the second anchor: the positions that the masks and the exclusion
  of the first anchor have left different from \<open>-\<infinity>\<close>.
\<close>

definition point_pool :: "xreal list \<Rightarrow> nat list" where
  "point_pool log_p_anchor = filter (\<lambda>j. log_p_anchor ! j \<noteq> NInf) [0..<length log_p_anchor]"

definition point_pick ::
  "(xreal list \<Rightarrow> real \<Rightarrow> xreal) \<Rightarrow> nat \<Rightarrow> xreal list \<Rightarrow> ('p, 'a) point_kernel_scheme \<Rightarrow> rng \<Rightarrow>
   (error + nat list) \<times> ('p, 'a) point_kernel_scheme \<times> rng" where
  "point_pick percentile anchor_1 row k g =
     (let (u', g1) = draw_real g;
          (beta, g2) = draw_real g1;
          alpha = beta * 100
      in case np_set (point_mask percentile u' alpha row) (int anchor_1) NInf of
           None \<Rightarrow> (Inl IndexError, k, g2)
         | Some log_p_anchor \<Rightarrow>
             if np_max log_p_anchor = NInf
             then (if anchor_1 < num_data_points k
                   then (case choice (remove1 anchor_1 [0..<num_data_points k]) g2 of
                           Inl e \<Rightarrow> (Inl e, k, g2)
                         | Inr (anchor_2, g3) \<Rightarrow> (Inr [anchor_1, anchor_2], k, g3))
                   else (Inl ValueError, k, g2))
             else (case choice (point_pool log_p_anchor) g2 of
                     Inl e \<Rightarrow> (Inl e, k, g2)
                   | Inr (anchor_2, g3) \<Rightarrow> (Inr [anchor_1, anchor_2], k, g3)))"

definition point_propose_anchors ::
  "(xreal list \<Rightarrow> real \<Rightarrow> xreal) \<Rightarrow> int \<Rightarrow> ('p, 'a) point_kernel_scheme \<Rightarrow> rng \<Rightarrow>
   (error + nat list) \<times> ('p, 'a) point_kernel_scheme \<times> rng" where
  "point_propose_anchors percentile num_anchors k g =
     (if num_anchors \<noteq> 2
      then (Inl (Exception ''PointInformedSplitMergeSetupKernel only works for 2 anchors''), k, g)
      else (case randint0 (num_data_points k) g of
              Inl e \<Rightarrow> (Inl e, k, g)
            | Inr (anchor_1, g1) \<Rightarrow>
                (case pi_data_to_clusters k anchor_1 of
                   Some row \<Rightarrow> point_pick percentile anchor_1 row k g1
                 | None \<Rightarrow>
                     (case point_set_data_to_clusters anchor_1 k of
                        (Some err, k1) \<Rightarrow> (Inl err, k1, g1)
                      | (None, k1) \<Rightarrow>
                          (case pi_data_to_clusters k1 anchor_1 of
                             None \<Rightarrow> (Inl KeyError, k1, g1)
                           | Some row \<Rightarrow> point_pick percentile anchor_1 row k1 g1)))))"

definition point_setup_split_merge ::
  "(xreal list \<Rightarrow> real \<Rightarrow> xreal) \<Rightarrow> int list \<Rightarrow> int \<Rightarrow> 'p point_kernel \<Rightarrow> rng \<Rightarrow>
   (error + nat list \<times> nat list) \<times> 'p point_kernel \<times> rng" where
  "point_setup_split_merge percentile =
     setup_split_merge point_can_update point_update (point_propose_anchors percentile)"

subsection \<open>Example collaborators and data\<close>

text \<open>
  \<open>flat_model\<close> is an observation model whose likelihood is constant: its posterior is
  the number of points, every predictive and marginal log likelihood is 0.
  \<open>seen_values_model\<close> is a model without smoothing: its posterior is the list of the
  points of the cluster, and the predictive likelihood of a value the cluster has not
  seen is zero, so its logarithm is \<open>-\<infinity>\<close>. \<open>example_data\<close> is the data set of the
  specification's scenario.
\<close>

definition flat_model :: "int dist_obj" where
  "flat_model =
     \<lparr>create_params = 0, create_params_from_data = (\<lambda>pts. int (length pts)),
      params_N = (\<lambda>p. Some p), params_increment = (\<lambda>x p. p + 1),
      params_decrement = (\<lambda>x p. p - 1),
      log_predictive_likelihood = (\<lambda>x p. Fin 0),
      log_predictive_likelihood_bulk = (\<lambda>pts p. replicate (length pts) (Fin 0)),
      dist_log_marginal_likelihood = (\<lambda>p. Fin 0)\<rparr>"

definition seen_values_model :: "vec list dist_obj" where
  "seen_values_model =
     \<lparr>create_params = [], create_params_from_data = (\<lambda>pts. pts),
      params_N = (\<lambda>p. Some (int (length p))), params_increment = (\<lambda>x p. p @ [x]),
      params_decrement = (\<lambda>x p. remove1 x p),
      log_predictive_likelihood = (\<lambda>x p. if p = [] \<or> x \<in> set p then Fin 0 else NInf),
      log_predictive_likelihood_bulk =
        (\<lambda>pts p. map (\<lambda>x. if p = [] \<or> x \<in> set p then Fin 0 else NInf) pts),
      dist_log_marginal_likelihood = (\<lambda>p. Fin 0)\<rparr>"

definition flat_prior :: "int \<Rightarrow> xreal" where
  "flat_prior n = Fin 0"

definition example_data :: "vec list" where
  "example_data = [[0], [0], [10], [10]]"

definition example_rng :: rng where
  "example_rng = \<lparr>nats = [5, 3, 1, 7, 2, 2, 9], reals = [3 / 10, 1 / 10]\<rparr>"


subsection \<open>Properties of results\<close>

text \<open>The exceptions a kernel raises itself.\<close>

fun is_explicit :: "error \<Rightarrow> bool" where
  "is_explicit (Exception msg) = True"
| "is_explicit _ = False"


text \<open>
  A valid result for a clustering: the anchors are distinct positions of the clustering,
  and the order lists the anchors first and then, without duplicates and without
  omissions, every other position whose label is the label of an anchor.
\<close>

definition valid_result :: "int list \<Rightarrow> nat list \<Rightarrow> nat list \<Rightarrow> bool" where
  "valid_result cs anchors order \<longleftrightarrow>
     distinct anchors \<and> set anchors \<subseteq> {..<length cs} \<and>
     take (length anchors) order = anchors \<and> distinct order \<and>
     set order = {i. i < length cs \<and> cs ! i \<in> (\<lambda>a. cs ! a) ` set anchors}"

subsection \<open>Sequences of calls\<close>

text \<open>
  A kernel is called once per iteration of the sampler. \<open>run_calls f calls\<close> makes the
  calls of the list in order, each with its clustering and its number of anchors, and
  returns the kernel and the generator after the last one; a call that raises leaves its
  kernel to the next call as well. \<open>control\<close> is the part of an adaptive kernel that
  decides about rebuilding. \<open>max_seen_before calls i\<close> is the largest number of distinct
  labels among the clusterings of the calls before call \<open>i\<close>, and 0 if there is none.
\<close>

fun run_calls ::
  "(int list \<Rightarrow> int \<Rightarrow> 'k \<Rightarrow> rng \<Rightarrow> 'r \<times> 'k \<times> rng) \<Rightarrow> (int list \<times> int) list \<Rightarrow> 'k \<Rightarrow> rng \<Rightarrow> 'k \<times> rng" where
  "run_calls f [] k g = (k, g)"
| "run_calls f ((cs, n) # calls) k g =
     (case f cs n k g of (res, k', g') \<Rightarrow> run_calls f calls k' g')"

definition control :: "('p, 'a) adaptive_kernel_scheme \<Rightarrow> nat \<times> enat \<times> nat" where
  "control k = (iter k, num_adaptation_iters k, max_clusters_seen k)"

definition num_distinct :: "int list \<Rightarrow> nat" where
  "num_distinct cs = card (set cs)"

definition max_seen_before :: "(int list \<times> int) list \<Rightarrow> nat \<Rightarrow> nat" where
  "max_seen_before calls i = Max (set (0 # map (\<lambda>c. num_distinct (fst c)) (take i calls)))"

text \<open>
  What a call does to the cluster parameter store, read off the kernel before and after
  the call. The store of the threshold-informed and of the CRP-informed kernel is only
  ever replaced by \<open>update\<close>; \<open>_propose_anchors\<close> may score one anchor, which adds an entry
  to the cache \<open>data_to_clusters\<close> and, in the threshold-informed kernel, decrements and
  increments a posterior. \<open>kept_store k k'\<close> says that the store of \<open>k'\<close> is the store of
  \<open>k\<close> but for that: the same labels, members and relabelled clustering, every cached
  score of \<open>k\<close>, and at most one more. \<open>rebuilt_store cs k k'\<close> says that the store of \<open>k'\<close>
  is, in the same sense, the store that \<open>update\<close> builds for the clustering \<open>cs\<close>,
  whose cache is empty.
\<close>

definition store_frame :: "('p, 'd) store \<Rightarrow> int list \<times> (int \<times> nat list) list \<times> int list" where
  "store_frame st = (map fst (cluster_params st), clusters_to_data st, clustering st)"

definition kept_store ::
  "('p, 'd, 'a) store_kernel_scheme \<Rightarrow> ('p, 'd, 'a) store_kernel_scheme \<Rightarrow> bool" where
  "kept_store k k' \<longleftrightarrow>
     (case store k of
        None \<Rightarrow> store k' = None
      | Some st \<Rightarrow>
          (case store k' of
             None \<Rightarrow> False
           | Some st' \<Rightarrow>
               store_frame st' = store_frame st \<and>
               data_to_clusters st \<subseteq>\<^sub>m data_to_clusters st' \<and>
               (\<exists>a. dom (data_to_clusters st') \<subseteq> insert a (dom (data_to_clusters st)))))"

definition rebuilt_store ::
  "int list \<Rightarrow> ('p, 'd, 'a) store_kernel_scheme \<Rightarrow> ('p, 'd, 'a) store_kernel_scheme \<Rightarrow> bool" where
  "rebuilt_store cs k k' \<longleftrightarrow> kept_store (snd (informed_update cs k)) k'"

text \<open>
  The cluster-informed kernel computes everything in \<open>update\<close> and keeps no cache: a call
  either leaves the store that \<open>update\<close> builds for its clustering, or the store it found.
\<close>

definition cluster_kept :: "('p, 'a) cluster_kernel_scheme \<Rightarrow> ('p, 'a) cluster_kernel_scheme \<Rightarrow> bool" where
  "cluster_kept k k' \<longleftrightarrow> ci_store k' = ci_store k"

definition cluster_rebuilt ::
  "int list \<Rightarrow> ('p, 'a) cluster_kernel_scheme \<Rightarrow> ('p, 'a) cluster_kernel_scheme \<Rightarrow> bool" where
  "cluster_rebuilt cs k k' \<longleftrightarrow> cluster_kept (snd (cluster_update cs k)) k'"

text \<open>
  The rebuild policy of the specification, for call number \<open>i\<close> (counted from 0) of a
  sequence of calls on a kernel. If the number of distinct labels of the call's clustering
  strictly exceeds the largest such number in all earlier calls and the iteration counter,
  already incremented to \<open>i + 1\<close>, does not exceed the adaptation budget, the call
  rebuilds the store for its clustering and records that number as the new maximum.
  If not, the call keeps the store and the recorded maximum.
\<close>

definition rebuild_policy ::
  "(int list \<Rightarrow> ('p, 'a) adaptive_kernel_scheme \<Rightarrow> ('p, 'a) adaptive_kernel_scheme \<Rightarrow> bool) \<Rightarrow>
   (('p, 'a) adaptive_kernel_scheme \<Rightarrow> ('p, 'a) adaptive_kernel_scheme \<Rightarrow> bool) \<Rightarrow>
   (int list \<Rightarrow> int \<Rightarrow> ('p, 'a) adaptive_kernel_scheme \<Rightarrow> rng \<Rightarrow>
      'r \<times> ('p, 'a) adaptive_kernel_scheme \<times> rng) \<Rightarrow>
   (int list \<times> int) list \<Rightarrow> ('p, 'a) adaptive_kernel_scheme \<Rightarrow> rng \<Rightarrow> nat \<Rightarrow> bool" where
  "rebuild_policy rebuilt kept f calls k g i \<longleftrightarrow>
     (let before = fst (run_calls f (take i calls) k g);
          after = fst (run_calls f (take (Suc i) calls) k g);
          cs = fst (calls ! i)
      in if max_seen_before calls i < num_distinct cs \<and> enat (Suc i) \<le> num_adaptation_iters k
         then rebuilt cs before after \<and> max_clusters_seen after = num_distinct cs
         else kept before after \<and> max_clusters_seen after = max_clusters_seen before)"

text \<open>The recorded maximum after a sequence of calls, computed from the clusterings alone.\<close>

fun recorded_max :: "enat \<Rightarrow> nat \<Rightarrow> nat \<Rightarrow> (int list \<times> int) list \<Rightarrow> nat" where
  "recorded_max b t m [] = m"
| "recorded_max b t m ((cs, n) # calls) =
     recorded_max b (Suc t)
       (if m < num_distinct cs \<and> enat (Suc t) \<le> b then num_distinct cs else m) calls"

subsection \<open>An example for the point-informed kernel\<close>

text \<open>
  \<open>np.percentile\<close> with its default linear interpolation, for an array of finite numbers:
  the value at position \<open>q / 100 \<cdot> (n - 1)\<close> of the sorted array, interpolated between the
  two neighbouring entries. An array with a special value yields \<open>nan\<close> here.
\<close>

fun finite_value :: "xreal \<Rightarrow> real option" where
  "finite_value (Fin a) = Some a"
| "finite_value _ = None"

definition percentile_linear :: "xreal list \<Rightarrow> real \<Rightarrow> xreal" where
  "percentile_linear xs q =
     (if xs \<noteq> [] \<and> list_all (\<lambda>x. finite_value x \<noteq> None) xs
      then (let s = sort (map (\<lambda>x. the (finite_value x)) xs);
                pos = q / 100 * (real (length s) - 1);
                lo = nat \<lfloor>pos\<rfloor>;
                hi = min (lo + 1) (length s - 1)
            in Fin (s ! lo + (pos - real lo) * (s ! hi - s ! lo)))
      else NaN)"

text \<open>
  \<open>distance_model\<close> is an observation model on one-dimensional points whose posterior is
  the list of the points of the cluster; the predictive log likelihood of a point is minus
  its distance to the first point of the cluster, and 0 under the empty posterior.
  In \<open>distance_data\<close> the compatibilities of the points with point 0 are
  \<open>0, -3, -1, -5\<close>.
\<close>

definition distance_model :: "vec list dist_obj" where
  "distance_model =
     \<lparr>create_params = [], create_params_from_data = (\<lambda>pts. pts),
      params_N = (\<lambda>p. Some (int (length p))), params_increment = (\<lambda>x p. p @ [x]),
      params_decrement = (\<lambda>x p. remove1 x p),
      log_predictive_likelihood =
        (\<lambda>x p. if p = [] then Fin 0 else Fin (- \<bar>hd x - hd (hd p)\<bar>)),
      log_predictive_likelihood_bulk =
        (\<lambda>pts p. map (\<lambda>x. if p = [] then Fin 0 else Fin (- \<bar>hd x - hd (hd p)\<bar>)) pts),
      dist_log_marginal_likelihood = (\<lambda>p. Fin 0)\<rparr>"

definition distance_data :: "vec list" where
  "distance_data = [[0], [3], [1], [5]]"

definition point_rng :: rng where
  "point_rng = \<lparr>nats = [0, 0], reals = [3 / 10, 1 / 10]\<rparr>"

text \<open>
  The pool the specification describes for the branch \<open>u \<le> 0.5\<close>: the positions other
  than the anchor whose compatibility is at most the \<open>\<alpha>\<close>-th percentile.
\<close>

definition spec_pool_low ::
  "(xreal list \<Rightarrow> real \<Rightarrow> xreal) \<Rightarrow> real \<Rightarrow> nat \<Rightarrow> xreal list \<Rightarrow> nat list" where
  "spec_pool_low percentile alpha anchor_1 row =
     filter (\<lambda>j. j \<noteq> anchor_1 \<and> xle (row ! j) (percentile row alpha)) [0..<length row]"

subsection \<open>An example for the CRP-informed kernel\<close>

text \<open>
  The CRP-informed kernel on \<open>example_data\<close> with the constant model and prior, called with
  the clustering \<open>[0, 0, 1, 1]\<close>: \<open>crp_updated\<close> is the kernel after the first call has
  rebuilt the store, \<open>crp_scored\<close> the kernel after point 0 has been scored. The draws of
  \<open>crp_rng\<close> make point 0 the first anchor.
\<close>

definition crp_updated :: "int crp_kernel" where
  "crp_updated =
     (CRPInformedSplitMergeSetupKernel example_data flat_model flat_prior \<infinity>)
       \<lparr>iter := 1, max_clusters_seen := 2,
        store := Some \<lparr>cluster_params = [(0, 2), (1, 2)],
                       clusters_to_data = [(0, [0, 1]), (1, [2, 3])],
                       data_to_clusters = Map.empty, clustering = [0, 0, 1, 1]\<rparr>\<rparr>"

definition crp_scored :: "int crp_kernel" where
  "crp_scored =
     (CRPInformedSplitMergeSetupKernel example_data flat_model flat_prior \<infinity>)
       \<lparr>iter := 1, max_clusters_seen := 2,
        store := Some \<lparr>cluster_params = [(0, 2), (1, 2)],
                       clusters_to_data = [(0, [0, 1]), (1, [2, 3])],
                       data_to_clusters = [0 \<mapsto> [(0, Fin (2 / 3)), (1, Fin (1 / 3))]],
                       clustering = [0, 0, 1, 1]\<rparr>\<rparr>"

definition crp_rng :: rng where
  "crp_rng = \<lparr>nats = [0, 0, 0], reals = []\<rparr>"

text \<open>
  The score of the anchor's own cluster as the specification describes it: logsumexp of
  the scores of the other clusters minus \<open>log (numClusters - 1)\<close>.
\<close>

definition spec_crp_own_score :: "xreal list \<Rightarrow> nat \<Rightarrow> xreal" where
  "spec_crp_own_score others num_clusters =
     xsub (log_sum_exp others) (np_log (real num_clusters - 1))"

subsection \<open>A posterior that can be taken out of and put back into its cluster\<close>

text \<open>
  The hypotheses under which \<open>decrement\<close> followed by \<open>increment\<close> of the same point is
  exact: the posterior is as its constructor leaves it (shapes, derived fields, a Cholesky
  factor), \<open>r\<close> stays positive when the point is removed, and the six calls of
  \<open>cholesky_update\<close> meet its contract.
\<close>

definition restorable :: "cholesky_update \<Rightarrow> vec \<Rightarrow> parameters \<Rightarrow> bool" where
  "restorable cu x p \<longleftrightarrow>
     shapes_ok p \<and> is_vec (dim (priors p)) x \<and> consistent p \<and>
     is_chol (dim (priors p)) (S_chol p) \<and> 0 < r (decrement cu x p) \<and>
     decrement_meets_contract cu x p \<and>
     increment_meets_contract cu x (decrement cu x p)"

subsection \<open>The posteriors of the multivariate normal model in a kernel\<close>

text \<open>
  A kernel obtains its posteriors from \<open>dist.create_params()\<close> and updates them with their
  methods \<open>increment\<close> and \<open>decrement\<close>. \<open>with_mvn_posteriors m\<close> is an observation model
  that hands out objects of the class \<open>MultivariateNormalParameters\<close>, here in dimension
  one: \<open>empty_posterior\<close>, which the constructor builds from the prior and the statistics
  of no point, and the two methods of the class. The class defines no attribute \<open>N\<close>
  (the count of a posterior is \<open>ss.N\<close>), so reading it fails. All other methods are
  those of \<open>m\<close>.
\<close>

definition empty_posterior :: parameters where
  "empty_posterior =
     MultivariateNormalParameters (\<lambda>A. [[sqrt (A ! 0 ! 0)]]) (MultivariateNormalPriors 1)
       \<lparr>ss_N = 0, ss_X = [0], ss_S = [[0]]\<rparr>"

definition with_mvn_posteriors :: "parameters dist_obj \<Rightarrow> parameters dist_obj" where
  "with_mvn_posteriors m =
     m\<lparr>create_params := empty_posterior, params_N := (\<lambda>p. None),
       params_increment := increment cholesky_update_1d,
       params_decrement := decrement cholesky_update_1d\<rparr>"

text \<open>
  The threshold-informed kernel on two points of value 2, called with the clustering
  \<open>[0, 1]\<close>: \<open>mvn_updated\<close> is the kernel after \<open>update\<close> has built the posterior of
  each cluster, \<open>mvn_failed\<close> the kernel as the scoring of point 0 leaves it.
\<close>

definition mvn_data :: "vec list" where
  "mvn_data = [[2], [2]]"

definition mvn_updated :: "parameters dist_obj \<Rightarrow> parameters threshold_kernel" where
  "mvn_updated m =
     (ThresholdInformedSplitMergeSetupKernel mvn_data (with_mvn_posteriors m) flat_prior \<infinity> (1 / 100))
       \<lparr>iter := 1, max_clusters_seen := 2,
        store := Some \<lparr>cluster_params = [(0, example_posterior), (1, example_posterior)],
                       clusters_to_data = [(0, [0]), (1, [1])],
                       data_to_clusters = Map.empty, clustering = [0, 1]\<rparr>\<rparr>"

definition mvn_failed :: "parameters dist_obj \<Rightarrow> parameters threshold_kernel" where
  "mvn_failed m =
     (ThresholdInformedSplitMergeSetupKernel mvn_data (with_mvn_posteriors m) flat_prior \<infinity> (1 / 100))
       \<lparr>iter := 1, max_clusters_seen := 2,
        store := Some \<lparr>cluster_params = [(0, empty_posterior), (1, example_posterior)],
                       clusters_to_data = [(0, [0]), (1, [1])],
                       data_to_clusters = Map.empty, clustering = [0, 1]\<rparr>\<rparr>"

subsection \<open>An example where every score is \<open>-\<infinity>\<close>\<close>

text \<open>
  Two points with different values, each in a cluster of its own, under the model without
  smoothing: the other cluster has never seen the anchor's value, and the anchor's own
  cluster is a singleton. \<open>sparse_crp_updated\<close> is the CRP-informed kernel after the first
  call has rebuilt the store, \<open>sparse_crp_scored\<close> the kernel after point 0 has been
  scored; \<open>sparse_threshold_scored\<close> is the threshold-informed kernel at the same moment.
\<close>

definition sparse_data :: "vec list" where
  "sparse_data = [[0], [1]]"

definition sparse_crp_updated :: "vec list crp_kernel" where
  "sparse_crp_updated =
     (CRPInformedSplitMergeSetupKernel sparse_data seen_values_model flat_prior \<infinity>)
       \<lparr>iter := 1, max_clusters_seen := 2,
        store := Some \<lparr>cluster_params = [(0, [[0]]), (1, [[1]])],
                       clusters_to_data = [(0, [0]), (1, [1])],
                       data_to_clusters = Map.empty, clustering = [0, 1]\<rparr>\<rparr>"

definition sparse_crp_scored :: "vec list crp_kernel" where
  "sparse_crp_scored =
     (CRPInformedSplitMergeSetupKernel sparse_data seen_values_model flat_prior \<infinity>)
       \<lparr>iter := 1, max_clusters_seen := 2,
        store := Some \<lparr>cluster_params = [(0, [[0]]), (1, [[1]])],
                       clusters_to_data = [(0, [0]), (1, [1])],
                       data_to_clusters = [0 \<mapsto> [(0, NaN), (1, NaN)]],
                       clustering = [0, 1]\<rparr>\<rparr>"

definition sparse_threshold_updated :: "vec list threshold_kernel" where
  "sparse_threshold_updated =
     (ThresholdInformedSplitMergeSetupKernel sparse_data seen_values_model flat_prior \<infinity> (1 / 100))
       \<lparr>iter := 1, max_clusters_seen := 2,
        store := Some \<lparr>cluster_params = [(0, [[0]]), (1, [[1]])],
                       clusters_to_data = [(0, [0]), (1, [1])],
                       data_to_clusters = Map.empty, clustering = [0, 1]\<rparr>\<rparr>"

definition sparse_threshold_scored :: "vec list threshold_kernel" where
  "sparse_threshold_scored =
     (ThresholdInformedSplitMergeSetupKernel sparse_data seen_values_model flat_prior \<infinity> (1 / 100))
       \<lparr>iter := 1, max_clusters_seen := 2,
        store := Some \<lparr>cluster_params = [(0, [[0]]), (1, [[1]])],
                       clusters_to_data = [(0, [0]), (1, [1])],
                       data_to_clusters = [0 \<mapsto> []], clustering = [0, 1]\<rparr>\<rparr>"

section \<open>Array arithmetic\<close>


lemma is_mat_iff: "is_mat d A \<longleftrightarrow> length A = d \<and> (\<forall>i<d. length (A ! i) = d)"
  by (auto simp: is_mat_def list_all_length)

lemma mat_eqI:
  assumes "is_mat d A" "is_mat d B" "\<And>i j. i < d \<Longrightarrow> j < d \<Longrightarrow> A ! i ! j = B ! i ! j"
  shows "A = B"
proof (rule nth_equalityI)
  show "length A = length B" using assms by (simp add: is_mat_iff)
next
  fix i assume "i < length A"
  then have i: "i < d" using assms(1) by (simp add: is_mat_iff)
  show "A ! i = B ! i"
  proof (rule nth_equalityI)
    show "length (A ! i) = length (B ! i)" using assms i by (simp add: is_mat_iff)
  next
    fix j assume "j < length (A ! i)"
    then have "j < d" using assms(1) i by (simp add: is_mat_iff)
    then show "A ! i ! j = B ! i ! j" using assms(3) i by simp
  qed
qed

lemma length_vadd: "length (vadd x y) = min (length x) (length y)"
  by (simp add: vadd_def)

lemma length_vsub: "length (vsub x y) = min (length x) (length y)"
  by (simp add: vsub_def)

lemma length_vscale: "length (vscale c x) = length x"
  by (simp add: vscale_def)

lemma length_vdiv: "length (vdiv x c) = length x"
  by (simp add: vdiv_def)

lemma vadd_nth: "i < length x \<Longrightarrow> i < length y \<Longrightarrow> vadd x y ! i = x ! i + y ! i"
  by (simp add: vadd_def)

lemma vsub_nth: "i < length x \<Longrightarrow> i < length y \<Longrightarrow> vsub x y ! i = x ! i - y ! i"
  by (simp add: vsub_def)

lemma vscale_nth: "i < length x \<Longrightarrow> vscale c x ! i = c * x ! i"
  by (simp add: vscale_def)

lemma vdiv_nth: "i < length x \<Longrightarrow> vdiv x c ! i = x ! i / c"
  by (simp add: vdiv_def)

lemmas vec_simps = length_vadd length_vsub length_vscale length_vdiv
  vadd_nth vsub_nth vscale_nth vdiv_nth is_vec_def

lemma is_mat_madd: "is_mat d A \<Longrightarrow> is_mat d B \<Longrightarrow> is_mat d (madd A B)"
  by (simp add: is_mat_iff madd_def vec_simps)

lemma is_mat_msub: "is_mat d A \<Longrightarrow> is_mat d B \<Longrightarrow> is_mat d (msub A B)"
  by (simp add: is_mat_iff msub_def vec_simps)

lemma is_mat_mscale: "is_mat d A \<Longrightarrow> is_mat d (mscale c A)"
  by (simp add: is_mat_iff mscale_def vec_simps)

lemma is_mat_outer: "is_vec d x \<Longrightarrow> is_mat d (outer_product x x)"
  by (simp add: is_mat_iff outer_product_def is_vec_def)

lemma length_madd: "length (madd A B) = min (length A) (length B)"
  by (simp add: madd_def)

lemma length_msub: "length (msub A B) = min (length A) (length B)"
  by (simp add: msub_def)

lemma length_mscale: "length (mscale c A) = length A"
  by (simp add: mscale_def)

lemma length_outer: "length (outer_product x y) = length x"
  by (simp add: outer_product_def)

lemma madd_row: "i < length A \<Longrightarrow> i < length B \<Longrightarrow> madd A B ! i = vadd (A ! i) (B ! i)"
  by (simp add: madd_def)

lemma msub_row: "i < length A \<Longrightarrow> i < length B \<Longrightarrow> msub A B ! i = vsub (A ! i) (B ! i)"
  by (simp add: msub_def)

lemma mscale_row: "i < length A \<Longrightarrow> mscale c A ! i = vscale c (A ! i)"
  by (simp add: mscale_def)

lemma outer_row: "i < length x \<Longrightarrow> outer_product x y ! i = map (\<lambda>b. x ! i * b) y"
  by (simp add: outer_product_def)

lemmas mat_simps = length_madd length_msub length_mscale length_outer
  madd_row msub_row mscale_row outer_row is_mat_iff vec_simps

lemma is_vec_vscale: "is_vec d x \<Longrightarrow> is_vec d (vscale c x)"
  by (simp add: vec_simps)

lemma increment_fields:
  "ss (increment cu x p) = ss_increment x (ss p)"
  "priors (increment cu x p) = priors p"
  "nu (increment cu x p) = prior_nu (priors p) + (ss_N (ss p) + 1)"
  "r (increment cu x p) = prior_r (priors p) + (ss_N (ss p) + 1)"
  "u (increment cu x p) =
     vdiv (vadd (vscale (real_of_int (prior_r (priors p))) (prior_u (priors p)))
                (vadd (ss_X (ss p)) x))
          (real_of_int (prior_r (priors p) + (ss_N (ss p) + 1)))"
  by (simp_all add: increment_def Let_def update_nu_def update_r_def update_u_def ss_increment_def)

lemma increment_S_chol:
  "S_chol (increment cu x p) =
     cu (cu (cu (S_chol p) (vscale (sqrt (real_of_int (r p))) (u p)) 1) x 1)
        (vscale (sqrt (real_of_int (r (increment cu x p)))) (u (increment cu x p))) (- 1)"
  by (simp add: increment_def Let_def update_nu_def update_r_def update_u_def ss_increment_def)

lemma is_vec_vdiv: "is_vec d x \<Longrightarrow> is_vec d (vdiv x c)"
  by (simp add: is_vec_def vdiv_def)

lemma is_vec_vadd: "is_vec d x \<Longrightarrow> is_vec d y \<Longrightarrow> is_vec d (vadd x y)"
  by (simp add: is_vec_def vadd_def)

lemma is_vec_vsub: "is_vec d x \<Longrightarrow> is_vec d y \<Longrightarrow> is_vec d (vsub x y)"
  by (simp add: is_vec_def vsub_def)

lemma outer_sqrt_scale:
  assumes "is_vec d v" "0 \<le> c"
  shows "mscale s (outer_product (vscale (sqrt c) v) (vscale (sqrt c) v))
         = mscale (s * c) (outer_product v v)"
proof (rule mat_eqI [where d = d])
  show "is_mat d (mscale s (outer_product (vscale (sqrt c) v) (vscale (sqrt c) v)))"
    using assms by (simp add: is_mat_mscale is_mat_outer is_vec_vscale)
  show "is_mat d (mscale (s * c) (outer_product v v))"
    using assms by (simp add: is_mat_mscale is_mat_outer)
next
  fix i j assume ij: "i < d" "j < d"
  have "sqrt c * sqrt c = c" using assms(2) by simp
  then have "sqrt c * v ! i * (sqrt c * v ! j) = c * (v ! i * v ! j)"
    by (simp add: mult.assoc mult.left_commute)
  then show "mscale s (outer_product (vscale (sqrt c) v) (vscale (sqrt c) v)) ! i ! j
        = mscale (s * c) (outer_product v v) ! i ! j"
    using assms ij by (simp add: mat_simps mult.assoc)
qed

lemma decrement_fields:
  "ss (decrement cu x p) = ss_decrement x (ss p)"
  "priors (decrement cu x p) = priors p"
  "nu (decrement cu x p) = prior_nu (priors p) + (ss_N (ss p) - 1)"
  "r (decrement cu x p) = prior_r (priors p) + (ss_N (ss p) - 1)"
  "u (decrement cu x p) =
     vdiv (vadd (vscale (real_of_int (prior_r (priors p))) (prior_u (priors p)))
                (vsub (ss_X (ss p)) x))
          (real_of_int (prior_r (priors p) + (ss_N (ss p) - 1)))"
  by (simp_all add: decrement_def Let_def update_nu_def update_r_def update_u_def ss_decrement_def)

lemma decrement_S_chol:
  "S_chol (decrement cu x p) =
     cu (cu (cu (S_chol p) (vscale (sqrt (real_of_int (r p))) (u p)) 1) x (- 1))
        (vscale (sqrt (real_of_int (r (decrement cu x p)))) (u (decrement cu x p))) (- 1)"
  by (simp add: decrement_def Let_def update_nu_def update_r_def update_u_def ss_decrement_def)

text \<open>What the three rank-one operations of one update do to \<open>L L\<^sup>T\<close>.\<close>

lemma increment_gram:
  assumes u0: "is_vec d (u p)" and u1: "is_vec d (u (increment cu x p))"
    and r0: "0 \<le> r p" and r1: "0 \<le> r (increment cu x p)"
    and c: "increment_meets_contract cu x p"
  shows "gram (S_chol (increment cu x p)) =
    madd (madd (madd (gram (S_chol p))
                     (mscale (real_of_int (r p)) (outer_product (u p) (u p))))
               (mscale 1 (outer_product x x)))
         (mscale (- real_of_int (r (increment cu x p)))
            (outer_product (u (increment cu x p)) (u (increment cu x p))))"
    and "is_chol (length (u (increment cu x p))) (S_chol (increment cu x p))"
proof -
  define q where "q = increment cu x p"
  define v1 where "v1 = vscale (sqrt (real_of_int (r p))) (u p)"
  define L1 where "L1 = cu (S_chol p) v1 1"
  define L2 where "L2 = cu L1 x 1"
  define v3 where "v3 = vscale (sqrt (real_of_int (r q))) (u q)"
  have q_eq: "update_u (update_r (update_nu (p\<lparr>ss := ss_increment x (ss p)\<rparr>))) = q\<lparr>S_chol := S_chol p\<rparr>"
    by (simp add: q_def increment_def Let_def update_nu_def update_r_def update_u_def)
  have c1: "gram L1 = madd (gram (S_chol p)) (mscale 1 (outer_product v1 v1))"
    and c2: "gram L2 = madd (gram L1) (mscale 1 (outer_product x x))"
    and c3: "gram (cu L2 v3 (- 1)) = madd (gram L2) (mscale (- 1) (outer_product v3 v3))"
    and c4: "is_chol (length v3) (cu L2 v3 (- 1))"
    using c
    by (simp_all add: increment_meets_contract_def Let_def meets_contract_def q_eq
        v1_def L1_def L2_def v3_def)
  have Sq: "S_chol q = cu L2 v3 (- 1)"
    unfolding q_def v3_def L2_def L1_def v1_def by (rule increment_S_chol)
  have o1: "mscale 1 (outer_product v1 v1) = mscale (real_of_int (r p)) (outer_product (u p) (u p))"
    unfolding v1_def using outer_sqrt_scale [of d "u p" "real_of_int (r p)" 1] u0 r0 by simp
  have o3: "mscale (- 1) (outer_product v3 v3) = mscale (- real_of_int (r q)) (outer_product (u q) (u q))"
    unfolding v3_def using outer_sqrt_scale [of d "u q" "real_of_int (r q)" "- 1"] u1 r1
    by (simp add: q_def)
  show "gram (S_chol (increment cu x p)) =
    madd (madd (madd (gram (S_chol p))
                     (mscale (real_of_int (r p)) (outer_product (u p) (u p))))
               (mscale 1 (outer_product x x)))
         (mscale (- real_of_int (r (increment cu x p)))
            (outer_product (u (increment cu x p)) (u (increment cu x p))))"
    unfolding q_def [symmetric] Sq c3 c2 c1 o1 o3 ..
  show "is_chol (length (u (increment cu x p))) (S_chol (increment cu x p))"
    using c4 unfolding q_def [symmetric] Sq v3_def by (simp add: length_vscale)
qed

lemma decrement_gram:
  assumes u0: "is_vec d (u p)" and u1: "is_vec d (u (decrement cu x p))"
    and r0: "0 \<le> r p" and r1: "0 \<le> r (decrement cu x p)"
    and c: "decrement_meets_contract cu x p"
  shows "gram (S_chol (decrement cu x p)) =
    madd (madd (madd (gram (S_chol p))
                     (mscale (real_of_int (r p)) (outer_product (u p) (u p))))
               (mscale (- 1) (outer_product x x)))
         (mscale (- real_of_int (r (decrement cu x p)))
            (outer_product (u (decrement cu x p)) (u (decrement cu x p))))"
    and "is_chol (length (u (decrement cu x p))) (S_chol (decrement cu x p))"
proof -
  define q where "q = decrement cu x p"
  define v1 where "v1 = vscale (sqrt (real_of_int (r p))) (u p)"
  define L1 where "L1 = cu (S_chol p) v1 1"
  define L2 where "L2 = cu L1 x (- 1)"
  define v3 where "v3 = vscale (sqrt (real_of_int (r q))) (u q)"
  have q_eq: "update_u (update_r (update_nu (p\<lparr>ss := ss_decrement x (ss p)\<rparr>))) = q\<lparr>S_chol := S_chol p\<rparr>"
    by (simp add: q_def decrement_def Let_def update_nu_def update_r_def update_u_def)
  have c1: "gram L1 = madd (gram (S_chol p)) (mscale 1 (outer_product v1 v1))"
    and c2: "gram L2 = madd (gram L1) (mscale (- 1) (outer_product x x))"
    and c3: "gram (cu L2 v3 (- 1)) = madd (gram L2) (mscale (- 1) (outer_product v3 v3))"
    and c4: "is_chol (length v3) (cu L2 v3 (- 1))"
    using c
    by (simp_all add: decrement_meets_contract_def Let_def meets_contract_def q_eq
        v1_def L1_def L2_def v3_def)
  have Sq: "S_chol q = cu L2 v3 (- 1)"
    unfolding q_def v3_def L2_def L1_def v1_def by (rule decrement_S_chol)
  have o1: "mscale 1 (outer_product v1 v1) = mscale (real_of_int (r p)) (outer_product (u p) (u p))"
    unfolding v1_def using outer_sqrt_scale [of d "u p" "real_of_int (r p)" 1] u0 r0 by simp
  have o3: "mscale (- 1) (outer_product v3 v3) = mscale (- real_of_int (r q)) (outer_product (u q) (u q))"
    unfolding v3_def using outer_sqrt_scale [of d "u q" "real_of_int (r q)" "- 1"] u1 r1
    by (simp add: q_def)
  show "gram (S_chol (decrement cu x p)) =
    madd (madd (madd (gram (S_chol p))
                     (mscale (real_of_int (r p)) (outer_product (u p) (u p))))
               (mscale (- 1) (outer_product x x)))
         (mscale (- real_of_int (r (decrement cu x p)))
            (outer_product (u (decrement cu x p)) (u (decrement cu x p))))"
    unfolding q_def [symmetric] Sq c3 c2 c1 o1 o3 ..
  show "is_chol (length (u (decrement cu x p))) (S_chol (decrement cu x p))"
    using c4 unfolding q_def [symmetric] Sq v3_def by (simp add: length_vscale)
qed




lemma transpose_m_square:
  assumes "is_mat d A"
  shows "transpose_m A = map (\<lambda>j. map (\<lambda>row. row ! j) A) [0..<d]"
proof (cases "A = []")
  case True
  then show ?thesis using assms by (simp add: transpose_m_def is_mat_iff)
next
  case False
  then have "0 < d" "hd A = A ! 0" using assms by (auto simp: is_mat_iff hd_conv_nth)
  then have "length (hd A) = d" using assms by (simp add: is_mat_iff)
  then show ?thesis using False by (simp add: transpose_m_def)
qed

lemma is_mat_transpose_m: "is_mat d A \<Longrightarrow> is_mat d (transpose_m A)"
  by (simp add: transpose_m_square) (simp add: is_mat_iff)

lemma transpose_m_nth:
  "is_mat d A \<Longrightarrow> i < d \<Longrightarrow> j < d \<Longrightarrow> transpose_m A ! i ! j = A ! j ! i"
  by (simp add: transpose_m_square) (simp add: is_mat_iff)

lemma transpose_m_twice:
  assumes "is_mat d A"
  shows "transpose_m (transpose_m A) = A"
proof (rule mat_eqI [where d = d])
  show "is_mat d (transpose_m (transpose_m A))"
    using assms by (intro is_mat_transpose_m)
  show "is_mat d A" by fact
next
  fix i j assume ij: "i < d" "j < d"
  have "transpose_m (transpose_m A) ! i ! j = transpose_m A ! j ! i"
    using is_mat_transpose_m [OF assms] ij by (rule transpose_m_nth)
  also have "\<dots> = A ! i ! j"
    using assms ij(2,1) by (rule transpose_m_nth)
  finally show "transpose_m (transpose_m A) ! i ! j = A ! i ! j" .
qed

lemma sum_list_map2_mult:
  assumes "length xs = d" "length ys = d"
  shows "sum_list (map2 (*) xs ys) = (\<Sum>k<d. xs ! k * ys ! (k::nat) :: real)"
proof -
  have "sum_list (map2 (*) xs ys) = (\<Sum>k = 0..<length (map2 (*) xs ys). map2 (*) xs ys ! k)"
    by (rule sum_list_sum_nth)
  also have "\<dots> = (\<Sum>k = 0..<d. xs ! k * ys ! k)"
    using assms by (intro sum.cong) simp_all
  finally show ?thesis by (simp add: atLeast0LessThan)
qed

lemma gram_nth:
  assumes "is_mat d L" "i < d" "j < d"
  shows "gram L ! i ! j = (\<Sum>k<d. L ! i ! k * L ! j ! k)"
proof -
  have "gram L ! i ! j = sum_list (map2 (*) (L ! i) (L ! j))"
    using assms by (simp add: gram_def dot_def transpose_m_twice [OF assms(1)]) (simp add: is_mat_iff)
  then show ?thesis
    using assms sum_list_map2_mult [of "L ! i" d "L ! j"] by (simp add: is_mat_iff)
qed

lemma is_mat_gram: "is_mat d L \<Longrightarrow> is_mat d (gram L)"
  by (simp add: gram_def dot_def transpose_m_twice) (simp add: is_mat_iff)

lemma gram_lower:
  assumes L: "is_chol d L" and i: "i < d" and ji: "j \<le> i"
  shows "gram L ! i ! j = (\<Sum>k<j. L ! i ! k * L ! j ! k) + L ! i ! j * L ! j ! j"
proof -
  have j: "j < d" using i ji by simp
  have z: "\<And>k. k \<in> {Suc j..<d} \<Longrightarrow> L ! i ! k * L ! j ! k = 0"
    using L j by (simp add: is_chol_def)
  have "gram L ! i ! j = (\<Sum>k = 0..<d. L ! i ! k * L ! j ! k)"
    using L i j by (simp add: gram_nth is_chol_def atLeast0LessThan)
  also have "\<dots> = (\<Sum>k = 0..<Suc j. L ! i ! k * L ! j ! k) + (\<Sum>k = Suc j..<d. L ! i ! k * L ! j ! k)"
    using j by (intro sum.atLeastLessThan_concat [symmetric]) simp_all
  also have "(\<Sum>k = Suc j..<d. L ! i ! k * L ! j ! k) = 0"
    using z by (rule sum.neutral [rule_format])
  finally show ?thesis by (simp add: atLeast0LessThan)
qed

lemma chol_unique:
  assumes L: "is_chol d L" and M: "is_chol d M" and g: "gram L = gram M"
  shows "L = M"
proof -
  have col: "j < d \<Longrightarrow> (\<forall>i<d. L ! i ! j = M ! i ! j)" for j
  proof (induction j rule: less_induct)
    case (less j)
    have IH: "\<And>k i. k < j \<Longrightarrow> i < d \<Longrightarrow> L ! i ! k = M ! i ! k"
      using less by simp
    have jd: "j < d" by fact
    have "gram L ! j ! j = gram M ! j ! j" using g by simp
    then have "L ! j ! j * L ! j ! j = M ! j ! j * M ! j ! j"
      using IH jd by (simp add: gram_lower [OF L jd] gram_lower [OF M jd])
    moreover have "0 < L ! j ! j" "0 < M ! j ! j" using L M jd by (simp_all add: is_chol_def)
    ultimately have dg: "L ! j ! j = M ! j ! j"
      using power2_eq_iff_nonneg [of "L ! j ! j" "M ! j ! j"] by (simp add: power2_eq_square)
    show ?case
    proof (intro allI impI)
      fix i assume i: "i < d"
      consider "i < j" | "i = j" | "j < i" by linarith
      then show "L ! i ! j = M ! i ! j"
      proof cases
        case 1
        then show ?thesis using L M i jd by (simp add: is_chol_def)
      next
        case 2
        then show ?thesis using dg by simp
      next
        case 3
        then have ji: "j \<le> i" by simp
        have "gram L ! i ! j = gram M ! i ! j" using g by simp
        then have "L ! i ! j * L ! j ! j = M ! i ! j * M ! j ! j"
          using IH i jd by (simp add: gram_lower [OF L i ji] gram_lower [OF M i ji])
        then show ?thesis using dg \<open>0 < M ! j ! j\<close> by simp
      qed
    qed
  qed
  show ?thesis
    using L M col by (intro mat_eqI [where d = d]) (simp_all add: is_chol_def)
qed




lemma consistent_fields:
  assumes "consistent p"
  shows "nu p = prior_nu (priors p) + ss_N (ss p)"
    and "r p = prior_r (priors p) + ss_N (ss p)"
    and "u p = vdiv (vadd (vscale (real_of_int (prior_r (priors p))) (prior_u (priors p)))
                         (ss_X (ss p)))
                   (real_of_int (prior_r (priors p) + ss_N (ss p)))"
proof -
  have e: "update_u (update_r (update_nu p)) = p" using assms by (simp add: consistent_def)
  have "nu (update_u (update_r (update_nu p))) = prior_nu (priors p) + ss_N (ss p)"
    by (simp add: update_nu_def update_r_def update_u_def)
  then show "nu p = prior_nu (priors p) + ss_N (ss p)" by (simp add: e)
  have "r (update_u (update_r (update_nu p))) = prior_r (priors p) + ss_N (ss p)"
    by (simp add: update_nu_def update_r_def update_u_def)
  then show "r p = prior_r (priors p) + ss_N (ss p)" by (simp add: e)
  have "u (update_u (update_r (update_nu p))) = vdiv (vadd (vscale (real_of_int (prior_r (priors p))) (prior_u (priors p)))
                         (ss_X (ss p)))
                   (real_of_int (prior_r (priors p) + ss_N (ss p)))"
    by (simp add: update_nu_def update_r_def update_u_def)
  then show "u p = vdiv (vadd (vscale (real_of_int (prior_r (priors p))) (prior_u (priors p)))
                         (ss_X (ss p)))
                   (real_of_int (prior_r (priors p) + ss_N (ss p)))" by (simp add: e)
qed

lemma vsub_vadd: "length y = length x \<Longrightarrow> vsub (vadd x y) y = x"
  by (rule nth_equalityI) (simp_all add: vec_simps)

lemma vadd_vsub: "length y = length x \<Longrightarrow> vadd (vsub x y) y = x"
  by (rule nth_equalityI) (simp_all add: vec_simps)

lemma msub_madd: "is_mat d A \<Longrightarrow> is_mat d B \<Longrightarrow> msub (madd A B) B = A"
  by (rule mat_eqI [where d = d]) (simp_all add: mat_simps)

lemma madd_msub: "is_mat d A \<Longrightarrow> is_mat d B \<Longrightarrow> madd (msub A B) B = A"
  by (rule mat_eqI [where d = d]) (simp_all add: mat_simps)

lemma ss_decrement_increment:
  "is_vec d x \<Longrightarrow> is_vec d (ss_X s) \<Longrightarrow> is_mat d (ss_S s) \<Longrightarrow>
   ss_decrement x (ss_increment x s) = s"
  by (simp add: ss_decrement_def ss_increment_def vsub_vadd is_vec_def
      msub_madd [where d = d] is_mat_outer)

lemma ss_increment_decrement:
  "is_vec d x \<Longrightarrow> is_vec d (ss_X s) \<Longrightarrow> is_mat d (ss_S s) \<Longrightarrow>
   ss_increment x (ss_decrement x s) = s"
  by (simp add: ss_decrement_def ss_increment_def vadd_vsub is_vec_def
      madd_msub [where d = d] is_mat_outer)

text \<open>Cancellation of the six rank-one terms of an update followed by its inverse.\<close>

lemma six_terms_cancel:
  assumes "is_mat d G" "is_mat d U" "is_mat d V" "is_mat d W"
  shows "madd (madd (madd (madd (madd (madd G (mscale a U)) (mscale s W)) (mscale (- b) V))
                          (mscale b V)) (mscale (- s) W)) (mscale (- a) U) = G"
  using assms by (intro mat_eqI [where d = d]) (simp_all add: mat_simps)

lemma increment_then_decrement:
  assumes sh: "shapes_ok p" and x: "is_vec (dim (priors p)) x" and con: "consistent p"
    and r0: "0 < r p"
    and c1: "increment_meets_contract cu x p"
    and c2: "decrement_meets_contract cu x (increment cu x p)"
  shows "ss (decrement cu x (increment cu x p)) = ss p"
    and "gram (S_chol (decrement cu x (increment cu x p))) = gram (S_chol p)"
    and "nu (decrement cu x (increment cu x p)) = nu p"
    and "r (decrement cu x (increment cu x p)) = r p"
    and "u (decrement cu x (increment cu x p)) = u p"
    and "priors (decrement cu x (increment cu x p)) = priors p"
    and "is_chol (dim (priors p)) (S_chol (decrement cu x (increment cu x p)))"
proof -
  define d where "d = dim (priors p)"
  define q where "q = increment cu x p"
  define q' where "q' = decrement cu x q"
  have shp: "is_mat d (prior_S (priors p))" "is_vec d (prior_u (priors p))"
    "is_vec d (ss_X (ss p))" "is_mat d (ss_S (ss p))" "is_vec d (u p)" "is_vec d x"
    "is_mat d (S_chol p)"
    using sh x by (simp_all add: shapes_ok_def Let_def d_def)
  note cf = consistent_fields [OF con]
  show ss': "ss (decrement cu x (increment cu x p)) = ss p"
    using shp by (simp add: decrement_fields increment_fields ss_decrement_increment [where d = d])
  show "nu (decrement cu x (increment cu x p)) = nu p"
    by (simp add: decrement_fields increment_fields ss_increment_def cf)
  show rr: "r (decrement cu x (increment cu x p)) = r p"
    by (simp add: decrement_fields increment_fields ss_increment_def cf)
  show uu: "u (decrement cu x (increment cu x p)) = u p"
    using shp
    by (simp add: decrement_fields increment_fields ss_increment_def vsub_vadd is_vec_def
        cf(3) [symmetric] del: of_int_add)
  show "priors (decrement cu x (increment cu x p)) = priors p"
    by (simp add: decrement_fields increment_fields)
  have rq: "r q = r p + 1" by (simp add: q_def increment_fields cf)
  have uq: "is_vec d (u q)"
    using shp by (simp add: q_def increment_fields vec_simps)
  have g1: "gram (S_chol q) =
    madd (madd (madd (gram (S_chol p))
                     (mscale (real_of_int (r p)) (outer_product (u p) (u p))))
               (mscale 1 (outer_product x x)))
         (mscale (- real_of_int (r q)) (outer_product (u q) (u q)))"
    unfolding q_def
    using shp(5) uq r0 rq c1 by (intro increment_gram(1) [where d = d]) (simp_all add: q_def)
  have g2: "gram (S_chol q') =
    madd (madd (madd (gram (S_chol q))
                     (mscale (real_of_int (r q)) (outer_product (u q) (u q))))
               (mscale (- 1) (outer_product x x)))
         (mscale (- real_of_int (r q')) (outer_product (u q') (u q')))"
    unfolding q'_def
    using uq shp(5) r0 rq c2 rr uu
    by (intro decrement_gram(1) [where d = d]) (simp_all add: q_def)
  have "gram (S_chol q') = gram (S_chol p)"
    unfolding g2 g1 using rr uu shp uq
      six_terms_cancel [of d "gram (S_chol p)" "outer_product (u p) (u p)"
        "outer_product (u q) (u q)" "outer_product x x" "real_of_int (r p)" 1 "real_of_int (r q)"]
    by (simp add: q'_def q_def is_mat_gram is_mat_outer)
  then show "gram (S_chol (decrement cu x (increment cu x p))) = gram (S_chol p)"
    by (simp add: q'_def q_def)
  show "is_chol (dim (priors p)) (S_chol (decrement cu x (increment cu x p)))"
    using decrement_gram(2) [of d q cu x] uq shp(5) r0 rq c2 rr uu
    by (simp add: q_def is_vec_def d_def)
qed




lemma gram_1d: "gram [[a]] = [[a * a]]"
  by (simp add: gram_def dot_def transpose_m_def)

lemma is_chol_1d: "is_chol (Suc 0) [[a]] \<longleftrightarrow> 0 < a"
  by (simp add: is_chol_def is_mat_def)

lemma meets_contract_1d:
  "0 < a\<^sup>2 + real_of_int s * b\<^sup>2 \<Longrightarrow> meets_contract cholesky_update_1d [[a]] [b] s"
  by (simp add: meets_contract_def cholesky_update_1d_def is_chol_1d gram_1d madd_def vadd_def
      mscale_def vscale_def outer_product_def power2_eq_square)

lemma ex_shapes: "shapes_ok example_posterior"
  by (simp add: shapes_ok_def example_posterior_def MultivariateNormalPriors_def eye_def zeros_def
      is_mat_def is_vec_def)

lemma ex_inv: "params_S example_posterior = direct_S example_posterior"
  by (simp add: params_S_def direct_S_def example_posterior_def MultivariateNormalPriors_def
      eye_def zeros_def dot_def transpose_m_def madd_def msub_def mscale_def vadd_def vsub_def
      vscale_def outer_product_def)

lemma ex_inc: "increment_meets_contract cholesky_update_1d [2] example_posterior"
  apply (simp add: increment_meets_contract_def Let_def example_posterior_def
      MultivariateNormalPriors_def zeros_def update_u_def update_r_def update_nu_def
      ss_increment_def vscale_def vadd_def vdiv_def)
  apply (simp add: cholesky_update_1d_def meets_contract_1d power_mult_distrib power_divide)
  done

lemma ex_dec: "decrement_meets_contract cholesky_update_1d [2] example_posterior"
  apply (simp add: decrement_meets_contract_def Let_def example_posterior_def
      MultivariateNormalPriors_def zeros_def update_u_def update_r_def update_nu_def
      ss_decrement_def vscale_def vadd_def vsub_def vdiv_def)
  apply (simp add: cholesky_update_1d_def meets_contract_1d power_mult_distrib power_divide)
  done




section \<open>Sampling, errors and the order of the result\<close>


lemma choice_error: "choice xs g = Inl e \<Longrightarrow> e = ValueError"
  by (auto simp: choice_def split: if_splits prod.splits)

lemma randint0_error: "randint0 n g = Inl e \<Longrightarrow> e = ValueError"
  by (auto simp: randint0_def split: if_splits prod.splits)

lemma choice_without_replacement_error: "choice_without_replacement n k g = Inl e \<Longrightarrow> e = ValueError"
  by (auto simp: choice_without_replacement_def split: if_splits prod.splits)

lemma choice_p_error: "choice_p ls p g = Inl e \<Longrightarrow> e = ValueError"
  by (auto simp: choice_p_def dest: choice_error split: if_splits)

lemma uniform_anchors_error: "uniform_anchors n k g = (Inl e, k', g') \<Longrightarrow> e = ValueError"
  by (auto simp: uniform_anchors_def dest: choice_without_replacement_error split: sum.splits)

lemma threshold_scores_error:
  "threshold_scores dst prior x c ps lp = (Some e, ps', lp') \<Longrightarrow> \<not> is_explicit e"
  by (induction ps arbitrary: lp ps' lp') (auto simp: Let_def split: option.splits prod.splits)

lemma threshold_set_error:
  "threshold_set_data_to_clusters i k = (Some e, k') \<Longrightarrow> \<not> is_explicit e"
  by (auto simp: threshold_set_data_to_clusters_def Let_def dest: threshold_scores_error
      split: option.splits prod.splits if_splits)

lemma threshold_pick_error:
  "threshold_pick a k g = (Inl e, k', g') \<Longrightarrow> \<not> is_explicit e"
  by (auto simp: threshold_pick_def Let_def
      dest: choice_error uniform_anchors_error
      split: option.splits prod.splits if_splits sum.splits)

lemma threshold_propose_two:
  "threshold_propose_anchors 2 k g = (Inl e, k', g') \<Longrightarrow> \<not> is_explicit e"
  by (auto simp: threshold_propose_anchors_def
      dest: randint0_error threshold_pick_error threshold_set_error
      split: option.splits prod.splits if_splits sum.splits)

lemma crp_scores_error:
  "crp_scores dst prior x c ps lp = Inl e \<Longrightarrow> \<not> is_explicit e"
  by (induction ps arbitrary: lp) (auto split: option.splits if_splits)

lemma crp_log_p_error:
  "crp_log_p dst prior x c ps = Inl e \<Longrightarrow> \<not> is_explicit e"
  by (auto simp: crp_log_p_def Let_def dest: crp_scores_error
      split: option.splits sum.splits if_splits)

lemma crp_set_error:
  "crp_set_data_to_clusters i k = (Some e, k') \<Longrightarrow> \<not> is_explicit e"
  by (auto simp: crp_set_data_to_clusters_def Let_def dest: crp_log_p_error
      split: option.splits prod.splits if_splits sum.splits)

lemma crp_pick_error:
  "crp_pick a k g = (Inl e, k', g') \<Longrightarrow> \<not> is_explicit e"
  by (auto simp: crp_pick_def Let_def
      dest: choice_error choice_p_error
      split: option.splits prod.splits if_splits sum.splits)

lemma crp_propose_two:
  "crp_propose_anchors 2 k g = (Inl e, k', g') \<Longrightarrow> \<not> is_explicit e"
  by (auto simp: crp_propose_anchors_def
      dest: randint0_error crp_pick_error crp_set_error
      split: option.splits prod.splits if_splits sum.splits)

lemma cluster_propose_two:
  "cluster_propose_anchors 2 k g = (Inl e, k', g') \<Longrightarrow> \<not> is_explicit e"
  by (auto simp: cluster_propose_anchors_def discrete_rvs_def Let_def
      dest: randint0_error choice_error choice_p_error uniform_anchors_error
      split: option.splits prod.splits if_splits sum.splits)

lemma point_fill_error:
  "point_fill pw sep i js row = (Some e, row') \<Longrightarrow> e = IndexError"
  by (induction js arbitrary: row) (auto split: if_splits)

lemma point_set_error:
  "point_set_data_to_clusters i k = (Some e, k') \<Longrightarrow> \<not> is_explicit e"
  by (auto simp: point_set_data_to_clusters_def Let_def dest: point_fill_error
      split: option.splits prod.splits if_splits)

lemma point_pick_error:
  "point_pick pc a row k g = (Inl e, k', g') \<Longrightarrow> \<not> is_explicit e"
  by (auto simp: point_pick_def Let_def dest: choice_error
      split: option.splits prod.splits if_splits sum.splits)

lemma point_propose_two:
  "point_propose_anchors pc 2 k g = (Inl e, k', g') \<Longrightarrow> \<not> is_explicit e"
  by (auto simp: point_propose_anchors_def
      dest: randint0_error point_pick_error point_set_error
      split: option.splits prod.splits if_splits sum.splits)





lemma shuffle_aux_mset:
  "length xs \<le> n \<Longrightarrow> mset (fst (shuffle_aux n xs g)) = mset xs"
proof (induction n arbitrary: xs g)
  case 0
  then show ?case by simp
next
  case (Suc n)
  show ?case
  proof (cases "xs = []")
    case True
    then show ?thesis by simp
  next
    case False
    obtain i g1 where d: "draw g = (i, g1)" by (cases "draw g")
    define j where "j = i mod length xs"
    have j: "j < length xs" using False by (simp add: j_def)
    define rest where "rest = take j xs @ drop (Suc j) xs"
    have len: "length rest \<le> n" using Suc.prems j by (simp add: rest_def)
    obtain ys g2 where r: "shuffle_aux n rest g1 = (ys, g2)" by (cases "shuffle_aux n rest g1")
    have "mset ys = mset rest" using Suc.IH [OF len, of g1] r by simp
    moreover have "mset xs = mset rest + {#xs ! j#}"
      using id_take_nth_drop [OF j] by (simp add: rest_def) (metis add_mset_add_single mset.simps(2) mset_append union_mset_add_mset_right)
    ultimately show ?thesis
      using False d r by (simp add: Let_def j_def rest_def)
  qed
qed

lemma shuffle_mset: "mset (fst (shuffle xs g)) = mset xs"
  by (simp add: shuffle_def shuffle_aux_mset)

lemma anchor_labels_Inr:
  "anchor_labels cs as = Inr ls \<Longrightarrow> (\<forall>a\<in>set as. a < length cs) \<and> ls = map (\<lambda>a. cs ! a) as"
  by (induction as arbitrary: ls) (auto split: if_splits sum.splits)

lemma remove_each_Inr:
  "remove_each as sigma = Inr sigma' \<Longrightarrow> distinct sigma \<Longrightarrow>
   distinct as \<and> set as \<subseteq> set sigma \<and> sigma' = filter (\<lambda>i. i \<notin> set as) sigma"
proof (induction as arbitrary: sigma)
  case Nil
  then show ?case by simp
next
  case (Cons x xs)
  from Cons.prems have x: "x \<in> set sigma" and r: "remove_each xs (remove1 x sigma) = Inr sigma'"
    by (auto split: if_splits)
  have d: "distinct (remove1 x sigma)" using Cons.prems(2) by simp
  have eq: "remove1 x sigma = filter (\<lambda>i. i \<noteq> x) sigma"
    using Cons.prems(2)
    by (simp add: distinct_remove1_removeAll removeAll_filter_not_eq) (rule filter_cong, auto)
  from Cons.IH [OF r d] have IH: "distinct xs" "set xs \<subseteq> set (remove1 x sigma)"
    "sigma' = filter (\<lambda>i. i \<notin> set xs) (remove1 x sigma)" by auto
  have "x \<notin> set xs" using IH(2) Cons.prems(2) by auto
  moreover have "sigma' = filter (\<lambda>i. i \<notin> set (x # xs)) sigma"
    using IH(3) by (simp add: eq conj_commute)
  ultimately show ?case using IH x Cons.prems(2) by auto
qed

lemma order_of_valid:
  assumes "order_of cs anchors g = Inr (order, g')"
  shows "valid_result cs anchors order"
proof -
  define sigma where
    "sigma = filter (\<lambda>i. cs ! i \<in> set (map (\<lambda>a. cs ! a) anchors)) [0..<length cs]"
  from assms obtain ls where ls: "anchor_labels cs anchors = Inr ls"
    by (auto simp: order_of_def split: sum.splits)
  then have a: "\<forall>a\<in>set anchors. a < length cs" and lsm: "ls = map (\<lambda>a. cs ! a) anchors"
    using anchor_labels_Inr by blast+
  from assms ls obtain sigma' where r: "remove_each anchors sigma = Inr sigma'"
    by (auto simp: order_of_def sigma_def lsm split: sum.splits)
  have ds: "distinct sigma" by (simp add: sigma_def)
  from remove_each_Inr [OF r ds] have da: "distinct anchors" and sub: "set anchors \<subseteq> set sigma"
    and s': "sigma' = filter (\<lambda>i. i \<notin> set anchors) sigma" by auto
  have o: "order = anchors @ fst (shuffle sigma' g)"
    using assms ls r by (auto simp: order_of_def sigma_def lsm split: sum.splits prod.splits)
  have m: "mset (fst (shuffle sigma' g)) = mset sigma'" by (rule shuffle_mset)
  then have st: "set (fst (shuffle sigma' g)) = set sigma'" by (rule mset_eq_setD)
  have dt: "distinct (fst (shuffle sigma' g))"
    using m ds s' by (metis distinct_filter mset_eq_imp_distinct_iff)
  have "distinct order" using o da dt st s' by auto
  moreover have "set order = {i. i < length cs \<and> cs ! i \<in> (\<lambda>a. cs ! a) ` set anchors}"
    using o st s' sub by (auto simp: sigma_def)
  ultimately show ?thesis
    using da a o by (auto simp: valid_result_def)
qed

lemma choice_without_replacement_Inr:
  assumes "choice_without_replacement n m g = Inr (as, g')"
  shows "int (length as) = m \<and> distinct as \<and> set as \<subseteq> {..<n}"
proof -
  define perm where "perm = fst (shuffle [0..<n] g)"
  have m: "0 \<le> m" "m \<le> int n"
    using assms by (simp_all add: choice_without_replacement_def split: if_splits)
  have as: "as = take (nat m) perm"
    using assms m by (simp add: choice_without_replacement_def perm_def split: prod.splits)
  have ms: "mset perm = mset [0..<n]" by (simp add: perm_def shuffle_mset)
  have "length perm = length [0..<n]" using ms by (rule mset_eq_length)
  then have l: "length perm = n" by simp
  have d: "distinct perm" using ms mset_eq_imp_distinct_iff [of perm "[0..<n]"] by simp
  have s: "set perm = {..<n}" using mset_eq_setD [OF ms] by (simp add: lessThan_atLeast0)
  have "int (length as) = m" using m l by (simp add: as)
  moreover have "distinct as" using d by (simp add: as)
  moreover have "set as \<subseteq> {..<n}" using s set_take_subset [of "nat m" perm] by (simp add: as)
  ultimately show ?thesis by simp
qed

lemma choice_without_replacement_total:
  "0 \<le> m \<Longrightarrow> m \<le> int n \<Longrightarrow> \<exists>as g'. choice_without_replacement n m g = Inr (as, g')"
  by (simp add: choice_without_replacement_def split: prod.splits)

lemma uniform_anchors_Inr:
  assumes "uniform_anchors m k g = (Inr as, k', g')"
  shows "int (length as) = m \<and> distinct as \<and> set as \<subseteq> {..<num_data_points k}"
proof -
  from assms have "choice_without_replacement (num_data_points k) m g = Inr (as, g')"
    by (simp add: uniform_anchors_def split: sum.splits prod.splits)
  then show ?thesis by (rule choice_without_replacement_Inr)
qed

lemma anchor_labels_total:
  "\<forall>a\<in>set as. a < length cs \<Longrightarrow> \<exists>ls. anchor_labels cs as = Inr ls"
  by (induction as) auto

lemma remove_each_total:
  "distinct as \<Longrightarrow> set as \<subseteq> set sigma \<Longrightarrow> \<exists>sigma'. remove_each as sigma = Inr sigma'"
proof (induction as arbitrary: sigma)
  case Nil
  then show ?case by simp
next
  case (Cons x xs)
  have "set xs \<subseteq> set (remove1 x sigma)"
  proof
    fix y assume y: "y \<in> set xs"
    then have "y \<noteq> x" "y \<in> set sigma" using Cons.prems by auto
    then show "y \<in> set (remove1 x sigma)" by (simp add: in_set_remove1)
  qed
  with Cons show ?case by auto
qed

lemma order_of_total:
  assumes "distinct as" "\<forall>a\<in>set as. a < length cs"
  shows "\<exists>order g'. order_of cs as g = Inr (order, g')"
proof -
  obtain ls where ls: "anchor_labels cs as = Inr ls"
    using anchor_labels_total [OF assms(2)] by blast
  then have lsm: "ls = map (\<lambda>a. cs ! a) as" using anchor_labels_Inr by blast
  have "set as \<subseteq> set (filter (\<lambda>i. cs ! i \<in> set ls) [0..<length cs])"
    using assms(2) by (auto simp: lsm)
  then obtain sigma' where "remove_each as (filter (\<lambda>i. cs ! i \<in> set ls) [0..<length cs]) = Inr sigma'"
    using remove_each_total [OF assms(1)] by blast
  then show ?thesis using ls by (auto simp: order_of_def split: prod.splits)
qed


lemma setup_split_merge_Inr:
  assumes "setup_split_merge cu up pr cs n k g = (Inr (anchors, order), k', g')"
  shows "\<exists>k3 k4 g1. pr (min n (int (length cs))) k3 g = (Inr anchors, k4, g1) \<and>
           valid_result cs anchors order"
  using assms
  by (auto simp: setup_split_merge_def Let_def dest: order_of_valid
      split: prod.splits option.splits sum.splits if_splits)

lemma threshold_pick_Inr:
  "threshold_pick a k g = (Inr as, k', g') \<Longrightarrow> length as = 2"
  by (auto simp: threshold_pick_def Let_def dest!: uniform_anchors_Inr
      split: option.splits prod.splits if_splits sum.splits)

lemma threshold_propose_Inr:
  "threshold_propose_anchors m k g = (Inr as, k', g') \<Longrightarrow> int (length as) = m"
  by (auto simp: threshold_propose_anchors_def dest!: threshold_pick_Inr
      split: option.splits prod.splits if_splits sum.splits)

lemma crp_pick_Inr:
  "crp_pick a k g = (Inr as, k', g') \<Longrightarrow> length as = 2"
  by (auto simp: crp_pick_def Let_def
      split: option.splits prod.splits if_splits sum.splits)

lemma crp_propose_Inr:
  "crp_propose_anchors m k g = (Inr as, k', g') \<Longrightarrow> int (length as) = m"
  by (auto simp: crp_propose_anchors_def dest!: crp_pick_Inr
      split: option.splits prod.splits if_splits sum.splits)

lemma cluster_propose_Inr:
  "cluster_propose_anchors m k g = (Inr as, k', g') \<Longrightarrow> int (length as) = m"
  by (auto simp: cluster_propose_anchors_def Let_def dest!: uniform_anchors_Inr
      split: option.splits prod.splits if_splits sum.splits)

lemma point_pick_Inr:
  "point_pick pc a row k g = (Inr as, k', g') \<Longrightarrow> length as = 2"
  by (auto simp: point_pick_def Let_def
      split: option.splits prod.splits if_splits sum.splits)

lemma point_propose_Inr:
  "point_propose_anchors pc m k g = (Inr as, k', g') \<Longrightarrow> int (length as) = m"
  by (auto simp: point_propose_anchors_def dest!: point_pick_Inr
      split: option.splits prod.splits if_splits sum.splits)

lemma uniform_setup_total:
  assumes "0 \<le> n" "length cs = num_data_points k"
  shows "\<exists>anchors order. fst (uniform_setup_split_merge cs n k g) = Inr (anchors, order)"
proof -
  let ?k1 = "k\<lparr>iter := iter k + 1\<rparr>"
  let ?m = "min n (int (length cs))"
  have "0 \<le> ?m" "?m \<le> int (num_data_points ?k1)" using assms by auto
  then obtain as g1 where c: "choice_without_replacement (num_data_points ?k1) ?m g = Inr (as, g1)"
    using choice_without_replacement_total by blast
  from choice_without_replacement_Inr [OF c] have "distinct as" "\<forall>a\<in>set as. a < length cs"
    using assms(2) by auto
  then obtain order g2 where "order_of cs as g1 = Inr (order, g2)"
    using order_of_total by blast
  then show ?thesis using c
    by (simp add: uniform_setup_split_merge_def setup_split_merge_def uniform_can_update_def
        base_update_def uniform_propose_anchors_def uniform_anchors_def Let_def)
qed



section \<open>The posterior of the multivariate normal model\<close>

subsection \<open>The closed-form marginal likelihood\<close>

lemma vsub_map_map: "vsub (map f xs) (map g xs) = map (\<lambda>k. f k - g k) xs"
  by (induction xs) (simp_all add: vsub_def)

lemma sum_list_diag: "sum_list (map ln (diag L)) = (\<Sum>i<length L. ln (L ! i ! i))"
  by (simp add: diag_def interv_sum_list_conv_sum_set_nat atLeast0LessThan)

text \<open>
  Claim C4. For every posterior, \<open>log_marginal_likelihood\<close> returns exactly
  \<open>-\<one>/\<two> N d log \<pi> + \<one>/\<two> d (log r\<^sub>0 - log r) + \<one>/\<two> (\<nu>\<^sub>0 log|S\<^sub>0| - \<nu> log|S|)
  + \<Sum>\<^bsub>k=1..d\<^esub> [lgamma((\<nu>+1-k)/2) - lgamma((\<nu>\<^sub>0+1-k)/2)]\<close>, where \<open>N\<close>, \<open>\<nu>\<close>, \<open>r\<close> are the
  posterior's current values and \<open>log|S|\<close> is twice the sum of the logarithms of the
  diagonal of its Cholesky factor.
\<close>

theorem log_marginal_likelihood_closed_form:
  "log_marginal_likelihood lgamma pri params = spec_log_marginal_likelihood lgamma pri params"
proof -
  have d: "set [1..<dim pri + 1] = {1..dim pri}"
    by auto
  have "sum_list (vsub
          (map lgamma (map (\<lambda>k. 0.5 * real_of_int (nu params + 1 - int k)) [1..<dim pri + 1]))
          (map lgamma (map (\<lambda>k. 0.5 * real_of_int (prior_nu pri + 1 - int k)) [1..<dim pri + 1])))
        = (\<Sum>k = 1..dim pri. lgamma ((real_of_int (nu params) + 1 - real k) / 2)
                          - lgamma ((real_of_int (prior_nu pri) + 1 - real k) / 2))"
    by (simp only: map_map vsub_map_map interv_sum_list_conv_sum_set_nat d)
       (simp add: comp_def)
  then show ?thesis
    by (simp add: log_marginal_likelihood_def spec_log_marginal_likelihood_def Let_def
        log_det_S_def sum_list_diag)
qed

subsection \<open>Maintaining the factor by rank-one operations\<close>

lemma increment_keeps_factor:
  assumes sh: "shapes_ok p" and x: "is_vec (dim (priors p)) x"
    and inv: "params_S p = direct_S p"
    and r0: "0 < r p" and r1: "0 < r (increment cu x p)"
    and c: "increment_meets_contract cu x p"
  shows "params_S (increment cu x p) = direct_S (increment cu x p)"
proof -
  define d where "d = dim (priors p)"
  define q where "q = increment cu x p"
  have shp: "is_mat d (prior_S (priors p))" "is_vec d (prior_u (priors p))"
    "is_vec d (ss_X (ss p))" "is_mat d (ss_S (ss p))" "is_vec d (u p)" "is_vec d x"
    using sh x by (simp_all add: shapes_ok_def Let_def d_def)
  have uq: "is_vec d (u q)"
    using shp by (simp add: q_def increment_fields vec_simps)
  have fq: "priors q = priors p" "ss_S (ss q) = madd (ss_S (ss p)) (outer_product x x)"
    by (simp_all add: q_def increment_fields ss_increment_def)
  have g: "gram (S_chol q) =
    madd (madd (madd (direct_S p)
                     (mscale (real_of_int (r p)) (outer_product (u p) (u p))))
               (mscale 1 (outer_product x x)))
         (mscale (- real_of_int (r q)) (outer_product (u q) (u q)))"
    using increment_gram(1) [of d p cu x] shp(5) uq r0 r1 c inv
    by (simp add: q_def params_S_def gram_def)
  have "gram (S_chol q) = direct_S q"
    unfolding g using shp uq
    by (intro mat_eqI [where d = d]) (simp_all add: direct_S_def fq mat_simps)
  then show ?thesis by (simp add: params_S_def gram_def q_def)
qed

lemma decrement_keeps_factor:
  assumes sh: "shapes_ok p" and x: "is_vec (dim (priors p)) x"
    and inv: "params_S p = direct_S p"
    and r0: "0 < r p" and r1: "0 < r (decrement cu x p)"
    and c: "decrement_meets_contract cu x p"
  shows "params_S (decrement cu x p) = direct_S (decrement cu x p)"
proof -
  define d where "d = dim (priors p)"
  define q where "q = decrement cu x p"
  have shp: "is_mat d (prior_S (priors p))" "is_vec d (prior_u (priors p))"
    "is_vec d (ss_X (ss p))" "is_mat d (ss_S (ss p))" "is_vec d (u p)" "is_vec d x"
    using sh x by (simp_all add: shapes_ok_def Let_def d_def)
  have uq: "is_vec d (u q)"
    using shp by (simp add: q_def decrement_fields vec_simps)
  have fq: "priors q = priors p" "ss_S (ss q) = msub (ss_S (ss p)) (outer_product x x)"
    by (simp_all add: q_def decrement_fields ss_decrement_def)
  have g: "gram (S_chol q) =
    madd (madd (madd (direct_S p)
                     (mscale (real_of_int (r p)) (outer_product (u p) (u p))))
               (mscale (- 1) (outer_product x x)))
         (mscale (- real_of_int (r q)) (outer_product (u q) (u q)))"
    using decrement_gram(1) [of d p cu x] shp(5) uq r0 r1 c inv
    by (simp add: q_def params_S_def gram_def)
  have "gram (S_chol q) = direct_S q"
    unfolding g using shp uq
    by (intro mat_eqI [where d = d]) (simp_all add: direct_S_def fq mat_simps)
  then show ?thesis by (simp add: params_S_def gram_def q_def)
qed

lemma consistent_increment: "consistent (increment cu x p)"
  by (simp add: consistent_def increment_def Let_def update_nu_def update_r_def update_u_def)

lemma consistent_decrement: "consistent (decrement cu x p)"
  by (simp add: consistent_def decrement_def Let_def update_nu_def update_r_def update_u_def)

text \<open>
  Claim C1. \<open>increment\<close> and \<open>decrement\<close> maintain the factor \<open>L\<close> by exactly three
  rank-one operations: an update with \<open>\<surd>r\<^sub>o\<^sub>l\<^sub>d u\<^sub>o\<^sub>l\<^sub>d\<close>, then (after the statistics are
  changed and \<open>\<nu>\<close>, \<open>r\<close>, \<open>u\<close> recomputed from them) an operation with \<open>x\<close> of sign \<open>+1\<close>
  for increment and \<open>-1\<close> for decrement, then a downdate with \<open>\<surd>r\<^sub>n\<^sub>e\<^sub>w u\<^sub>n\<^sub>e\<^sub>w\<close>. For a
  posterior whose factor satisfies \<open>L L\<^sup>T = S\<^sub>0 + S + r\<^sub>0 u\<^sub>0 u\<^sub>0\<^sup>T - r u u\<^sup>T\<close> and whose \<open>r\<close> is
  positive before and after, and provided the three calls of \<open>cholesky_update\<close> meet its
  contract, \<open>L L\<^sup>T\<close> afterwards equals the same expression computed from the new statistics.
\<close>

theorem rank_one_maintenance:
  assumes "shapes_ok p" and "is_vec (dim (priors p)) x"
    and "params_S p = direct_S p" and "0 < r p"
  shows "(increment_meets_contract cu x p \<and> 0 < r (increment cu x p) \<longrightarrow>
            S_chol (increment cu x p) =
              cu (cu (cu (S_chol p) (vscale (sqrt (real_of_int (r p))) (u p)) 1) x 1)
                 (vscale (sqrt (real_of_int (r (increment cu x p)))) (u (increment cu x p))) (- 1) \<and>
            ss (increment cu x p) = ss_increment x (ss p) \<and>
            consistent (increment cu x p) \<and>
            params_S (increment cu x p) = direct_S (increment cu x p)) \<and>
         (decrement_meets_contract cu x p \<and> 0 < r (decrement cu x p) \<longrightarrow>
            S_chol (decrement cu x p) =
              cu (cu (cu (S_chol p) (vscale (sqrt (real_of_int (r p))) (u p)) 1) x (- 1))
                 (vscale (sqrt (real_of_int (r (decrement cu x p)))) (u (decrement cu x p))) (- 1) \<and>
            ss (decrement cu x p) = ss_decrement x (ss p) \<and>
            consistent (decrement cu x p) \<and>
            params_S (decrement cu x p) = direct_S (decrement cu x p))"
  using assms increment_S_chol [of cu x p] decrement_S_chol [of cu x p]
    increment_keeps_factor [of p x cu] decrement_keeps_factor [of p x cu]
  by (simp add: increment_fields decrement_fields consistent_increment consistent_decrement)

lemma ex_r_increment: "r (increment cholesky_update_1d [2] example_posterior) = 3"
  by (simp add: increment_fields example_posterior_def MultivariateNormalPriors_def)

lemma ex_r_decrement: "r (decrement cholesky_update_1d [2] example_posterior) = 1"
  by (simp add: decrement_fields example_posterior_def MultivariateNormalPriors_def)

lemma ex_dim: "dim (priors example_posterior) = 1" "r example_posterior = 2"
  by (simp_all add: example_posterior_def MultivariateNormalPriors_def)

theorem rank_one_maintenance_witness:
  "shapes_ok example_posterior \<and> is_vec (dim (priors example_posterior)) [2] \<and>
   params_S example_posterior = direct_S example_posterior \<and> 0 < r example_posterior \<and>
   increment_meets_contract cholesky_update_1d [2] example_posterior \<and>
   0 < r (increment cholesky_update_1d [2] example_posterior) \<and>
   decrement_meets_contract cholesky_update_1d [2] example_posterior \<and>
   0 < r (decrement cholesky_update_1d [2] example_posterior) \<and>
   params_S (increment cholesky_update_1d [2] example_posterior)
     = direct_S (increment cholesky_update_1d [2] example_posterior) \<and>
   params_S (decrement cholesky_update_1d [2] example_posterior)
     = direct_S (decrement cholesky_update_1d [2] example_posterior)"
proof -
  have v: "is_vec (dim (priors example_posterior)) [2]"
    by (simp add: ex_dim is_vec_def)
  have rp: "0 < r example_posterior"
    by (simp add: ex_dim)
  show ?thesis
    using rank_one_maintenance [OF ex_shapes v ex_inv rp, of cholesky_update_1d]
      ex_shapes v ex_inv rp ex_inc ex_dec
    by (simp add: ex_r_increment ex_r_decrement)
qed

subsection \<open>Adding and removing the same point\<close>

text \<open>
  Claim C3. For a posterior \<open>P\<close> (its arrays of the shapes of its dimension, its derived
  fields consistent with its statistics, its \<open>r\<close> positive) and a point \<open>x\<close>,
  \<open>increment\<close> followed by \<open>decrement\<close> of the same \<open>x\<close> restores the sufficient statistics
  \<open>N\<close>, \<open>X\<close>, \<open>S\<close> and the scale matrix \<open>L L\<^sup>T\<close> exactly over the reals, provided the six
  calls of \<open>cholesky_update\<close> meet its contract.
\<close>

theorem increment_decrement_round_trip:
  assumes "shapes_ok p" and "is_vec (dim (priors p)) x" and "consistent p" and "0 < r p"
    and "increment_meets_contract cu x p"
    and "decrement_meets_contract cu x (increment cu x p)"
  shows "ss_N (ss (decrement cu x (increment cu x p))) = ss_N (ss p) \<and>
         ss_X (ss (decrement cu x (increment cu x p))) = ss_X (ss p) \<and>
         ss_S (ss (decrement cu x (increment cu x p))) = ss_S (ss p) \<and>
         params_S (decrement cu x (increment cu x p)) = params_S p"
  using increment_then_decrement(1,2) [OF assms]
  by (simp add: params_S_def gram_def)

lemma ex_consistent: "consistent example_posterior"
  by (simp add: consistent_def example_posterior_def MultivariateNormalPriors_def zeros_def
      update_u_def update_r_def update_nu_def vscale_def vadd_def vdiv_def)

lemma ex_inc_dec:
  "decrement_meets_contract cholesky_update_1d [2]
     (increment cholesky_update_1d [2] example_posterior)"
  apply (simp add: decrement_meets_contract_def increment_def Let_def example_posterior_def
      MultivariateNormalPriors_def zeros_def update_u_def update_r_def update_nu_def
      ss_decrement_def ss_increment_def vscale_def vadd_def vsub_def vdiv_def)
  apply (simp add: cholesky_update_1d_def meets_contract_1d power_mult_distrib power_divide)
  done

theorem increment_decrement_round_trip_witness:
  "shapes_ok example_posterior \<and> is_vec (dim (priors example_posterior)) [2] \<and>
   consistent example_posterior \<and> 0 < r example_posterior \<and>
   increment_meets_contract cholesky_update_1d [2] example_posterior \<and>
   decrement_meets_contract cholesky_update_1d [2]
     (increment cholesky_update_1d [2] example_posterior) \<and>
   ss (decrement cholesky_update_1d [2] (increment cholesky_update_1d [2] example_posterior))
     = \<lparr>ss_N = 1, ss_X = [2], ss_S = [[4]]\<rparr> \<and>
   params_S (decrement cholesky_update_1d [2] (increment cholesky_update_1d [2] example_posterior))
     = [[3]]"
proof -
  have v: "is_vec (dim (priors example_posterior)) [2]"
    by (simp add: ex_dim is_vec_def)
  have rp: "0 < r example_posterior"
    by (simp add: ex_dim)
  have s: "ss example_posterior = \<lparr>ss_N = 1, ss_X = [2], ss_S = [[4]]\<rparr>"
    "params_S example_posterior = [[3]]"
    by (simp_all add: example_posterior_def params_S_def dot_def transpose_m_def)
  have e: "ss (decrement cholesky_update_1d [2] (increment cholesky_update_1d [2] example_posterior))
      = ss example_posterior"
    using increment_decrement_round_trip [OF ex_shapes v ex_consistent rp ex_inc ex_inc_dec]
    by (intro sufficient_statistics.equality) (simp_all add: decrement_fields increment_fields ss_increment_def ss_decrement_def)
  show ?thesis
    using increment_decrement_round_trip [OF ex_shapes v ex_consistent rp ex_inc ex_inc_dec]
      ex_shapes v ex_consistent rp ex_inc ex_inc_dec e s
    by simp
qed


section \<open>The setup kernels\<close>


subsection \<open>The number of anchors a strategy accepts\<close>

lemma explicit_iff: "is_explicit e \<longleftrightarrow> (\<exists>msg. e = Exception msg)"
  by (cases e) simp_all

lemma threshold_explicit_iff:
  "(\<exists>msg. fst (threshold_propose_anchors n k g) = Inl (Exception msg)) \<longleftrightarrow> n \<noteq> 2"
proof
  assume "\<exists>msg. fst (threshold_propose_anchors n k g) = Inl (Exception msg)"
  then obtain msg k' g' where r: "threshold_propose_anchors n k g = (Inl (Exception msg), k', g')"
    by (cases "threshold_propose_anchors n k g") auto
  show "n \<noteq> 2"
  proof
    assume "n = 2"
    with r threshold_propose_two [of k g "Exception msg" k' g'] show False by simp
  qed
next
  assume "n \<noteq> 2"
  then show "\<exists>msg. fst (threshold_propose_anchors n k g) = Inl (Exception msg)"
    by (simp add: threshold_propose_anchors_def)
qed

lemma crp_explicit_iff:
  "(\<exists>msg. fst (crp_propose_anchors n k g) = Inl (Exception msg)) \<longleftrightarrow> n \<noteq> 2"
proof
  assume "\<exists>msg. fst (crp_propose_anchors n k g) = Inl (Exception msg)"
  then obtain msg k' g' where r: "crp_propose_anchors n k g = (Inl (Exception msg), k', g')"
    by (cases "crp_propose_anchors n k g") auto
  show "n \<noteq> 2"
  proof
    assume "n = 2"
    with r crp_propose_two [of k g "Exception msg" k' g'] show False by simp
  qed
next
  assume "n \<noteq> 2"
  then show "\<exists>msg. fst (crp_propose_anchors n k g) = Inl (Exception msg)"
    by (simp add: crp_propose_anchors_def)
qed

lemma cluster_explicit_iff:
  "(\<exists>msg. fst (cluster_propose_anchors n k g) = Inl (Exception msg)) \<longleftrightarrow> n \<noteq> 2"
proof
  assume "\<exists>msg. fst (cluster_propose_anchors n k g) = Inl (Exception msg)"
  then obtain msg k' g' where r: "cluster_propose_anchors n k g = (Inl (Exception msg), k', g')"
    by (cases "cluster_propose_anchors n k g") auto
  show "n \<noteq> 2"
  proof
    assume "n = 2"
    with r cluster_propose_two [of k g "Exception msg" k' g'] show False by simp
  qed
next
  assume "n \<noteq> 2"
  then show "\<exists>msg. fst (cluster_propose_anchors n k g) = Inl (Exception msg)"
    by (simp add: cluster_propose_anchors_def)
qed

lemma point_explicit_iff:
  "(\<exists>msg. fst (point_propose_anchors pc n k g) = Inl (Exception msg)) \<longleftrightarrow> n \<noteq> 2"
proof
  assume "\<exists>msg. fst (point_propose_anchors pc n k g) = Inl (Exception msg)"
  then obtain msg k' g' where r: "point_propose_anchors pc n k g = (Inl (Exception msg), k', g')"
    by (cases "point_propose_anchors pc n k g") auto
  show "n \<noteq> 2"
  proof
    assume "n = 2"
    with r point_propose_two [of pc k g "Exception msg" k' g'] show False by simp
  qed
next
  assume "n \<noteq> 2"
  then show "\<exists>msg. fst (point_propose_anchors pc n k g) = Inl (Exception msg)"
    by (simp add: point_propose_anchors_def)
qed

lemma uniform_propose_accepts:
  assumes "0 \<le> n" "n \<le> int (num_data_points k)"
  shows "\<exists>as. fst (uniform_propose_anchors n k g) = Inr as \<and> int (length as) = n \<and>
              distinct as \<and> set as \<subseteq> {..<num_data_points k}"
proof -
  obtain as g' where c: "choice_without_replacement (num_data_points k) n g = Inr (as, g')"
    using choice_without_replacement_total [OF assms] by blast
  then have "fst (uniform_propose_anchors n k g) = Inr as"
    by (simp add: uniform_propose_anchors_def uniform_anchors_def)
  with choice_without_replacement_Inr [OF c] show ?thesis by blast
qed

lemma setup_split_merge_clamps:
  "setup_split_merge cu up pr cs n k g
   = setup_split_merge cu up pr cs (min n (int (length cs))) k g"
proof -
  have m: "min (min n (int (length cs))) (int (length cs)) = min n (int (length cs))"
    by simp
  show ?thesis
    unfolding setup_split_merge_def Let_def m ..
qed

text \<open>
  Claim C9. Each of the four informed strategies raises its explicit exception from
  \<open>_propose_anchors\<close> if and only if the requested number of anchors differs from 2 (with
  2 anchors it returns or fails with an exception of the operations it calls, never with
  its own). The uniform strategy accepts every number of anchors from 0 up to the size of
  the data set and returns that many distinct positions. \<open>setup_split_merge\<close> clamps the
  requested number to the length of the clustering before it delegates: its result for
  \<open>n\<close> is its result for \<open>min n (len clustering)\<close>.
\<close>

theorem propose_anchors_anchor_count:
  "((\<exists>msg. fst (threshold_propose_anchors na ka ga) = Inl (Exception msg)) \<longleftrightarrow> na \<noteq> 2) \<and>
   ((\<exists>msg. fst (crp_propose_anchors nb kb gb) = Inl (Exception msg)) \<longleftrightarrow> nb \<noteq> 2) \<and>
   ((\<exists>msg. fst (cluster_propose_anchors nc kc gc) = Inl (Exception msg)) \<longleftrightarrow> nc \<noteq> 2) \<and>
   ((\<exists>msg. fst (point_propose_anchors pc nd kd gd) = Inl (Exception msg)) \<longleftrightarrow> nd \<noteq> 2) \<and>
   (0 \<le> ne \<and> ne \<le> int (num_data_points ke) \<longrightarrow>
      (\<exists>as. fst (uniform_propose_anchors ne ke ge) = Inr as \<and> int (length as) = ne \<and>
            distinct as \<and> set as \<subseteq> {..<num_data_points ke})) \<and>
   setup_split_merge cu up pr cs n k g
     = setup_split_merge cu up pr cs (min n (int (length cs))) k g"
  using threshold_explicit_iff [of na ka ga] crp_explicit_iff [of nb kb gb]
    cluster_explicit_iff [of nc kc gc] point_explicit_iff [of pc nd kd gd]
    uniform_propose_accepts [of ne ke ge] setup_split_merge_clamps [of cu up pr cs n k g]
  by blast

theorem propose_anchors_anchor_count_witness:
  "(0::int) \<le> 2 \<and>
   2 \<le> int (num_data_points (SplitMergeSetupKernel example_data flat_model flat_prior \<infinity>)) \<and>
   (\<exists>as. fst (uniform_propose_anchors 2
             (SplitMergeSetupKernel example_data flat_model flat_prior \<infinity>) example_rng) = Inr as \<and>
         int (length as) = 2 \<and> distinct as \<and> set as \<subseteq> {..<4}) \<and>
   (\<exists>msg. fst (threshold_propose_anchors 3
       (ThresholdInformedSplitMergeSetupKernel example_data flat_model flat_prior \<infinity> (1 / 100))
       example_rng) = Inl (Exception msg))"
proof -
  have n: "num_data_points (SplitMergeSetupKernel example_data flat_model flat_prior \<infinity>) = 4"
    by (simp add: SplitMergeSetupKernel_def example_data_def)
  note t = propose_anchors_anchor_count [THEN conjunct1, of 3
      "ThresholdInformedSplitMergeSetupKernel example_data flat_model flat_prior \<infinity> (1 / 100)"
      example_rng]
  note v = propose_anchors_anchor_count [THEN conjunct2, THEN conjunct2, THEN conjunct2,
      THEN conjunct2, THEN conjunct1, of 2
      "SplitMergeSetupKernel example_data flat_model flat_prior \<infinity>" example_rng]
  show ?thesis
    using t v by (simp add: n)
qed

subsection \<open>The result of \<open>setup_split_merge\<close>\<close>

lemma five_strategies_valid:
  assumes "fst (uniform_setup_split_merge cs n ku gu) = Inr (anchors, order) \<or>
           fst (threshold_setup_split_merge cs n kt gt) = Inr (anchors, order) \<or>
           fst (crp_setup_split_merge cs n kc gc) = Inr (anchors, order) \<or>
           fst (cluster_setup_split_merge cs n ki gi) = Inr (anchors, order) \<or>
           fst (point_setup_split_merge pc cs n kp gp) = Inr (anchors, order)"
  shows "int (length anchors) = min n (int (length cs)) \<and> valid_result cs anchors order"
  using assms
proof (elim disjE)
  assume "fst (uniform_setup_split_merge cs n ku gu) = Inr (anchors, order)"
  then obtain k' g' where "setup_split_merge uniform_can_update base_update uniform_propose_anchors
      cs n ku gu = (Inr (anchors, order), k', g')"
    unfolding uniform_setup_split_merge_def by (metis prod.collapse)
  from setup_split_merge_Inr [OF this] show ?thesis
    by (auto simp: uniform_propose_anchors_def dest!: uniform_anchors_Inr)
next
  assume "fst (threshold_setup_split_merge cs n kt gt) = Inr (anchors, order)"
  then obtain k' g' where "setup_split_merge adaptive_can_update informed_update
      threshold_propose_anchors cs n kt gt = (Inr (anchors, order), k', g')"
    unfolding threshold_setup_split_merge_def by (metis prod.collapse)
  from setup_split_merge_Inr [OF this] show ?thesis
    by (auto dest!: threshold_propose_Inr)
next
  assume "fst (crp_setup_split_merge cs n kc gc) = Inr (anchors, order)"
  then obtain k' g' where "setup_split_merge adaptive_can_update informed_update
      crp_propose_anchors cs n kc gc = (Inr (anchors, order), k', g')"
    unfolding crp_setup_split_merge_def by (metis prod.collapse)
  from setup_split_merge_Inr [OF this] show ?thesis
    by (auto dest!: crp_propose_Inr)
next
  assume "fst (cluster_setup_split_merge cs n ki gi) = Inr (anchors, order)"
  then obtain k' g' where "setup_split_merge adaptive_can_update cluster_update
      cluster_propose_anchors cs n ki gi = (Inr (anchors, order), k', g')"
    unfolding cluster_setup_split_merge_def by (metis prod.collapse)
  from setup_split_merge_Inr [OF this] show ?thesis
    by (auto dest!: cluster_propose_Inr)
next
  assume "fst (point_setup_split_merge pc cs n kp gp) = Inr (anchors, order)"
  then obtain k' g' where "setup_split_merge point_can_update point_update
      (point_propose_anchors pc) cs n kp gp = (Inr (anchors, order), k', g')"
    unfolding point_setup_split_merge_def by (metis prod.collapse)
  from setup_split_merge_Inr [OF this] show ?thesis
    by (auto dest!: point_propose_Inr)
qed

text \<open>
  Claim C2, amended. Whenever \<open>setup_split_merge\<close> returns, for any of the five
  strategies, it returns exactly \<open>min numAnchors (len clustering)\<close> distinct anchors, and
  the order consists of the anchors, in order, at the front, followed by every other
  position that belongs to a cluster of the clustering of this call containing an anchor,
  with no duplicates and no omissions. With the uniform strategy it returns for every
  non-negative number of anchors and every clustering as long as the data set. (It does
  not always return: an informed strategy raises unless the clamped number is 2, as the
  counterexample shows.)
\<close>

theorem setup_split_merge_result:
  "(fst (uniform_setup_split_merge cs n ku gu) = Inr (anchors, order) \<or>
    fst (threshold_setup_split_merge cs n kt gt) = Inr (anchors, order) \<or>
    fst (crp_setup_split_merge cs n kc gc) = Inr (anchors, order) \<or>
    fst (cluster_setup_split_merge cs n ki gi) = Inr (anchors, order) \<or>
    fst (point_setup_split_merge pc cs n kp gp) = Inr (anchors, order) \<longrightarrow>
      int (length anchors) = min n (int (length cs)) \<and> valid_result cs anchors order) \<and>
   (0 \<le> n \<and> length cs = num_data_points ku \<longrightarrow>
      (\<exists>as ord. fst (uniform_setup_split_merge cs n ku gu) = Inr (as, ord)))"
  using five_strategies_valid [of cs n ku gu anchors order kt gt kc gc ki gi pc kp gp]
    uniform_setup_total [of n cs ku gu]
  by blast

theorem setup_split_merge_always_counterexample:
  "fst (threshold_setup_split_merge [0, 0, 1, 1] 3
          (ThresholdInformedSplitMergeSetupKernel example_data flat_model flat_prior \<infinity> (1 / 100))
          example_rng)
   = Inl (Exception ''ThresholdInformedSplitMergeSetupKernel only works for 2 anchors'')"
  by (simp add: threshold_setup_split_merge_def setup_split_merge_def adaptive_can_update_def
      informed_update_def threshold_propose_anchors_def
      ThresholdInformedSplitMergeSetupKernel_def example_data_def np_unique_def Let_def)

lemma uniform_example:
  "fst (uniform_setup_split_merge [0, 1, 0, 1] 2
          (SplitMergeSetupKernel example_data flat_model flat_prior \<infinity>) example_rng)
   = Inr ([1, 0], [1, 0, 2, 3])"
  by code_simp

theorem setup_split_merge_result_witness:
  "fst (uniform_setup_split_merge [0, 1, 0, 1] 2
          (SplitMergeSetupKernel example_data flat_model flat_prior \<infinity>) example_rng)
     = Inr ([1, 0], [1, 0, 2, 3]) \<and>
   int (length [1, 0 :: nat]) = min 2 (int (length [0, 1, 0, 1 :: int])) \<and>
   valid_result [0, 1, 0, 1] [1, 0] [1, 0, 2, 3] \<and>
   (0 :: int) \<le> 2 \<and>
   length [0, 1, 0, 1 :: int]
     = num_data_points (SplitMergeSetupKernel example_data flat_model flat_prior \<infinity>) \<and>
   (\<exists>as ord. fst (uniform_setup_split_merge [0, 1, 0, 1] 2
          (SplitMergeSetupKernel example_data flat_model flat_prior \<infinity>) example_rng)
     = Inr (as, ord))"
proof -
  have n: "length [0, 1, 0, 1 :: int]
      = num_data_points (SplitMergeSetupKernel example_data flat_model flat_prior \<infinity>)"
    by (simp add: SplitMergeSetupKernel_def example_data_def)
  note r = setup_split_merge_result [of "[0, 1, 0, 1]" 2
      "SplitMergeSetupKernel example_data flat_model flat_prior \<infinity>" example_rng
      "[1, 0]" "[1, 0, 2, 3]"]
  have "int (length [1, 0 :: nat]) = min 2 (int (length [0, 1, 0, 1 :: int])) \<and>
        valid_result [0, 1, 0, 1] [1, 0] [1, 0, 2, 3]"
    using r [THEN conjunct1] uniform_example by blast
  moreover have "\<exists>as ord. fst (uniform_setup_split_merge [0, 1, 0, 1] 2
          (SplitMergeSetupKernel example_data flat_model flat_prior \<infinity>) example_rng)
     = Inr (as, ord)"
    using r [THEN conjunct2] n by simp
  ultimately show ?thesis
    using uniform_example n by simp
qed



subsection \<open>When the cluster parameter store is rebuilt\<close>

lemma uniform_anchors_kernel: "fst (snd (uniform_anchors n k g)) = k"
  by (simp add: uniform_anchors_def split: sum.splits prod.splits)

lemma threshold_pick_kernel: "fst (snd (threshold_pick a k g)) = k"
  by (simp add: threshold_pick_def Let_def uniform_anchors_kernel
      split: option.splits sum.splits prod.splits)

lemma threshold_set_control:
  "control (snd (threshold_set_data_to_clusters i k)) = control k"
  by (simp add: threshold_set_data_to_clusters_def Let_def control_def
      split: option.splits prod.splits)

lemma threshold_propose_control:
  "control (fst (snd (threshold_propose_anchors n k g))) = control k"
proof -
  have "control (fst (snd (threshold_pick a (snd (threshold_set_data_to_clusters a k)) g')))
        = control k" for a g'
    by (simp add: threshold_pick_kernel threshold_set_control)
  then show ?thesis
    by (simp add: threshold_propose_anchors_def threshold_pick_kernel
        split: option.splits sum.splits prod.splits)
       (metis snd_conv threshold_set_control)
qed

lemma crp_pick_kernel: "fst (snd (crp_pick a k g)) = k"
  by (simp add: crp_pick_def split: option.splits sum.splits prod.splits)

lemma crp_set_control:
  "control (snd (crp_set_data_to_clusters i k)) = control k"
  by (simp add: crp_set_data_to_clusters_def Let_def control_def
      split: option.splits prod.splits sum.splits)

lemma crp_propose_control:
  "control (fst (snd (crp_propose_anchors n k g))) = control k"
  by (simp add: crp_propose_anchors_def crp_pick_kernel
      split: option.splits sum.splits prod.splits)
     (metis snd_conv crp_set_control)

lemma cluster_propose_control:
  "control (fst (snd (cluster_propose_anchors n k g))) = control k"
  by (simp add: cluster_propose_anchors_def Let_def uniform_anchors_kernel
      split: option.splits sum.splits prod.splits)

lemma informed_update_control: "control (snd (informed_update cs k)) = control k"
  by (simp add: informed_update_def Let_def control_def)

lemma cluster_update_control: "control (snd (cluster_update cs k)) = control k"
  by (simp add: cluster_update_def Let_def control_def split: prod.splits option.splits)

lemma adaptive_can_update_control:
  "control (snd (adaptive_can_update cs k)) =
     (iter k, num_adaptation_iters k,
      if fst (adaptive_can_update cs k) then length (np_unique cs) else max_clusters_seen k)"
  by (simp add: adaptive_can_update_def Let_def control_def)

lemma adaptive_can_update_flag:
  "fst (adaptive_can_update cs k) \<longleftrightarrow>
     length (np_unique cs) > max_clusters_seen k \<and> enat (iter k) \<le> num_adaptation_iters k"
  by (simp add: adaptive_can_update_def Let_def)

lemma length_np_unique: "length (np_unique cs) = num_distinct cs"
  by (simp add: np_unique_def num_distinct_def length_remdups_card_conv)

text \<open>The control fields after one call, for methods that leave them alone.\<close>

lemma setup_split_merge_control:
  assumes up: "\<And>cs k. control (snd (up cs k)) = control k"
    and pr: "\<And>n k g. control (fst (snd (pr n k g))) = control k"
  shows "control (fst (snd (setup_split_merge adaptive_can_update up pr cs n k g)))
         = control (snd (adaptive_can_update cs (k\<lparr>iter := iter k + 1\<rparr>)))"
proof -
  define k1 where "k1 = k\<lparr>iter := iter k + 1\<rparr>"
  obtain b k2 where c: "adaptive_can_update cs k1 = (b, k2)"
    by (cases "adaptive_can_update cs k1")
  obtain e k3 where u: "(if b then up cs k2 else (None, k2)) = (e, k3)"
    by (cases "if b then up cs k2 else (None, k2)")
  have k3: "control k3 = control k2"
    using u up [of cs k2] by (auto split: if_splits)
  show ?thesis
  proof (cases e)
    case (Some err)
    then show ?thesis
      using c u k3 unfolding k1_def by (simp add: setup_split_merge_def Let_def)
  next
    case None
    obtain r k4 g1 where p: "pr (min n (int (length cs))) k3 g = (r, k4, g1)"
      by (cases "pr (min n (int (length cs))) k3 g")
    have k4: "control k4 = control k3" using pr [of "min n (int (length cs))" k3 g] p by simp
    show ?thesis
      using c u None p k3 k4 unfolding k1_def
      by (simp add: setup_split_merge_def Let_def split: sum.splits prod.splits)
  qed
qed

lemma run_calls_append:
  "run_calls f (xs @ ys) k g = (case run_calls f xs k g of (k', g') \<Rightarrow> run_calls f ys k' g')"
  by (induction xs arbitrary: k g) (auto split: prod.splits)

lemma run_calls_control:
  assumes P: "\<And>cs n k g. control (fst (snd (f cs n k g)))
                 = control (snd (adaptive_can_update cs (k\<lparr>iter := iter k + 1\<rparr>)))"
  shows "control (fst (run_calls f calls k g))
         = (iter k + length calls, num_adaptation_iters k,
            recorded_max (num_adaptation_iters k) (iter k) (max_clusters_seen k) calls)"
proof (induction calls arbitrary: k g)
  case Nil
  then show ?case by (simp add: control_def)
next
  case (Cons c calls)
  obtain cs n where c: "c = (cs, n)" by (cases c)
  obtain res k' g' where f: "f cs n k g = (res, k', g')" by (cases "f cs n k g")
  have "control k' = control (snd (adaptive_can_update cs (k\<lparr>iter := iter k + 1\<rparr>)))"
    using P [of cs n k g] f by simp
  also have "\<dots> = (Suc (iter k), num_adaptation_iters k,
       if max_clusters_seen k < num_distinct cs \<and> enat (Suc (iter k)) \<le> num_adaptation_iters k
       then num_distinct cs else max_clusters_seen k)"
    by (simp add: adaptive_can_update_control adaptive_can_update_flag length_np_unique)
  finally have k': "iter k' = Suc (iter k)" "num_adaptation_iters k' = num_adaptation_iters k"
    "max_clusters_seen k' =
       (if max_clusters_seen k < num_distinct cs \<and> enat (Suc (iter k)) \<le> num_adaptation_iters k
        then num_distinct cs else max_clusters_seen k)"
    by (simp_all add: control_def)
  show ?case
    using Cons.IH [of k' g'] by (simp add: c f k')
qed

lemma Max_set_Cons2: "Max (set (m # c # xs)) = Max (set (max m c # xs :: nat list))"
  by (cases "xs = []") (simp_all add: max.assoc)

lemma recorded_max_within_budget:
  "enat (t + length calls) \<le> b \<Longrightarrow>
   recorded_max b t m calls = Max (set (m # map (\<lambda>c. num_distinct (fst c)) calls))"
proof (induction calls arbitrary: t m)
  case Nil
  then show ?case by simp
next
  case (Cons c calls)
  obtain cs n where c: "c = (cs, n)" by (cases c)
  have "enat (Suc t) \<le> enat (t + length (c # calls))" by simp
  then have b1: "enat (Suc t) \<le> b" using Cons.prems by (rule order_trans)
  have b2: "enat (Suc t + length calls) \<le> b" using Cons.prems by simp
  have m: "(if m < num_distinct cs then num_distinct cs else m) = max m (num_distinct cs)"
    by (simp add: max_def)
  have "recorded_max b t m (c # calls)
        = recorded_max b (Suc t) (max m (num_distinct cs)) calls"
    using b1 by (simp add: c m)
  also have "\<dots> = Max (set (max m (num_distinct cs) # map (\<lambda>c. num_distinct (fst c)) calls))"
    by (rule Cons.IH [OF b2])
  also have "\<dots> = Max (set (m # map (\<lambda>c. num_distinct (fst c)) (c # calls)))"
    by (simp only: list.map c fst_conv Max_set_Cons2)
  finally show ?case .
qed

lemma cluster_propose_kernel: "fst (snd (cluster_propose_anchors n k g)) = k"
  by (simp add: cluster_propose_anchors_def Let_def uniform_anchors_kernel
      split: option.splits sum.splits prod.splits)

text \<open>Proposing anchors keeps the store; scoring an anchor adds its entry to the cache.\<close>

lemma kept_store_refl: "kept_store k k"
  by (auto simp: kept_store_def split: option.splits)

lemma kept_store_cong: "store k1 = store k2 \<Longrightarrow> kept_store k1 k' = kept_store k2 k'"
  by (simp add: kept_store_def)

lemma threshold_scores_keys:
  "threshold_scores dst prior x c ps lp = (e, ps', lp') \<Longrightarrow> map fst ps' = map fst ps"
  by (induction ps arbitrary: lp e ps' lp')
     (auto simp: Let_def split: option.splits prod.splits)

lemma threshold_set_kept:
  assumes "\<And>st. store k = Some st \<Longrightarrow> data_to_clusters st i = None"
  shows "kept_store k (snd (threshold_set_data_to_clusters i k))"
proof (cases "store k")
  case None
  then show ?thesis by (simp add: threshold_set_data_to_clusters_def kept_store_def)
next
  case (Some st)
  have c: "data_to_clusters st i = None" using assms Some by simp
  obtain e ps' lp' where t: "threshold_scores (dist k) (log_tau_2 k) (data k ! i)
      (clustering st ! i) (cluster_params st) (replicate (length (cluster_params st)) (Fin 0))
      = (e, ps', lp')"
    by (cases "threshold_scores (dist k) (log_tau_2 k) (data k ! i)
      (clustering st ! i) (cluster_params st) (replicate (length (cluster_params st)) (Fin 0))")
  have keys: "map fst ps' = map fst (cluster_params st)"
    using t by (rule threshold_scores_keys)
  show ?thesis
    using Some c t keys
    by (auto simp: threshold_set_data_to_clusters_def kept_store_def store_frame_def Let_def
        map_le_def split: option.splits)
qed

lemma threshold_propose_kept:
  "kept_store k (fst (snd (threshold_propose_anchors n k g)))"
proof (cases "n = 2")
  case False
  then show ?thesis by (simp add: threshold_propose_anchors_def kept_store_refl)
next
  case True
  show ?thesis
  proof (cases "randint0 (num_data_points k) g")
    case (Inl e)
    then show ?thesis using True by (simp add: threshold_propose_anchors_def kept_store_refl)
  next
    case (Inr ag)
    obtain a g1 where ag: "ag = (a, g1)" by (cases ag)
    show ?thesis
    proof (cases "store k")
      case None
      then show ?thesis
        using True Inr ag by (simp add: threshold_propose_anchors_def kept_store_refl)
    next
      case (Some st)
      show ?thesis
      proof (cases "data_to_clusters st a")
        case (Some kept)
        then show ?thesis
          using True Inr ag \<open>store k = Some st\<close>
          by (simp add: threshold_propose_anchors_def threshold_pick_kernel kept_store_refl)
      next
        case None
        obtain e k1 where s: "threshold_set_data_to_clusters a k = (e, k1)"
          by (cases "threshold_set_data_to_clusters a k")
        have "kept_store k k1"
          using threshold_set_kept [of k a] None \<open>store k = Some st\<close> s by simp
        then show ?thesis
          using True Inr ag \<open>store k = Some st\<close> None s
          by (cases e) (simp_all add: threshold_propose_anchors_def threshold_pick_kernel)
      qed
    qed
  qed
qed

lemma crp_set_kept:
  assumes "\<And>st. store k = Some st \<Longrightarrow> data_to_clusters st i = None"
  shows "kept_store k (snd (crp_set_data_to_clusters i k))"
proof (cases "store k")
  case None
  then show ?thesis by (simp add: crp_set_data_to_clusters_def kept_store_def)
next
  case (Some st)
  have c: "data_to_clusters st i = None" using assms Some by simp
  show ?thesis
    using Some c
    by (auto simp: crp_set_data_to_clusters_def kept_store_def store_frame_def Let_def
        map_le_def split: option.splits sum.splits prod.splits)
qed

lemma crp_propose_kept:
  "kept_store k (fst (snd (crp_propose_anchors n k g)))"
proof (cases "n = 2")
  case False
  then show ?thesis by (simp add: crp_propose_anchors_def kept_store_refl)
next
  case True
  show ?thesis
  proof (cases "randint0 (num_data_points k) g")
    case (Inl e)
    then show ?thesis using True by (simp add: crp_propose_anchors_def kept_store_refl)
  next
    case (Inr ag)
    obtain a g1 where ag: "ag = (a, g1)" by (cases ag)
    show ?thesis
    proof (cases "store k")
      case None
      then show ?thesis
        using True Inr ag by (simp add: crp_propose_anchors_def kept_store_refl)
    next
      case (Some st)
      show ?thesis
      proof (cases "data_to_clusters st a")
        case (Some d)
        then show ?thesis
          using True Inr ag \<open>store k = Some st\<close>
          by (simp add: crp_propose_anchors_def crp_pick_kernel kept_store_refl)
      next
        case None
        obtain e k1 where s: "crp_set_data_to_clusters a k = (e, k1)"
          by (cases "crp_set_data_to_clusters a k")
        have "kept_store k k1"
          using crp_set_kept [of k a] None \<open>store k = Some st\<close> s by simp
        then show ?thesis
          using True Inr ag \<open>store k = Some st\<close> None s
          by (cases e) (simp_all add: crp_propose_anchors_def crp_pick_kernel)
      qed
    qed
  qed
qed

text \<open>The store after one call of an informed kernel.\<close>

lemma informed_update_store_cong:
  "data k1 = data k2 \<Longrightarrow> dist k1 = dist k2 \<Longrightarrow>
   store (snd (informed_update cs k1)) = store (snd (informed_update cs k2))"
  by (simp add: informed_update_def Let_def)

lemma adaptive_can_update_fields:
  "data (snd (adaptive_can_update cs k)) = data k"
  "dist (snd (adaptive_can_update cs k)) = dist k"
  "log_tau_2 (snd (adaptive_can_update cs k)) = log_tau_2 k"
  by (simp_all add: adaptive_can_update_def Let_def)

lemma adaptive_can_update_store:
  "store (snd (adaptive_can_update cs k)) = store k"
  by (simp add: adaptive_can_update_def Let_def)

lemma informed_setup_store:
  assumes pr: "\<And>n k g. kept_store k (fst (snd (pr n k g)))"
  shows "if fst (adaptive_can_update cs (k\<lparr>iter := iter k + 1\<rparr>))
         then rebuilt_store cs k
                (fst (snd (setup_split_merge adaptive_can_update informed_update pr cs n k g)))
         else kept_store k
                (fst (snd (setup_split_merge adaptive_can_update informed_update pr cs n k g)))"
proof -
  define k1 where "k1 = k\<lparr>iter := iter k + 1\<rparr>"
  obtain b k2 where c: "adaptive_can_update cs k1 = (b, k2)"
    by (cases "adaptive_can_update cs k1")
  have k2: "data k2 = data k" "dist k2 = dist k" "store k2 = store k"
    using adaptive_can_update_fields [of cs k1] adaptive_can_update_store [of cs k1] c
    by (simp_all add: k1_def)
  obtain e k3 where u: "(if b then informed_update cs k2 else (None, k2)) = (e, k3)"
    by (cases "if b then informed_update cs k2 else (None, k2)")
  define k' where
    "k' = fst (snd (setup_split_merge adaptive_can_update informed_update pr cs n k g))"
  have k3: "kept_store k3 k'"
  proof (cases e)
    case (Some err)
    then have "k' = k3"
      using c u unfolding k'_def k1_def by (simp add: setup_split_merge_def Let_def)
    then show ?thesis by (simp add: kept_store_refl)
  next
    case None
    obtain r k4 g1 where p: "pr (min n (int (length cs))) k3 g = (r, k4, g1)"
      by (cases "pr (min n (int (length cs))) k3 g")
    have "k' = k4"
      using c u None p unfolding k'_def k1_def
      by (simp add: setup_split_merge_def Let_def split: sum.splits prod.splits)
    moreover have "kept_store k3 (fst (snd (pr (min n (int (length cs))) k3 g)))" by (rule pr)
    ultimately show ?thesis using p by simp
  qed
  show ?thesis
  proof (cases b)
    case True
    then have "k3 = snd (informed_update cs k2)" using u by simp
    then have "store k3 = store (snd (informed_update cs k))"
      using informed_update_store_cong [OF k2(1,2)] by simp
    then have "kept_store (snd (informed_update cs k)) k'"
      using k3 kept_store_cong by blast
    then show ?thesis using True c by (simp add: rebuilt_store_def k1_def k'_def)
  next
    case False
    then have "k3 = k2" using u by simp
    then have "kept_store k k'" using k3 k2(3) kept_store_cong by blast
    then show ?thesis using False c by (simp add: k1_def k'_def)
  qed
qed

lemma cluster_marg_cong:
  "data k1 = data k2 \<Longrightarrow> dist k1 = dist k2 \<Longrightarrow> log_tau_2 k1 = log_tau_2 k2 \<Longrightarrow>
   use_prior_weight k1 = use_prior_weight k2 \<Longrightarrow> cluster_marg k1 = cluster_marg k2"
  by (rule ext) (simp add: cluster_marg_def Let_def split: option.splits)

lemma cluster_update_store_cong:
  assumes "data k1 = data k2" "dist k1 = dist k2" "log_tau_2 k1 = log_tau_2 k2"
    "use_prior_weight k1 = use_prior_weight k2"
  shows "ci_store (snd (cluster_update cs k1)) = ci_store (snd (cluster_update cs k2))"
  using assms(1) cluster_marg_cong [OF assms]
  by (simp add: cluster_update_def Let_def split: prod.splits option.splits)

lemma cluster_setup_store:
  "if fst (adaptive_can_update cs (k\<lparr>iter := iter k + 1\<rparr>))
   then cluster_rebuilt cs k (fst (snd (cluster_setup_split_merge cs n k g)))
   else cluster_kept k (fst (snd (cluster_setup_split_merge cs n k g)))"
proof -
  define k1 where "k1 = k\<lparr>iter := iter k + 1\<rparr>"
  obtain b k2 where c: "adaptive_can_update cs k1 = (b, k2)"
    by (cases "adaptive_can_update cs k1")
  have k2: "data k2 = data k" "dist k2 = dist k" "log_tau_2 k2 = log_tau_2 k"
    "use_prior_weight k2 = use_prior_weight k" "ci_store k2 = ci_store k"
    using c by (auto simp: adaptive_can_update_def Let_def k1_def split: if_splits)
  obtain e k3 where u: "(if b then cluster_update cs k2 else (None, k2)) = (e, k3)"
    by (cases "if b then cluster_update cs k2 else (None, k2)")
  define k' where "k' = fst (snd (cluster_setup_split_merge cs n k g))"
  have k3: "k' = k3"
  proof (cases e)
    case (Some err)
    then show ?thesis
      using c u unfolding k'_def k1_def
      by (simp add: cluster_setup_split_merge_def setup_split_merge_def Let_def)
  next
    case None
    obtain r k4 g1 where p: "cluster_propose_anchors (min n (int (length cs))) k3 g = (r, k4, g1)"
      by (cases "cluster_propose_anchors (min n (int (length cs))) k3 g")
    have "k4 = k3" using cluster_propose_kernel [of "min n (int (length cs))" k3 g] p by simp
    then show ?thesis
      using c u None p unfolding k'_def k1_def
      by (simp add: cluster_setup_split_merge_def setup_split_merge_def Let_def
          split: sum.splits prod.splits)
  qed
  show ?thesis
  proof (cases b)
    case True
    then have "k3 = snd (cluster_update cs k2)" using u by simp
    then have "ci_store k3 = ci_store (snd (cluster_update cs k))"
      using cluster_update_store_cong [OF k2(1-4)] by simp
    then show ?thesis
      using True c k3 by (simp add: cluster_rebuilt_def cluster_kept_def k1_def k'_def)
  next
    case False
    then have "k3 = k2" using u by simp
    then show ?thesis
      using False c k3 k2(5) by (simp add: cluster_kept_def k1_def k'_def)
  qed
qed

lemma threshold_setup_store:
  "if fst (adaptive_can_update cs (k\<lparr>iter := iter k + 1\<rparr>))
   then rebuilt_store cs k (fst (snd (threshold_setup_split_merge cs n k g)))
   else kept_store k (fst (snd (threshold_setup_split_merge cs n k g)))"
  unfolding threshold_setup_split_merge_def
  by (rule informed_setup_store) (rule threshold_propose_kept)

lemma crp_setup_store:
  "if fst (adaptive_can_update cs (k\<lparr>iter := iter k + 1\<rparr>))
   then rebuilt_store cs k (fst (snd (crp_setup_split_merge cs n k g)))
   else kept_store k (fst (snd (crp_setup_split_merge cs n k g)))"
  unfolding crp_setup_split_merge_def
  by (rule informed_setup_store) (rule crp_propose_kept)

lemma rebuild_policy_generic:
  assumes P: "\<And>cs n k g. control (fst (snd (f cs n k g)))
                 = control (snd (adaptive_can_update cs (k\<lparr>iter := iter k + 1\<rparr>)))"
    and Q: "\<And>cs n k g.
              if fst (adaptive_can_update cs (k\<lparr>iter := iter k + 1\<rparr>))
              then rebuilt cs k (fst (snd (f cs n k g)))
              else kept k (fst (snd (f cs n k g)))"
    and fresh: "iter k = 0" "max_clusters_seen k = 0" and i: "i < length calls"
  shows "rebuild_policy rebuilt kept f calls k g i"
proof -
  define b where "b = num_adaptation_iters k"
  obtain k_i g_i where ri: "run_calls f (take i calls) k g = (k_i, g_i)"
    by (cases "run_calls f (take i calls) k g")
  obtain cs n where c: "calls ! i = (cs, n)" by (cases "calls ! i")
  define flag where "flag = fst (adaptive_can_update cs (k_i\<lparr>iter := iter k_i + 1\<rparr>))"
  have "control k_i = (iter k + length (take i calls), num_adaptation_iters k,
          recorded_max (num_adaptation_iters k) (iter k) (max_clusters_seen k) (take i calls))"
    using run_calls_control [of f "take i calls" k g, OF P] ri by simp
  then have ki: "iter k_i = i" "num_adaptation_iters k_i = b"
    "max_clusters_seen k_i = recorded_max b 0 0 (take i calls)"
    using fresh i by (simp_all add: control_def b_def)
  have flag: "flag \<longleftrightarrow> max_clusters_seen k_i < num_distinct cs \<and> enat (Suc i) \<le> b"
    by (simp add: flag_def adaptive_can_update_flag length_np_unique ki)
  have first: "flag \<longleftrightarrow> max_seen_before calls i < num_distinct cs \<and> enat (Suc i) \<le> b"
  proof (cases "enat (Suc i) \<le> b")
    case True
    have "enat i \<le> enat (Suc i)" by simp
    then have "enat i \<le> b" using True by (rule order_trans)
    then have "enat (0 + length (take i calls)) \<le> b" using i by simp
    then have "recorded_max b 0 0 (take i calls) = max_seen_before calls i"
      unfolding max_seen_before_def by (rule recorded_max_within_budget)
    then show ?thesis using True by (simp add: flag ki)
  next
    case False
    then show ?thesis by (simp add: flag)
  qed
  obtain res k' g' where f: "f cs n k_i g_i = (res, k', g')" by (cases "f cs n k_i g_i")
  have "take (Suc i) calls = take i calls @ [(cs, n)]"
    using i c by (simp add: take_Suc_conv_app_nth)
  then have after: "fst (run_calls f (take (Suc i) calls) k g) = k'"
    by (simp add: run_calls_append ri f)
  have "control k' = control (snd (adaptive_can_update cs (k_i\<lparr>iter := iter k_i + 1\<rparr>)))"
    using P [of cs n k_i g_i] f by simp
  then have "control k' = (Suc (iter k_i), num_adaptation_iters k_i,
      if flag then num_distinct cs else max_clusters_seen k_i)"
    by (simp add: adaptive_can_update_control length_np_unique flag_def)
  then have m: "max_clusters_seen k' = (if flag then num_distinct cs else max_clusters_seen k_i)"
    by (simp add: control_def)
  have s: "if flag then rebuilt cs k_i k' else kept k_i k'"
    using Q [of cs k_i n g_i] f by (auto simp: flag_def split: if_splits)
  show ?thesis
    using first m s after by (simp add: rebuild_policy_def ri c b_def Let_def)
qed

lemma threshold_setup_control:
  "control (fst (snd (threshold_setup_split_merge cs n k g)))
   = control (snd (adaptive_can_update cs (k\<lparr>iter := iter k + 1\<rparr>)))"
  unfolding threshold_setup_split_merge_def
  by (rule setup_split_merge_control) (rule informed_update_control threshold_propose_control)+

lemma crp_setup_control:
  "control (fst (snd (crp_setup_split_merge cs n k g)))
   = control (snd (adaptive_can_update cs (k\<lparr>iter := iter k + 1\<rparr>)))"
  unfolding crp_setup_split_merge_def
  by (rule setup_split_merge_control) (rule informed_update_control crp_propose_control)+

lemma cluster_setup_control:
  "control (fst (snd (cluster_setup_split_merge cs n k g)))
   = control (snd (adaptive_can_update cs (k\<lparr>iter := iter k + 1\<rparr>)))"
  unfolding cluster_setup_split_merge_def
  by (rule setup_split_merge_control) (rule cluster_update_control cluster_propose_control)+

text \<open>
  Claim C7. For each adaptive strategy (threshold-informed, CRP-informed,
  cluster-informed) and every sequence of \<open>setup_split_merge\<close> calls on a newly constructed
  kernel, whether the calls return or raise. If the number of distinct clusters of the
  clustering of call number \<open>i\<close> strictly exceeds the maximum observed in all earlier calls
  and the already incremented iteration counter does not exceed the adaptation budget,
  the call leaves the store that \<open>update\<close> builds for its clustering and records that
  number as the new maximum. If not, the call leaves the store it found, with every cached
  score, and the recorded maximum as it was.
\<close>

theorem adaptive_rebuild_policy:
  "(iter kt = 0 \<and> max_clusters_seen kt = 0 \<and> i < length calls \<longrightarrow>
      rebuild_policy rebuilt_store kept_store threshold_setup_split_merge calls kt gt i) \<and>
   (iter kc = 0 \<and> max_clusters_seen kc = 0 \<and> i < length calls \<longrightarrow>
      rebuild_policy rebuilt_store kept_store crp_setup_split_merge calls kc gc i) \<and>
   (iter ki = 0 \<and> max_clusters_seen ki = 0 \<and> i < length calls \<longrightarrow>
      rebuild_policy cluster_rebuilt cluster_kept cluster_setup_split_merge calls ki gi i)"
  using rebuild_policy_generic [of threshold_setup_split_merge rebuilt_store kept_store kt i
      calls gt, OF threshold_setup_control threshold_setup_store]
    rebuild_policy_generic [of crp_setup_split_merge rebuilt_store kept_store kc i calls gc,
      OF crp_setup_control crp_setup_store]
    rebuild_policy_generic [of cluster_setup_split_merge cluster_rebuilt cluster_kept ki i
      calls gi, OF cluster_setup_control cluster_setup_store]
  by blast


theorem adaptive_rebuild_policy_witness:
  "iter (ThresholdInformedSplitMergeSetupKernel example_data flat_model flat_prior \<infinity> (1 / 100)) = 0 \<and>
   max_clusters_seen
     (ThresholdInformedSplitMergeSetupKernel example_data flat_model flat_prior \<infinity> (1 / 100)) = 0 \<and>
   iter (CRPInformedSplitMergeSetupKernel example_data flat_model flat_prior 2) = 0 \<and>
   max_clusters_seen (CRPInformedSplitMergeSetupKernel example_data flat_model flat_prior 2) = 0 \<and>
   iter (ClusterInformedSplitMergeSetupKernel example_data flat_model flat_prior \<infinity> False) = 0 \<and>
   max_clusters_seen
     (ClusterInformedSplitMergeSetupKernel example_data flat_model flat_prior \<infinity> False) = 0 \<and>
   2 < length [([0, 0, 1, 1], 2), ([0, 0, 0, 0], 2), ([0, 1, 2, 2 :: int], 2 :: int)] \<and>
   rebuild_policy rebuilt_store kept_store threshold_setup_split_merge
     [([0, 0, 1, 1], 2), ([0, 0, 0, 0], 2), ([0, 1, 2, 2], 2)]
     (ThresholdInformedSplitMergeSetupKernel example_data flat_model flat_prior \<infinity> (1 / 100))
     example_rng 2 \<and>
   rebuild_policy rebuilt_store kept_store crp_setup_split_merge
     [([0, 0, 1, 1], 2), ([0, 0, 0, 0], 2), ([0, 1, 2, 2], 2)]
     (CRPInformedSplitMergeSetupKernel example_data flat_model flat_prior 2)
     example_rng 2 \<and>
   rebuild_policy cluster_rebuilt cluster_kept cluster_setup_split_merge
     [([0, 0, 1, 1], 2), ([0, 0, 0, 0], 2), ([0, 1, 2, 2], 2)]
     (ClusterInformedSplitMergeSetupKernel example_data flat_model flat_prior \<infinity> False)
     example_rng 2"
  using adaptive_rebuild_policy [of
      "ThresholdInformedSplitMergeSetupKernel example_data flat_model flat_prior \<infinity> (1 / 100)"
      2 "[([0, 0, 1, 1], 2), ([0, 0, 0, 0], 2), ([0, 1, 2, 2], 2)]" example_rng
      "CRPInformedSplitMergeSetupKernel example_data flat_model flat_prior 2" example_rng
      "ClusterInformedSplitMergeSetupKernel example_data flat_model flat_prior \<infinity> False"
      example_rng]
  by (simp add: ThresholdInformedSplitMergeSetupKernel_def CRPInformedSplitMergeSetupKernel_def
      ClusterInformedSplitMergeSetupKernel_def)

subsection \<open>The candidate pool of the point-informed kernel\<close>

text \<open>
  In the branch \<open>u \<le> 0.5\<close> the first masked assignment sets the entries above the
  percentile to \<open>-\<infinity>\<close>, and the second sets every entry that is at most the percentile
  to 0: this includes the entries the first assignment has just set to \<open>-\<infinity>\<close>. Every
  entry ends as 0, and the pool is every position but the anchor.
\<close>

lemma mask_twice:
  "x \<noteq> NaN \<Longrightarrow> e \<noteq> NaN \<Longrightarrow>
   (if xle (if xlt x e then NInf else e) x then Fin 0 else (if xlt x e then NInf else e)) = Fin 0"
  by (cases x; cases e) (auto simp: xlt_def)

lemma low_branch_all:
  assumes u: "u' \<le> 1 / 2" and x: "percentile row alpha \<noteq> NaN" and r: "NaN \<notin> set row"
  shows "point_mask percentile u' alpha row = map (\<lambda>e. Fin 0) row"
proof -
  have "map (\<lambda>e. if xle e (percentile row alpha) then Fin 0 else e)
          (map (\<lambda>e. if xlt (percentile row alpha) e then NInf else e) row)
        = map (\<lambda>e. Fin 0) row"
    unfolding map_map comp_def
  proof (rule map_cong [OF refl])
    fix e assume "e \<in> set row"
    then have "e \<noteq> NaN" using r by auto
    then show "(if xle (if xlt (percentile row alpha) e then NInf else e) (percentile row alpha)
                then Fin 0 else if xlt (percentile row alpha) e then NInf else e) = Fin 0"
      using x by (rule mask_twice [rotated])
  qed
  then show ?thesis using u by (simp add: point_mask_def Let_def)
qed

lemma low_branch_pool:
  assumes u: "u' \<le> 1 / 2" and x: "percentile row alpha \<noteq> NaN" and r: "NaN \<notin> set row"
    and a: "anchor_1 < length row"
  shows "\<exists>lp. np_set (point_mask percentile u' alpha row) (int anchor_1) NInf = Some lp \<and>
          point_pool lp = filter (\<lambda>j. j \<noteq> anchor_1) [0..<length row]"
proof -
  have m: "point_mask percentile u' alpha row = map (\<lambda>e. Fin 0) row"
    using u x r by (rule low_branch_all)
  have "np_set (map (\<lambda>e. Fin 0) row) (int anchor_1) NInf
        = Some ((map (\<lambda>e. Fin 0) row)[anchor_1 := NInf])"
    using a by (simp add: np_set_def np_index_def)
  moreover have "point_pool ((map (\<lambda>e. Fin 0) row)[anchor_1 := NInf])
        = filter (\<lambda>j. j \<noteq> anchor_1) [0..<length row]"
    unfolding point_pool_def using a
    by (auto intro!: filter_cong simp: nth_list_update)
  ultimately show ?thesis by (simp add: m)
qed


text \<open>
  Claim C8 fails on the code. Four points whose compatibilities with point 0 are
  \<open>0, -3, -1, -5\<close>; the draws are \<open>anchor\<^sub>1 = 0\<close>, \<open>u = 0.3\<close> and \<open>\<alpha> = 100 \<cdot> 0.1 = 10\<close>. The
  10th percentile is \<open>-4.4\<close>, so the pool of the claim is point 3 alone; the pool of the
  code is \<open>1, 2, 3\<close>, and with the next draw the code returns point 1 as second anchor,
  whose compatibility \<open>-3\<close> is above the percentile.
\<close>

theorem point_informed_pool_failing_input:
  "fst (point_propose_anchors percentile_linear 2
          (PointInformedSplitMergeSetupKernel distance_data distance_model flat_prior \<infinity>)
          point_rng) = Inr [0, 1] \<and>
   pi_data_to_clusters (fst (snd (point_propose_anchors percentile_linear 2
          (PointInformedSplitMergeSetupKernel distance_data distance_model flat_prior \<infinity>)
          point_rng))) 0 = Some [Fin 0, Fin (- 3), Fin (- 1), Fin (- 5)] \<and>
   percentile_linear [Fin 0, Fin (- 3), Fin (- 1), Fin (- 5)] 10 = Fin (- 22 / 5) \<and>
   spec_pool_low percentile_linear 10 0 [Fin 0, Fin (- 3), Fin (- 1), Fin (- 5)] = [3] \<and>
   map_option point_pool
     (np_set (point_mask percentile_linear (3 / 10) 10 [Fin 0, Fin (- 3), Fin (- 1), Fin (- 5)])
        0 NInf) = Some [1, 2, 3]"
  by code_simp

subsection \<open>The score of the anchor's own cluster in the CRP-informed kernel\<close>



lemma crp_can_update_example:
  "adaptive_can_update [0, 0, 1, 1]
     ((CRPInformedSplitMergeSetupKernel example_data flat_model flat_prior \<infinity>)
        \<lparr>iter := iter (CRPInformedSplitMergeSetupKernel example_data flat_model flat_prior \<infinity>) + 1\<rparr>)
   = (True, (CRPInformedSplitMergeSetupKernel example_data flat_model flat_prior \<infinity>)
        \<lparr>iter := 1, max_clusters_seen := 2\<rparr>)"
  by (simp add: adaptive_can_update_def CRPInformedSplitMergeSetupKernel_def np_unique_def Let_def)

lemma crp_update_example:
  "informed_update [0, 0, 1, 1]
     ((CRPInformedSplitMergeSetupKernel example_data flat_model flat_prior \<infinity>)
        \<lparr>iter := 1, max_clusters_seen := 2\<rparr>)
   = (None, crp_updated)"
  by (simp add: informed_update_def CRPInformedSplitMergeSetupKernel_def example_data_def
      flat_model_def np_unique_def members_def relabel_clustering_def Let_def upt_rec
      crp_updated_def)

lemma crp_log_p_example:
  "crp_log_p flat_model flat_prior [0] 0 [(0, 2), (1, 2)] = Inr [Fin (ln 2), Fin 0]"
  by (simp add: crp_log_p_def flat_model_def flat_prior_def np_set_def np_get_def np_index_def
      log_sum_exp_def xsum_def np_log_def xsub_def Let_def)

lemma exp_normalize_example:
  "exp_normalize [Fin (ln 2), Fin 0] = ([Fin (2 / 3), Fin (1 / 3)], Fin (ln 3))"
  by (simp add: exp_normalize_def log_sum_exp_def xsum_def np_log_def xsub_def exp_diff exp_minus)

lemma crp_set_example: "crp_set_data_to_clusters 0 crp_updated = (None, crp_scored)"
  by (simp add: crp_set_data_to_clusters_def crp_updated_def crp_scored_def
      CRPInformedSplitMergeSetupKernel_def example_data_def crp_log_p_example
      exp_normalize_example)

lemma crp_updated_fields:
  "num_data_points crp_updated = 4"
  "store crp_updated = Some \<lparr>cluster_params = [(0, 2), (1, 2)],
                       clusters_to_data = [(0, [0, 1]), (1, [2, 3])],
                       data_to_clusters = Map.empty, clustering = [0, 0, 1, 1]\<rparr>"
  by (simp_all add: crp_updated_def CRPInformedSplitMergeSetupKernel_def example_data_def)

lemma crp_pick_example:
  "crp_pick 0 crp_scored \<lparr>nats = [0, 0], reals = []\<rparr>
   = (Inr [0, 1], crp_scored, \<lparr>nats = [], reals = []\<rparr>)"
  by (simp add: crp_pick_def crp_scored_def CRPInformedSplitMergeSetupKernel_def
      choice_p_def choice_def draw_def xsum_def xlt_def)

lemma crp_propose_example:
  "crp_propose_anchors 2 crp_updated crp_rng
   = (Inr [0, 1], crp_scored, \<lparr>nats = [], reals = []\<rparr>)"
  by (simp add: crp_propose_anchors_def crp_updated_fields randint0_def draw_def crp_rng_def
      crp_set_example crp_pick_example)

lemma order_example: 
  "order_of [0, 0, 1, 1] [0, 1] \<lparr>nats = [], reals = []\<rparr> = Inr ([0, 1], \<lparr>nats = [], reals = []\<rparr>)"
  by (simp add: order_of_def shuffle_def upt_rec)

lemma crp_full_example:
  "crp_setup_split_merge [0, 0, 1, 1] 2
     (CRPInformedSplitMergeSetupKernel example_data flat_model flat_prior \<infinity>) crp_rng
   = (Inr ([0, 1], [0, 1]), crp_scored, \<lparr>nats = [], reals = []\<rparr>)"
proof -
  have m: "min 2 (int (length [0, 0, 1, 1 :: int])) = 2" by simp
  show ?thesis
    by (simp only: crp_setup_split_merge_def setup_split_merge_def Let_def
        crp_can_update_example crp_update_example m crp_propose_example order_example
        prod.case if_True option.case sum.case)
qed


text \<open>
  Claim C6 fails on the code. Four points, clustering \<open>[0, 0, 1, 1]\<close>, all scores of other
  clusters equal to 0, first anchor point 0. The array \<open>log_p\<close> is created with zeros and
  the own cluster's entry is still 0 when \<open>log_sum_exp(log_p)\<close> is taken over the whole
  array, so the own cluster's score is \<open>log (e\<^sup>0 + e\<^sup>0) - log 1 = log 2\<close> and the cached
  probabilities are \<open>2/3\<close> and \<open>1/3\<close>. The claim's value, logsumexp of the other clusters'
  scores minus \<open>log (numClusters - 1)\<close>, is 0, which gives \<open>1/2\<close> and \<open>1/2\<close>.
\<close>

theorem crp_own_cluster_score_failing_input:
  "crp_setup_split_merge [0, 0, 1, 1] 2
     (CRPInformedSplitMergeSetupKernel example_data flat_model flat_prior \<infinity>) crp_rng
     = (Inr ([0, 1], [0, 1]), crp_scored, \<lparr>nats = [], reals = []\<rparr>) \<and>
   map_option (\<lambda>st. data_to_clusters st 0) (store crp_scored)
     = Some (Some [(0, Fin (2 / 3)), (1, Fin (1 / 3))]) \<and>
   crp_log_p flat_model flat_prior (example_data ! 0) 0 [(0, 2), (1, 2)]
     = Inr [Fin (ln 2), Fin 0] \<and>
   spec_crp_own_score [Fin 0] 2 = Fin 0 \<and>
   Fin (ln 2) \<noteq> Fin 0"
proof -
  have "map_option (\<lambda>st. data_to_clusters st 0) (store crp_scored)
     = Some (Some [(0, Fin (2 / 3)), (1, Fin (1 / 3))])"
    by (simp add: crp_scored_def CRPInformedSplitMergeSetupKernel_def)
  moreover have "crp_log_p flat_model flat_prior (example_data ! 0) 0 [(0, 2), (1, 2)]
     = Inr [Fin (ln 2), Fin 0]"
    using crp_log_p_example by (simp add: example_data_def)
  moreover have "spec_crp_own_score [Fin 0] 2 = Fin 0"
    by (simp add: spec_crp_own_score_def log_sum_exp_def xsum_def np_log_def xsub_def)
  moreover have "Fin (ln 2) \<noteq> Fin 0"
    by simp
  ultimately show ?thesis
    using crp_full_example by simp
qed


subsection \<open>Leave-one-out scoring and the cached posteriors\<close>

text \<open>Removing a point and adding it again: the six rank-one terms cancel.\<close>

lemma six_terms_cancel':
  assumes "is_mat d G" "is_mat d U" "is_mat d V" "is_mat d W"
  shows "madd (madd (madd (madd (madd (madd G (mscale a U)) (mscale (- s) W)) (mscale (- b) V))
                          (mscale b V)) (mscale s W)) (mscale (- a) U) = G"
  using assms by (intro mat_eqI [where d = d]) (simp_all add: mat_simps)

lemma decrement_then_increment:
  assumes sh: "shapes_ok p" and x: "is_vec (dim (priors p)) x" and con: "consistent p"
    and r1: "0 < r (decrement cu x p)"
    and c1: "decrement_meets_contract cu x p"
    and c2: "increment_meets_contract cu x (decrement cu x p)"
  shows "ss (increment cu x (decrement cu x p)) = ss p"
    and "gram (S_chol (increment cu x (decrement cu x p))) = gram (S_chol p)"
    and "nu (increment cu x (decrement cu x p)) = nu p"
    and "r (increment cu x (decrement cu x p)) = r p"
    and "u (increment cu x (decrement cu x p)) = u p"
    and "priors (increment cu x (decrement cu x p)) = priors p"
    and "is_chol (dim (priors p)) (S_chol (increment cu x (decrement cu x p)))"
proof -
  define d where "d = dim (priors p)"
  define q where "q = decrement cu x p"
  define q' where "q' = increment cu x q"
  have shp: "is_mat d (prior_S (priors p))" "is_vec d (prior_u (priors p))"
    "is_vec d (ss_X (ss p))" "is_mat d (ss_S (ss p))" "is_vec d (u p)" "is_vec d x"
    "is_mat d (S_chol p)"
    using sh x by (simp_all add: shapes_ok_def Let_def d_def)
  note cf = consistent_fields [OF con]
  show ss': "ss (increment cu x (decrement cu x p)) = ss p"
    using shp by (simp add: decrement_fields increment_fields ss_increment_decrement [where d = d])
  show "nu (increment cu x (decrement cu x p)) = nu p"
    by (simp add: decrement_fields increment_fields ss_decrement_def cf)
  show rr: "r (increment cu x (decrement cu x p)) = r p"
    by (simp add: decrement_fields increment_fields ss_decrement_def cf)
  show uu: "u (increment cu x (decrement cu x p)) = u p"
    using shp
    by (simp add: decrement_fields increment_fields ss_decrement_def vadd_vsub is_vec_def
        cf(3) [symmetric] del: of_int_add)
  show "priors (increment cu x (decrement cu x p)) = priors p"
    by (simp add: decrement_fields increment_fields)
  have rq: "r p = r q + 1" by (simp add: q_def decrement_fields cf)
  have r0: "0 < r p" using r1 rq by (simp add: q_def)
  have uq: "is_vec d (u q)"
    using shp by (simp add: q_def decrement_fields vec_simps)
  have g1: "gram (S_chol q) =
    madd (madd (madd (gram (S_chol p))
                     (mscale (real_of_int (r p)) (outer_product (u p) (u p))))
               (mscale (- 1) (outer_product x x)))
         (mscale (- real_of_int (r q)) (outer_product (u q) (u q)))"
    unfolding q_def
    using shp(5) uq r0 r1 c1 by (intro decrement_gram(1) [where d = d]) (simp_all add: q_def)
  have g2: "gram (S_chol q') =
    madd (madd (madd (gram (S_chol q))
                     (mscale (real_of_int (r q)) (outer_product (u q) (u q))))
               (mscale 1 (outer_product x x)))
         (mscale (- real_of_int (r q')) (outer_product (u q') (u q')))"
    unfolding q'_def
    using uq shp(5) r0 r1 c2 rr uu
    by (intro increment_gram(1) [where d = d]) (simp_all add: q_def)
  have "gram (S_chol q') = gram (S_chol p)"
    unfolding g2 g1 using rr uu shp uq
      six_terms_cancel' [of d "gram (S_chol p)" "outer_product (u p) (u p)"
        "outer_product (u q) (u q)" "outer_product x x" "real_of_int (r p)" 1 "real_of_int (r q)"]
    by (simp add: q'_def q_def is_mat_gram is_mat_outer)
  then show "gram (S_chol (increment cu x (decrement cu x p))) = gram (S_chol p)"
    by (simp add: q'_def q_def)
  show "is_chol (dim (priors p)) (S_chol (increment cu x (decrement cu x p)))"
    using increment_gram(2) [of d q cu x] uq shp(5) r0 r1 c2 rr uu
    by (simp add: q_def is_vec_def d_def)
qed

text \<open>
  The factor is the unique Cholesky factor of its Gram matrix, so the whole posterior is
  restored, not only the matrix it stands for.
\<close>

lemma restorable_identity:
  assumes "restorable cu x p"
  shows "increment cu x (decrement cu x p) = p"
proof -
  from assms have a: "shapes_ok p" "is_vec (dim (priors p)) x" "consistent p"
    "0 < r (decrement cu x p)" "decrement_meets_contract cu x p"
    "increment_meets_contract cu x (decrement cu x p)"
    and L: "is_chol (dim (priors p)) (S_chol p)"
    by (simp_all add: restorable_def)
  note f = decrement_then_increment [OF a]
  have "S_chol (increment cu x (decrement cu x p)) = S_chol p"
    using f(7) L f(2) by (rule chol_unique)
  then show ?thesis
    using f by (intro parameters.equality) simp_all
qed

text \<open>
  When the scoring loop runs to its end it hands back the dictionary of posteriors it was
  given, for every observation model whose \<open>increment\<close> undoes its \<open>decrement\<close>.
\<close>

lemma threshold_scores_frame:
  assumes "threshold_scores dst prior x cluster ps lp = (None, ps', lp')"
    and "\<forall>(c, p) \<in> set ps. c = cluster \<longrightarrow> params_increment dst x (params_decrement dst x p) = p"
  shows "ps' = ps"
  using assms
proof (induction ps arbitrary: lp ps' lp')
  case Nil
  then show ?case by simp
next
  case (Cons cp ps)
  obtain c p where cp: "cp = (c, p)" by (cases cp)
  define bp1 where "bp1 = (if c = cluster then params_decrement dst x p else p)"
  define score where "score = (\<lambda>n. if n = 0 then NInf
      else xadd (prior n) (log_predictive_likelihood dst x bp1))"
  define bp2 where "bp2 = (if c = cluster then params_increment dst x bp1 else bp1)"
  have step: "threshold_scores dst prior x cluster ((c, p) # ps) lp =
      (case params_N dst bp1 of
         None \<Rightarrow> (Some AttributeError, (c, bp1) # ps, lp)
       | Some n \<Rightarrow>
           (case np_set lp c (score n) of
              None \<Rightarrow> (Some IndexError, (c, bp1) # ps, lp)
            | Some lp1 \<Rightarrow>
                (case threshold_scores dst prior x cluster ps lp1 of
                   (e, rest', lp2) \<Rightarrow> (e, (c, bp2) # rest', lp2))))"
    unfolding bp1_def score_def bp2_def
    by (simp add: Let_def split: option.splits prod.splits)
  have pr: "threshold_scores dst prior x cluster ((c, p) # ps) lp = (None, ps', lp')"
    using Cons.prems(1) by (simp only: cp)
  obtain n where n: "params_N dst bp1 = Some n"
    using pr unfolding step by (cases "params_N dst bp1") simp_all
  obtain lp1 where s: "np_set lp c (score n) = Some lp1"
    using pr unfolding step by (cases "np_set lp c (score n)") (simp_all add: n)
  obtain e rest' lp2 where r: "threshold_scores dst prior x cluster ps lp1 = (e, rest', lp2)"
    by (cases "threshold_scores dst prior x cluster ps lp1")
  have e: "e = None" and ps': "ps' = (c, bp2) # rest'"
    using pr unfolding step by (simp_all add: n s r)
  have "rest' = ps"
    using Cons.IH [of lp1 rest' lp2] r e Cons.prems(2) by simp
  moreover have "bp2 = p"
    using Cons.prems(2) by (simp add: bp2_def bp1_def cp)
  ultimately show ?case by (simp add: ps' cp)
qed

lemma threshold_set_frame:
  assumes "fst (threshold_set_data_to_clusters i k) = None"
    and "store k = Some st"
    and "\<forall>(c, p) \<in> set (cluster_params st). c = clustering st ! i \<longrightarrow>
           params_increment (dist k) (data k ! i) (params_decrement (dist k) (data k ! i) p) = p"
  shows "map_option cluster_params (store (snd (threshold_set_data_to_clusters i k)))
         = Some (cluster_params st)"
proof -
  have ok: "i < length (data k) \<and> i < length (clustering st)"
    using assms(1,2) by (auto simp: threshold_set_data_to_clusters_def split: if_splits)
  obtain e ps' lp' where t: "threshold_scores (dist k) (log_tau_2 k) (data k ! i)
      (clustering st ! i) (cluster_params st) (replicate (length (cluster_params st)) (Fin 0))
      = (e, ps', lp')"
    by (cases "threshold_scores (dist k) (log_tau_2 k) (data k ! i)
      (clustering st ! i) (cluster_params st) (replicate (length (cluster_params st)) (Fin 0))")
  have e: "e = None"
    using assms(1,2) ok t
    by (cases e) (simp_all add: threshold_set_data_to_clusters_def Let_def)
  have "ps' = cluster_params st"
    using threshold_scores_frame [OF t [unfolded e] assms(3)] .
  then show ?thesis
    using assms(2) ok t e by (simp add: threshold_set_data_to_clusters_def Let_def)
qed

text \<open>The threshold-informed kernel on posteriors of mvn.py, step by step.\<close>

lemma empty_posterior_fields:
  "empty_posterior =
     \<lparr>priors = MultivariateNormalPriors 1, ss = \<lparr>ss_N = 0, ss_X = [0], ss_S = [[0]]\<rparr>,
      nu = 3, r = 1, u = [0], S_chol = [[1]]\<rparr>"
  by (simp add: empty_posterior_def MultivariateNormalParameters_def update_S_chol_def
      update_u_def update_r_def update_nu_def direct_S_def MultivariateNormalPriors_def
      eye_def zeros_def madd_def msub_def mscale_def outer_product_def vscale_def vadd_def
      vsub_def vdiv_def)

lemma increment_empty_posterior:
  "increment cholesky_update_1d [2] empty_posterior = example_posterior"
  by (simp add: empty_posterior_fields increment_def Let_def example_posterior_def
      MultivariateNormalPriors_def zeros_def update_u_def update_r_def update_nu_def
      ss_increment_def vscale_def vadd_def vdiv_def madd_def outer_product_def
      cholesky_update_1d_def)

lemma decrement_example_posterior:
  "decrement cholesky_update_1d [2] example_posterior = empty_posterior"
  by (simp add: empty_posterior_fields decrement_def Let_def example_posterior_def
      MultivariateNormalPriors_def zeros_def update_u_def update_r_def update_nu_def
      ss_decrement_def vscale_def vadd_def vsub_def vdiv_def madd_def msub_def outer_product_def
      cholesky_update_1d_def)

lemma mvn_can_update:
  "adaptive_can_update [0, 1]
     ((ThresholdInformedSplitMergeSetupKernel mvn_data (with_mvn_posteriors m) flat_prior \<infinity> (1 / 100))
        \<lparr>iter := iter (ThresholdInformedSplitMergeSetupKernel mvn_data (with_mvn_posteriors m)
                        flat_prior \<infinity> (1 / 100)) + 1\<rparr>)
   = (True, (ThresholdInformedSplitMergeSetupKernel mvn_data (with_mvn_posteriors m) flat_prior \<infinity>
              (1 / 100))
        \<lparr>iter := 1, max_clusters_seen := 2\<rparr>)"
  by (simp add: adaptive_can_update_def ThresholdInformedSplitMergeSetupKernel_def np_unique_def
      Let_def)

lemma mvn_update:
  "informed_update [0, 1]
     ((ThresholdInformedSplitMergeSetupKernel mvn_data (with_mvn_posteriors m) flat_prior \<infinity> (1 / 100))
        \<lparr>iter := 1, max_clusters_seen := 2\<rparr>)
   = (None, mvn_updated m)"
  by (simp add: informed_update_def ThresholdInformedSplitMergeSetupKernel_def mvn_data_def
      with_mvn_posteriors_def np_unique_def members_def relabel_clustering_def Let_def upt_rec
      mvn_updated_def increment_empty_posterior)

lemma mvn_scores:
  "threshold_scores (with_mvn_posteriors m) flat_prior [2] 0
     [(0, example_posterior), (1, example_posterior)] [Fin 0, Fin 0]
   = (Some AttributeError, [(0, empty_posterior), (1, example_posterior)], [Fin 0, Fin 0])"
  by (simp add: with_mvn_posteriors_def decrement_example_posterior)

lemma mvn_set:
  "threshold_set_data_to_clusters 0 (mvn_updated m) = (Some AttributeError, mvn_failed m)"
  by (simp add: threshold_set_data_to_clusters_def mvn_updated_def mvn_failed_def
      ThresholdInformedSplitMergeSetupKernel_def mvn_data_def mvn_scores Let_def
      del: threshold_scores.simps)

lemma mvn_updated_fields:
  "num_data_points (mvn_updated m) = 2"
  "store (mvn_updated m) = Some \<lparr>cluster_params = [(0, example_posterior), (1, example_posterior)],
                       clusters_to_data = [(0, [0]), (1, [1])],
                       data_to_clusters = Map.empty, clustering = [0, 1]\<rparr>"
  by (simp_all add: mvn_updated_def ThresholdInformedSplitMergeSetupKernel_def mvn_data_def)

lemma mvn_propose:
  "threshold_propose_anchors 2 (mvn_updated m) crp_rng
   = (Inl AttributeError, mvn_failed m, \<lparr>nats = [0, 0], reals = []\<rparr>)"
  by (simp add: threshold_propose_anchors_def mvn_updated_fields randint0_def
      draw_def crp_rng_def mvn_set)

lemma mvn_full:
  "threshold_setup_split_merge [0, 1] 2
     (ThresholdInformedSplitMergeSetupKernel mvn_data (with_mvn_posteriors m) flat_prior \<infinity> (1 / 100))
     crp_rng
   = (Inl AttributeError, mvn_failed m, \<lparr>nats = [0, 0], reals = []\<rparr>)"
proof -
  have m: "min 2 (int (length [0, 1 :: int])) = 2" by simp
  show ?thesis
    by (simp only: threshold_setup_split_merge_def setup_split_merge_def Let_def
        mvn_can_update mvn_update m mvn_propose
        prod.case if_True option.case sum.case)
qed

text \<open>
  Claim C10 fails on the code for the posteriors of mvn.py. Two points of value 2,
  clustering \<open>[0, 1]\<close>, first anchor point 0. \<open>update\<close> has built the posterior of each
  cluster. \<open>_set_data_to_clusters\<close> decrements the posterior of the anchor's cluster and
  then reads \<open>block_params.N\<close>, which \<open>MultivariateNormalParameters\<close> does not define: the
  read raises AttributeError before the posterior is incremented again, the call of
  \<open>setup_split_merge\<close> does not return, and the cached posterior of cluster 0 is left
  without its point (\<open>N = 0\<close>, Cholesky factor 1 in place of \<open>N = 1\<close>, \<open>\<surd>3\<close>).
\<close>

theorem threshold_scoring_failing_input:
  "informed_update [0, 1]
     ((ThresholdInformedSplitMergeSetupKernel mvn_data (with_mvn_posteriors m) flat_prior \<infinity> (1 / 100))
        \<lparr>iter := 1, max_clusters_seen := 2\<rparr>)
     = (None, mvn_updated m) \<and>
   threshold_set_data_to_clusters 0 (mvn_updated m) = (Some AttributeError, mvn_failed m) \<and>
   threshold_setup_split_merge [0, 1] 2
     (ThresholdInformedSplitMergeSetupKernel mvn_data (with_mvn_posteriors m) flat_prior \<infinity> (1 / 100))
     crp_rng
     = (Inl AttributeError, mvn_failed m, \<lparr>nats = [0, 0], reals = []\<rparr>) \<and>
   map_option cluster_params (store (mvn_updated m))
     = Some [(0, example_posterior), (1, example_posterior)] \<and>
   map_option cluster_params (store (mvn_failed m))
     = Some [(0, empty_posterior), (1, example_posterior)] \<and>
   ss empty_posterior = \<lparr>ss_N = 0, ss_X = [0], ss_S = [[0]]\<rparr> \<and>
   S_chol empty_posterior = [[1]] \<and>
   ss example_posterior = \<lparr>ss_N = 1, ss_X = [2], ss_S = [[4]]\<rparr> \<and>
   S_chol example_posterior = [[sqrt 3]]"
proof -
  have "map_option cluster_params (store (mvn_updated m))
     = Some [(0, example_posterior), (1, example_posterior)]"
    by (simp add: mvn_updated_def)
  moreover have "map_option cluster_params (store (mvn_failed m))
     = Some [(0, empty_posterior), (1, example_posterior)]"
    by (simp add: mvn_failed_def)
  moreover have "ss empty_posterior = \<lparr>ss_N = 0, ss_X = [0], ss_S = [[0]]\<rparr>"
    "S_chol empty_posterior = [[1]]"
    by (simp_all add: empty_posterior_fields)
  moreover have "ss example_posterior = \<lparr>ss_N = 1, ss_X = [2], ss_S = [[4]]\<rparr>"
    "S_chol example_posterior = [[sqrt 3]]"
    by (simp_all add: example_posterior_def)
  ultimately show ?thesis
    using mvn_update [of m] mvn_set [of m] mvn_full [of m] by simp
qed


subsection \<open>Scores that are all \<open>-\<infinity>\<close>\<close>

text \<open>The CRP-informed kernel on the example, step by step.\<close>

lemma sparse_crp_can_update:
  "adaptive_can_update [0, 1]
     ((CRPInformedSplitMergeSetupKernel sparse_data seen_values_model flat_prior \<infinity>)
        \<lparr>iter := iter (CRPInformedSplitMergeSetupKernel sparse_data seen_values_model flat_prior \<infinity>) + 1\<rparr>)
   = (True, (CRPInformedSplitMergeSetupKernel sparse_data seen_values_model flat_prior \<infinity>)
        \<lparr>iter := 1, max_clusters_seen := 2\<rparr>)"
  by (simp add: adaptive_can_update_def CRPInformedSplitMergeSetupKernel_def np_unique_def Let_def)

lemma sparse_crp_update:
  "informed_update [0, 1]
     ((CRPInformedSplitMergeSetupKernel sparse_data seen_values_model flat_prior \<infinity>)
        \<lparr>iter := 1, max_clusters_seen := 2\<rparr>)
   = (None, sparse_crp_updated)"
  by (simp add: informed_update_def CRPInformedSplitMergeSetupKernel_def sparse_data_def
      seen_values_model_def np_unique_def members_def relabel_clustering_def Let_def upt_rec
      sparse_crp_updated_def)

lemma sparse_crp_log_p:
  "crp_log_p seen_values_model flat_prior [0] 0 [(0, [[0]]), (1, [[1]])] = Inr [NInf, NInf]"
  by (simp add: crp_log_p_def seen_values_model_def flat_prior_def np_set_def np_get_def
      np_index_def Let_def)

lemma sparse_exp_normalize:
  "exp_normalize [NInf, NInf] = ([NaN, NaN], NInf)"
  by (simp add: exp_normalize_def log_sum_exp_def xsum_def np_log_def xsub_def)

lemma sparse_crp_set: "crp_set_data_to_clusters 0 sparse_crp_updated = (None, sparse_crp_scored)"
  by (simp add: crp_set_data_to_clusters_def sparse_crp_updated_def sparse_crp_scored_def
      CRPInformedSplitMergeSetupKernel_def sparse_data_def sparse_crp_log_p
      sparse_exp_normalize)

lemma sparse_crp_updated_fields:
  "num_data_points sparse_crp_updated = 2"
  "store sparse_crp_updated = Some \<lparr>cluster_params = [(0, [[0]]), (1, [[1]])],
                       clusters_to_data = [(0, [0]), (1, [1])],
                       data_to_clusters = Map.empty, clustering = [0, 1]\<rparr>"
  by (simp_all add: sparse_crp_updated_def CRPInformedSplitMergeSetupKernel_def sparse_data_def)

lemma sparse_crp_pick:
  "crp_pick 0 sparse_crp_scored \<lparr>nats = [0, 0], reals = []\<rparr>
   = (Inl ValueError, sparse_crp_scored, \<lparr>nats = [0, 0], reals = []\<rparr>)"
  by (simp add: crp_pick_def sparse_crp_scored_def CRPInformedSplitMergeSetupKernel_def
      choice_p_def)

lemma sparse_crp_propose:
  "crp_propose_anchors 2 sparse_crp_updated crp_rng
   = (Inl ValueError, sparse_crp_scored, \<lparr>nats = [0, 0], reals = []\<rparr>)"
  by (simp add: crp_propose_anchors_def sparse_crp_updated_fields randint0_def draw_def
      crp_rng_def sparse_crp_set sparse_crp_pick)

lemma sparse_crp_full:
  "crp_setup_split_merge [0, 1] 2
     (CRPInformedSplitMergeSetupKernel sparse_data seen_values_model flat_prior \<infinity>) crp_rng
   = (Inl ValueError, sparse_crp_scored, \<lparr>nats = [0, 0], reals = []\<rparr>)"
proof -
  have m: "min 2 (int (length [0, 1 :: int])) = 2" by simp
  show ?thesis
    by (simp only: crp_setup_split_merge_def setup_split_merge_def Let_def
        sparse_crp_can_update sparse_crp_update m sparse_crp_propose
        prod.case if_True option.case sum.case)
qed

text \<open>The threshold-informed kernel on the same call.\<close>

lemma sparse_threshold_can_update:
  "adaptive_can_update [0, 1]
     ((ThresholdInformedSplitMergeSetupKernel sparse_data seen_values_model flat_prior \<infinity> (1 / 100))
        \<lparr>iter := iter (ThresholdInformedSplitMergeSetupKernel sparse_data seen_values_model
                        flat_prior \<infinity> (1 / 100)) + 1\<rparr>)
   = (True, (ThresholdInformedSplitMergeSetupKernel sparse_data seen_values_model flat_prior \<infinity>
              (1 / 100))
        \<lparr>iter := 1, max_clusters_seen := 2\<rparr>)"
  by (simp add: adaptive_can_update_def ThresholdInformedSplitMergeSetupKernel_def np_unique_def
      Let_def)

lemma sparse_threshold_update:
  "informed_update [0, 1]
     ((ThresholdInformedSplitMergeSetupKernel sparse_data seen_values_model flat_prior \<infinity> (1 / 100))
        \<lparr>iter := 1, max_clusters_seen := 2\<rparr>)
   = (None, sparse_threshold_updated)"
  by (simp add: informed_update_def ThresholdInformedSplitMergeSetupKernel_def sparse_data_def
      seen_values_model_def np_unique_def members_def relabel_clustering_def Let_def upt_rec
      sparse_threshold_updated_def)

lemma sparse_threshold_scores:
  "threshold_scores seen_values_model flat_prior [0] 0 [(0, [[0]]), (1, [[1]])] [Fin 0, Fin 0]
   = (None, [(0, [[0]]), (1, [[1]])], [NInf, NInf])"
  by (simp add: seen_values_model_def flat_prior_def np_set_def np_index_def Let_def)

lemma sparse_log_normalize: "log_normalize [NInf, NInf] = [NaN, NaN]"
  by (simp add: log_normalize_def log_sum_exp_def xsum_def np_log_def xsub_def)

lemma sparse_threshold_set:
  "threshold_set_data_to_clusters 0 sparse_threshold_updated = (None, sparse_threshold_scored)"
  by (simp add: threshold_set_data_to_clusters_def sparse_threshold_updated_def
      sparse_threshold_scored_def ThresholdInformedSplitMergeSetupKernel_def sparse_data_def
      sparse_threshold_scores sparse_log_normalize Let_def np_log_def
      del: threshold_scores.simps)

lemma sparse_threshold_updated_fields:
  "num_data_points sparse_threshold_updated = 2"
  "store sparse_threshold_updated = Some \<lparr>cluster_params = [(0, [[0]]), (1, [[1]])],
                       clusters_to_data = [(0, [0]), (1, [1])],
                       data_to_clusters = Map.empty, clustering = [0, 1]\<rparr>"
  by (simp_all add: sparse_threshold_updated_def ThresholdInformedSplitMergeSetupKernel_def
      sparse_data_def)

lemma sparse_threshold_pick:
  "threshold_pick 0 sparse_threshold_scored \<lparr>nats = [0, 0], reals = []\<rparr>
   = (Inr [0, 1], sparse_threshold_scored, \<lparr>nats = [], reals = []\<rparr>)"
  by (simp add: threshold_pick_def sparse_threshold_scored_def
      ThresholdInformedSplitMergeSetupKernel_def uniform_anchors_def
      choice_without_replacement_def shuffle_def draw_def upt_rec sparse_data_def)

lemma sparse_threshold_propose:
  "threshold_propose_anchors 2 sparse_threshold_updated crp_rng
   = (Inr [0, 1], sparse_threshold_scored, \<lparr>nats = [], reals = []\<rparr>)"
  by (simp add: threshold_propose_anchors_def sparse_threshold_updated_fields randint0_def
      draw_def crp_rng_def sparse_threshold_set sparse_threshold_pick)

lemma sparse_order:
  "order_of [0, 1] [0, 1] \<lparr>nats = [], reals = []\<rparr> = Inr ([0, 1], \<lparr>nats = [], reals = []\<rparr>)"
  by (simp add: order_of_def shuffle_def upt_rec)

lemma sparse_threshold_full:
  "threshold_setup_split_merge [0, 1] 2
     (ThresholdInformedSplitMergeSetupKernel sparse_data seen_values_model flat_prior \<infinity> (1 / 100))
     crp_rng
   = (Inr ([0, 1], [0, 1]), sparse_threshold_scored, \<lparr>nats = [], reals = []\<rparr>)"
proof -
  have m: "min 2 (int (length [0, 1 :: int])) = 2" by simp
  show ?thesis
    by (simp only: threshold_setup_split_merge_def setup_split_merge_def Let_def
        sparse_threshold_can_update sparse_threshold_update m sparse_threshold_propose
        sparse_order prod.case if_True option.case sum.case)
qed

text \<open>
  Claim C5 fails on the code. Two points \<open>[[0], [1]]\<close>, clustering \<open>[0, 1]\<close>, two anchors,
  first anchor point 0, and a likelihood that is zero for a value the cluster has not seen.
  The score of the other cluster is \<open>-\<infinity>\<close> and the anchor's own cluster is a singleton, so
  every score is \<open>-\<infinity>\<close> and the normalised probabilities are not numbers. \<open>_propose_anchors\<close>
  of the CRP-informed kernel has no fallback: it hands them to \<open>np.random.choice\<close>, which
  raises ValueError, and \<open>setup_split_merge\<close> does not return. The threshold-informed
  kernel, on the same call, finds no cluster above its threshold, falls back to a uniform
  pair and returns a result.
\<close>

theorem crp_informed_no_fallback_failing_input:
  "crp_setup_split_merge [0, 1] 2
     (CRPInformedSplitMergeSetupKernel sparse_data seen_values_model flat_prior \<infinity>) crp_rng
     = (Inl ValueError, sparse_crp_scored, \<lparr>nats = [0, 0], reals = []\<rparr>) \<and>
   threshold_setup_split_merge [0, 1] 2
     (ThresholdInformedSplitMergeSetupKernel sparse_data seen_values_model flat_prior \<infinity> (1 / 100))
     crp_rng
     = (Inr ([0, 1], [0, 1]), sparse_threshold_scored, \<lparr>nats = [], reals = []\<rparr>) \<and>
   valid_result [0, 1] [0, 1] [0, 1]"
proof -
  have "valid_result [0, 1] [0, 1] [0, 1]"
    by (auto simp: valid_result_def less_Suc_eq numeral_2_eq_2)
  then show ?thesis
    using sparse_crp_full sparse_threshold_full by simp
qed

end
